theory Spec2Isabelle
  imports Main "HOL-Library.Word"
begin

unbundle bit_operations_syntax

section \<open>Common types of the two MAC drivers\<close>

text \<open>
  Both drivers (\<^verbatim>\<open>samv71_eth_driver.c\<close> and \<^verbatim>\<open>mimxrt1160_eth2_driver.c\<close>) run on 32-bit
  ARM cores: \<^verbatim>\<open>uint_t\<close> and \<^verbatim>\<open>size_t\<close> are 32 bits wide. Descriptor words and registers are
  modelled as 32-bit words, indices and byte counts as natural numbers (they stay far
  below \<open>2 ^ 32\<close>; the one subtraction that can wrap is written on words).
\<close>

type_synonym uint8_t = "8 word"
type_synonym uint16_t = "16 word"
type_synonym uint32_t = "32 word"

text \<open>The error codes the two drivers return (\<^verbatim>\<open>error_t\<close>).\<close>

datatype error_t =
    NO_ERROR
  | ERROR_FAILURE
  | ERROR_INVALID_LENGTH
  | ERROR_INVALID_PACKET
  | ERROR_BUFFER_EMPTY

text \<open>\<^verbatim>\<open>UINT_MAX\<close> of \<^verbatim>\<open>limits.h\<close> for a 32-bit \<^verbatim>\<open>unsigned int\<close>.\<close>

definition UINT_MAX :: nat where
  "UINT_MAX = 4294967295"

text \<open>
  \<^verbatim>\<open>osMemcpy(dest, src, n)\<close>: the first \<open>n\<close> bytes of \<open>dest\<close> are replaced by the first \<open>n\<close>
  bytes of \<open>src\<close>. \<^verbatim>\<open>osMemcpyAt\<close> is the same copy to \<^verbatim>\<open>dest + off\<close>. A copy that runs past the
  end of the destination array is undefined in C; in the model the list grows there.
\<close>

definition osMemcpy :: "uint8_t list \<Rightarrow> uint8_t list \<Rightarrow> nat \<Rightarrow> uint8_t list" where
  "osMemcpy dest src n = take n src @ drop n dest"

definition osMemcpyAt :: "uint8_t list \<Rightarrow> nat \<Rightarrow> uint8_t list \<Rightarrow> nat \<Rightarrow> uint8_t list" where
  "osMemcpyAt dest off src n = take off dest @ take n src @ drop (off + n) dest"

text \<open>The length rounded up to a multiple of four: \<^verbatim>\<open>(n + 3) & ~3UL\<close>.\<close>

definition roundUp4 :: "nat \<Rightarrow> nat" where
  "roundUp4 n = unat ((word_of_nat n + 3 :: uint32_t) AND NOT 3)"

text \<open>
  The outgoing packet is a \<^verbatim>\<open>NetBuffer\<close> and an offset. The buffer is seen as its byte
  sequence; \<^verbatim>\<open>netBufferGetLength(buffer) - offset\<close> is a \<^verbatim>\<open>size_t\<close> subtraction and wraps
  around. \<^verbatim>\<open>netBufferRead(temp, buffer, offset, length)\<close> copies the bytes that start at the
  offset into \<open>temp\<close>.
\<close>

definition netBufferGetLength :: "uint8_t list \<Rightarrow> nat" where
  "netBufferGetLength buffer = length buffer"

definition packetLength :: "uint8_t list \<Rightarrow> nat \<Rightarrow> nat" where
  "packetLength buffer offset =
     unat ((word_of_nat (netBufferGetLength buffer) :: uint32_t) - word_of_nat offset)"

definition netBufferRead :: "uint8_t list \<Rightarrow> uint8_t list \<Rightarrow> nat \<Rightarrow> nat \<Rightarrow> uint8_t list" where
  "netBufferRead temp buffer offset len =
     osMemcpy temp (drop offset buffer) (min len (length buffer - offset))"

section \<open>The SAMV71 driver: descriptor rings\<close>

text \<open>
  The constants of \<^verbatim>\<open>samv71_eth_driver.h\<close> and of the device header are not part of the
  two source files; they are parameters of the model. The addresses of the static buffers
  are parameters as well.
\<close>

record samv71_config =
  SAMV71_ETH_TX_BUFFER_COUNT :: nat
  SAMV71_ETH_TX_BUFFER_SIZE :: nat
  SAMV71_ETH_RX_BUFFER_COUNT :: nat
  SAMV71_ETH_RX_BUFFER_SIZE :: nat
  SAMV71_ETH_DUMMY_BUFFER_COUNT :: nat
  ETH_MAX_FRAME_SIZE :: nat
  GMAC_TX_USED :: uint32_t
  GMAC_TX_WRAP :: uint32_t
  GMAC_TX_LAST :: uint32_t
  GMAC_TX_LENGTH :: uint32_t
  GMAC_RX_ADDRESS :: uint32_t
  GMAC_RX_WRAP :: uint32_t
  GMAC_RX_OWNERSHIP :: uint32_t
  GMAC_RX_SOF :: uint32_t
  GMAC_RX_EOF :: uint32_t
  GMAC_RX_LENGTH :: uint32_t
  GMAC_NCR_TSTART_Msk :: uint32_t
  samv71TxBufferAddr :: "nat \<Rightarrow> uint32_t"
  samv71RxBufferAddr :: "nat \<Rightarrow> uint32_t"
  samv71DummyTxBufferAddr :: "nat \<Rightarrow> uint32_t"
  samv71DummyRxBufferAddr :: "nat \<Rightarrow> uint32_t"

text \<open>
  \<^verbatim>\<open>Samv71TxBufferDesc\<close> and \<^verbatim>\<open>Samv71RxBufferDesc\<close> have the same two words.
\<close>

record Samv71BufferDesc =
  address :: uint32_t
  status :: uint32_t

type_synonym Samv71TxBufferDesc = Samv71BufferDesc
type_synonym Samv71RxBufferDesc = Samv71BufferDesc

text \<open>
  The static variables of the driver, the \<^verbatim>\<open>static\<close> scratch arrays of the send and
  receive functions, the network control register, and what the driver hands to its
  collaborators: the event \<^verbatim>\<open>nicTxEvent\<close> set by \<^verbatim>\<open>osSetEvent\<close> and the frames passed to
  \<^verbatim>\<open>nicProcessPacket\<close>, in order.
\<close>

record samv71_state =
  samv71_txBuffer :: "uint8_t list list"
  samv71_rxBuffer :: "uint8_t list list"
  samv71_txBufferDesc :: "Samv71TxBufferDesc list"
  samv71_rxBufferDesc :: "Samv71RxBufferDesc list"
  samv71_dummyTxBufferDesc :: "Samv71TxBufferDesc list"
  samv71_dummyRxBufferDesc :: "Samv71RxBufferDesc list"
  samv71_txBufferIndex :: nat
  samv71_rxBufferIndex :: nat
  samv71_sendTemp :: "uint8_t list"
  samv71_receiveTemp :: "uint8_t list"
  samv71_GMAC_NCR :: uint32_t
  samv71_nicTxEvent :: bool
  samv71_processed :: "uint8_t list list"

subsection \<open>\<^verbatim>\<open>samv71EthInitBufferDesc\<close>\<close>

text \<open>
  Each \<^verbatim>\<open>for\<close> loop writes both words of the descriptors \<open>0 .. count - 1\<close>; the statement
  after it sets the wrap flag of entry \<open>i - 1\<close>, where \<open>i\<close> is the count. The writes of the
  queue base registers at the end of the function concern the memory layout only and are
  left out.
\<close>

definition samv71InitTxLoop ::
  "(nat \<Rightarrow> uint32_t) \<Rightarrow> uint32_t \<Rightarrow> nat \<Rightarrow> Samv71TxBufferDesc list \<Rightarrow> Samv71TxBufferDesc list" where
  "samv71InitTxLoop addr used n ds =
     fold (\<lambda>i ds. ds[i := \<lparr>address = addr i, status = used\<rparr>]) [0..<n] ds"

definition samv71InitRxLoop ::
  "(nat \<Rightarrow> uint32_t) \<Rightarrow> uint32_t \<Rightarrow> nat \<Rightarrow> Samv71RxBufferDesc list \<Rightarrow> Samv71RxBufferDesc list" where
  "samv71InitRxLoop addr amask n ds =
     fold (\<lambda>i ds. ds[i := \<lparr>address = addr i AND amask, status = 0\<rparr>]) [0..<n] ds"

definition samv71InitDummyRxLoop ::
  "(nat \<Rightarrow> uint32_t) \<Rightarrow> uint32_t \<Rightarrow> uint32_t \<Rightarrow> nat \<Rightarrow> Samv71RxBufferDesc list \<Rightarrow> Samv71RxBufferDesc list" where
  "samv71InitDummyRxLoop addr amask own n ds =
     fold (\<lambda>i ds. ds[i := \<lparr>address = (addr i AND amask) OR own, status = 0\<rparr>]) [0..<n] ds"

definition samv71MarkTxWrap :: "uint32_t \<Rightarrow> nat \<Rightarrow> Samv71TxBufferDesc list \<Rightarrow> Samv71TxBufferDesc list" where
  "samv71MarkTxWrap wrap i ds = ds[i - 1 := (ds ! (i - 1))\<lparr>status := status (ds ! (i - 1)) OR wrap\<rparr>]"

definition samv71MarkRxWrap :: "uint32_t \<Rightarrow> nat \<Rightarrow> Samv71RxBufferDesc list \<Rightarrow> Samv71RxBufferDesc list" where
  "samv71MarkRxWrap wrap i ds = ds[i - 1 := (ds ! (i - 1))\<lparr>address := address (ds ! (i - 1)) OR wrap\<rparr>]"

definition samv71EthInitBufferDesc :: "samv71_config \<Rightarrow> samv71_state \<Rightarrow> samv71_state" where
  "samv71EthInitBufferDesc c s =
     s\<lparr>samv71_txBufferDesc :=
         samv71MarkTxWrap (GMAC_TX_WRAP c) (SAMV71_ETH_TX_BUFFER_COUNT c)
           (samv71InitTxLoop (samv71TxBufferAddr c) (GMAC_TX_USED c)
              (SAMV71_ETH_TX_BUFFER_COUNT c) (samv71_txBufferDesc s)),
       samv71_txBufferIndex := 0,
       samv71_rxBufferDesc :=
         samv71MarkRxWrap (GMAC_RX_WRAP c) (SAMV71_ETH_RX_BUFFER_COUNT c)
           (samv71InitRxLoop (samv71RxBufferAddr c) (GMAC_RX_ADDRESS c)
              (SAMV71_ETH_RX_BUFFER_COUNT c) (samv71_rxBufferDesc s)),
       samv71_rxBufferIndex := 0,
       samv71_dummyTxBufferDesc :=
         samv71MarkTxWrap (GMAC_TX_WRAP c) (SAMV71_ETH_DUMMY_BUFFER_COUNT c)
           (samv71InitTxLoop (samv71DummyTxBufferAddr c) (GMAC_TX_USED c)
              (SAMV71_ETH_DUMMY_BUFFER_COUNT c) (samv71_dummyTxBufferDesc s)),
       samv71_dummyRxBufferDesc :=
         samv71MarkRxWrap (GMAC_RX_WRAP c) (SAMV71_ETH_DUMMY_BUFFER_COUNT c)
           (samv71InitDummyRxLoop (samv71DummyRxBufferAddr c) (GMAC_RX_ADDRESS c) (GMAC_RX_OWNERSHIP c)
              (SAMV71_ETH_DUMMY_BUFFER_COUNT c) (samv71_dummyRxBufferDesc s))\<rparr>"

subsection \<open>\<^verbatim>\<open>samv71EthSendPacket\<close>\<close>

definition samv71EthSendPacket ::
  "samv71_config \<Rightarrow> samv71_state \<Rightarrow> uint8_t list \<Rightarrow> nat \<Rightarrow> error_t \<times> samv71_state" where
  "samv71EthSendPacket c s buffer offset =
     (let len = packetLength buffer offset in
      if len > SAMV71_ETH_TX_BUFFER_SIZE c then
        (ERROR_INVALID_LENGTH, s\<lparr>samv71_nicTxEvent := True\<rparr>)
      else if status (samv71_txBufferDesc s ! samv71_txBufferIndex s) AND GMAC_TX_USED c = 0 then
        (ERROR_FAILURE, s)
      else
        let i = samv71_txBufferIndex s;
            temp = netBufferRead (samv71_sendTemp s) buffer offset len;
            s1 = s\<lparr>samv71_sendTemp := temp,
                   samv71_txBuffer :=
                     (samv71_txBuffer s)[i := osMemcpy (samv71_txBuffer s ! i) temp (roundUp4 len)]\<rparr>;
            s2 = (if i < SAMV71_ETH_TX_BUFFER_COUNT c - 1 then
                    s1\<lparr>samv71_txBufferDesc :=
                         (samv71_txBufferDesc s1)[i := (samv71_txBufferDesc s1 ! i)
                            \<lparr>status := GMAC_TX_LAST c OR (word_of_nat len AND GMAC_TX_LENGTH c)\<rparr>],
                       samv71_txBufferIndex := i + 1\<rparr>
                  else
                    s1\<lparr>samv71_txBufferDesc :=
                         (samv71_txBufferDesc s1)[i := (samv71_txBufferDesc s1 ! i)
                            \<lparr>status := GMAC_TX_WRAP c OR GMAC_TX_LAST c OR
                               (word_of_nat len AND GMAC_TX_LENGTH c)\<rparr>],
                       samv71_txBufferIndex := 0\<rparr>);
            s3 = s2\<lparr>samv71_GMAC_NCR := samv71_GMAC_NCR s2 OR GMAC_NCR_TSTART_Msk c\<rparr>
        in if status (samv71_txBufferDesc s3 ! samv71_txBufferIndex s3) AND GMAC_TX_USED c \<noteq> 0 then
             (NO_ERROR, s3\<lparr>samv71_nicTxEvent := True\<rparr>)
           else (NO_ERROR, s3))"

subsection \<open>\<^verbatim>\<open>samv71EthReceivePacket\<close>\<close>

text \<open>
  The first loop looks for the SOF and EOF flags among the entries that follow the receive
  index. It returns the loop counter \<open>i\<close>, \<open>sofIndex\<close>, \<open>eofIndex\<close> and \<open>size\<close>. The C variable
  \<open>size\<close> is not initialised and only read when an EOF was found; it is 0 here otherwise.
\<close>

function samv71ScanLoop ::
  "samv71_config \<Rightarrow> samv71_state \<Rightarrow> nat \<Rightarrow> nat \<Rightarrow> nat \<times> nat \<times> nat \<times> nat" where
  "samv71ScanLoop c s i sofIndex =
     (if i < SAMV71_ETH_RX_BUFFER_COUNT c then
        let j = samv71_rxBufferIndex s + i;
            j = (if j \<ge> SAMV71_ETH_RX_BUFFER_COUNT c then j - SAMV71_ETH_RX_BUFFER_COUNT c else j);
            d = samv71_rxBufferDesc s ! j
        in if address d AND GMAC_RX_OWNERSHIP c = 0 then (i, sofIndex, UINT_MAX, 0)
           else
             let sofIndex = (if status d AND GMAC_RX_SOF c \<noteq> 0 then i else sofIndex)
             in if status d AND GMAC_RX_EOF c \<noteq> 0 \<and> sofIndex \<noteq> UINT_MAX then
                  (i, sofIndex, i, min (unat (status d AND GMAC_RX_LENGTH c)) (ETH_MAX_FRAME_SIZE c))
                else samv71ScanLoop c s (i + 1) sofIndex
      else (i, sofIndex, UINT_MAX, 0))"
  by pat_completeness auto
termination
  by (relation "measure (\<lambda>(c, s, i, sofIndex). SAMV71_ETH_RX_BUFFER_COUNT c - i)") auto

declare samv71ScanLoop.simps [simp del]

text \<open>
  One round of the second loop: copy from the current buffer when the entry belongs to the
  frame, mark the buffer as free, move the receive index. The loop carries the state, the
  number of bytes copied so far (\<open>length\<close> in the source) and \<open>size\<close> (here \<open>sz\<close>).
\<close>

definition samv71ProcessStep ::
  "samv71_config \<Rightarrow> nat \<Rightarrow> nat \<Rightarrow> nat \<Rightarrow> samv71_state \<times> nat \<times> nat \<Rightarrow> samv71_state \<times> nat \<times> nat" where
  "samv71ProcessStep c sofIndex eofIndex i x =
     (case x of (s, len, sz) \<Rightarrow>
        let r = samv71_rxBufferIndex s;
            (s1, len1, sz1) =
              (if eofIndex \<noteq> UINT_MAX \<and> i \<ge> sofIndex \<and> i \<le> eofIndex then
                 let n = min sz (SAMV71_ETH_RX_BUFFER_SIZE c)
                 in (s\<lparr>samv71_receiveTemp :=
                         osMemcpyAt (samv71_receiveTemp s) len (samv71_rxBuffer s ! r) (roundUp4 n)\<rparr>,
                     len + n, sz - n)
               else (s, len, sz));
            s2 = s1\<lparr>samv71_rxBufferDesc :=
                      (samv71_rxBufferDesc s1)[r := (samv71_rxBufferDesc s1 ! r)
                         \<lparr>address := address (samv71_rxBufferDesc s1 ! r) AND NOT (GMAC_RX_OWNERSHIP c)\<rparr>]\<rparr>;
            s3 = s2\<lparr>samv71_rxBufferIndex := r + 1\<rparr>;
            s4 = (if samv71_rxBufferIndex s3 \<ge> SAMV71_ETH_RX_BUFFER_COUNT c
                  then s3\<lparr>samv71_rxBufferIndex := 0\<rparr> else s3)
        in (s4, len1, sz1))"

definition samv71EthReceivePacket :: "samv71_config \<Rightarrow> samv71_state \<Rightarrow> error_t \<times> samv71_state" where
  "samv71EthReceivePacket c s =
     (case samv71ScanLoop c s 0 UINT_MAX of (i, sofIndex, eofIndex, sz) \<Rightarrow>
        let j = (if eofIndex \<noteq> UINT_MAX then eofIndex + 1
                 else if sofIndex \<noteq> UINT_MAX then sofIndex
                 else i)
        in case fold (samv71ProcessStep c sofIndex eofIndex) [0..<j] (s, 0, sz) of
             (s', len, sz') \<Rightarrow>
               if len > 0 then
                 (NO_ERROR, s'\<lparr>samv71_processed := samv71_processed s' @ [take len (samv71_receiveTemp s')]\<rparr>)
               else (ERROR_BUFFER_EMPTY, s'))"


section \<open>The i.MX RT1160 driver (ENET_1G): descriptor rings\<close>

text \<open>
  The constants of \<^verbatim>\<open>mimxrt1160_eth2_driver.h\<close> and of the device header are parameters
  of the model, as are the addresses of the static buffers.
\<close>

record mimxrt1160_config =
  MIMXRT1160_ETH2_TX_BUFFER_COUNT :: nat
  MIMXRT1160_ETH2_TX_BUFFER_SIZE :: nat
  MIMXRT1160_ETH2_RX_BUFFER_COUNT :: nat
  MIMXRT1160_ETH2_RX_BUFFER_SIZE :: nat
  ENET_TBD0_R :: uint32_t
  ENET_TBD0_W :: uint32_t
  ENET_TBD0_L :: uint32_t
  ENET_TBD0_TC :: uint32_t
  ENET_TBD0_DATA_LENGTH :: uint32_t
  ENET_TBD2_INT :: uint32_t
  ENET_RBD0_E :: uint32_t
  ENET_RBD0_W :: uint32_t
  ENET_RBD0_L :: uint32_t
  ENET_RBD0_LG :: uint32_t
  ENET_RBD0_NO :: uint32_t
  ENET_RBD0_CR :: uint32_t
  ENET_RBD0_OV :: uint32_t
  ENET_RBD0_TR :: uint32_t
  ENET_RBD0_DATA_LENGTH :: uint32_t
  ENET_RBD2_INT :: uint32_t
  ENET_TDAR_TDAR_MASK :: uint32_t
  ENET_RDAR_RDAR_MASK :: uint32_t
  mimxrt1160TxBufferAddr :: "nat \<Rightarrow> uint32_t"
  mimxrt1160RxBufferAddr :: "nat \<Rightarrow> uint32_t"

text \<open>
  A buffer descriptor is an array of eight 32-bit words. The state holds the static
  variables of the driver, the \<^verbatim>\<open>static\<close> scratch arrays of the send and receive functions,
  the registers the ring functions write, the event \<^verbatim>\<open>nicTxEvent\<close> and the frames passed to
  \<^verbatim>\<open>nicProcessPacket\<close>, in order.
\<close>

record mimxrt1160_state =
  mimxrt1160_txBuffer :: "uint8_t list list"
  mimxrt1160_rxBuffer :: "uint8_t list list"
  mimxrt1160_txBufferDesc :: "uint32_t list list"
  mimxrt1160_rxBufferDesc :: "uint32_t list list"
  mimxrt1160_txBufferIndex :: nat
  mimxrt1160_rxBufferIndex :: nat
  mimxrt1160_sendTemp :: "uint8_t list"
  mimxrt1160_receiveTemp :: "uint8_t list"
  mimxrt1160_ENET_TDAR :: uint32_t
  mimxrt1160_ENET_RDAR :: uint32_t
  mimxrt1160_ENET_MRBR :: uint32_t
  mimxrt1160_nicTxEvent :: bool
  mimxrt1160_processed :: "uint8_t list list"

subsection \<open>\<^verbatim>\<open>mimxrt1160Eth2InitBufferDesc\<close>\<close>

text \<open>
  \<^verbatim>\<open>osMemset\<close> clears the two arrays of \<open>count\<close> descriptors of eight words. The loops then
  write the words of each descriptor, and the statement after each loop sets the wrap flag of
  entry \<open>i - 1\<close>, where \<open>i\<close> is the count. The writes of \<^verbatim>\<open>TDSR\<close> and \<^verbatim>\<open>RDSR\<close> concern the
  memory layout only and are left out.
\<close>

definition mimxrt1160InitTxLoop ::
  "(nat \<Rightarrow> uint32_t) \<Rightarrow> uint32_t \<Rightarrow> nat \<Rightarrow> uint32_t list list \<Rightarrow> uint32_t list list" where
  "mimxrt1160InitTxLoop addr intr n ds =
     fold (\<lambda>i ds. ds[i := (ds ! i)[1 := addr i, 2 := intr]]) [0..<n] ds"

definition mimxrt1160InitRxLoop ::
  "(nat \<Rightarrow> uint32_t) \<Rightarrow> uint32_t \<Rightarrow> uint32_t \<Rightarrow> nat \<Rightarrow> uint32_t list list \<Rightarrow> uint32_t list list" where
  "mimxrt1160InitRxLoop addr e intr n ds =
     fold (\<lambda>i ds. ds[i := (ds ! i)[0 := e, 1 := addr i, 2 := intr]]) [0..<n] ds"

definition mimxrt1160MarkWrap :: "uint32_t \<Rightarrow> nat \<Rightarrow> uint32_t list list \<Rightarrow> uint32_t list list" where
  "mimxrt1160MarkWrap wrap i ds = ds[i - 1 := (ds ! (i - 1))[0 := (ds ! (i - 1)) ! 0 OR wrap]]"

definition mimxrt1160Eth2InitBufferDesc :: "mimxrt1160_config \<Rightarrow> mimxrt1160_state \<Rightarrow> mimxrt1160_state" where
  "mimxrt1160Eth2InitBufferDesc c s =
     s\<lparr>mimxrt1160_txBufferDesc :=
         mimxrt1160MarkWrap (ENET_TBD0_W c) (MIMXRT1160_ETH2_TX_BUFFER_COUNT c)
           (mimxrt1160InitTxLoop (mimxrt1160TxBufferAddr c) (ENET_TBD2_INT c)
              (MIMXRT1160_ETH2_TX_BUFFER_COUNT c)
              (replicate (MIMXRT1160_ETH2_TX_BUFFER_COUNT c) (replicate 8 0))),
       mimxrt1160_txBufferIndex := 0,
       mimxrt1160_rxBufferDesc :=
         mimxrt1160MarkWrap (ENET_RBD0_W c) (MIMXRT1160_ETH2_RX_BUFFER_COUNT c)
           (mimxrt1160InitRxLoop (mimxrt1160RxBufferAddr c) (ENET_RBD0_E c) (ENET_RBD2_INT c)
              (MIMXRT1160_ETH2_RX_BUFFER_COUNT c)
              (replicate (MIMXRT1160_ETH2_RX_BUFFER_COUNT c) (replicate 8 0))),
       mimxrt1160_rxBufferIndex := 0,
       mimxrt1160_ENET_MRBR := word_of_nat (MIMXRT1160_ETH2_RX_BUFFER_SIZE c)\<rparr>"

subsection \<open>\<^verbatim>\<open>mimxrt1160Eth2SendPacket\<close>\<close>

definition mimxrt1160Eth2SendPacket ::
  "mimxrt1160_config \<Rightarrow> mimxrt1160_state \<Rightarrow> uint8_t list \<Rightarrow> nat \<Rightarrow> error_t \<times> mimxrt1160_state" where
  "mimxrt1160Eth2SendPacket c s buffer offset =
     (let len = packetLength buffer offset in
      if len > MIMXRT1160_ETH2_TX_BUFFER_SIZE c then
        (ERROR_INVALID_LENGTH, s\<lparr>mimxrt1160_nicTxEvent := True\<rparr>)
      else if (mimxrt1160_txBufferDesc s ! mimxrt1160_txBufferIndex s) ! 0 AND ENET_TBD0_R c \<noteq> 0 then
        (ERROR_FAILURE, s)
      else
        let i = mimxrt1160_txBufferIndex s;
            temp = netBufferRead (mimxrt1160_sendTemp s) buffer offset len;
            s1 = s\<lparr>mimxrt1160_sendTemp := temp,
                   mimxrt1160_txBuffer :=
                     (mimxrt1160_txBuffer s)[i := osMemcpy (mimxrt1160_txBuffer s ! i) temp (roundUp4 len)]\<rparr>;
            s2 = s1\<lparr>mimxrt1160_txBufferDesc :=
                      (mimxrt1160_txBufferDesc s1)[i := (mimxrt1160_txBufferDesc s1 ! i)[4 := 0]]\<rparr>;
            s3 = (if i < MIMXRT1160_ETH2_TX_BUFFER_COUNT c - 1 then
                    s2\<lparr>mimxrt1160_txBufferDesc :=
                         (mimxrt1160_txBufferDesc s2)[i := (mimxrt1160_txBufferDesc s2 ! i)
                            [0 := ENET_TBD0_R c OR ENET_TBD0_L c OR ENET_TBD0_TC c OR
                               (word_of_nat len AND ENET_TBD0_DATA_LENGTH c)]],
                       mimxrt1160_txBufferIndex := i + 1\<rparr>
                  else
                    s2\<lparr>mimxrt1160_txBufferDesc :=
                         (mimxrt1160_txBufferDesc s2)[i := (mimxrt1160_txBufferDesc s2 ! i)
                            [0 := ENET_TBD0_R c OR ENET_TBD0_W c OR ENET_TBD0_L c OR ENET_TBD0_TC c OR
                               (word_of_nat len AND ENET_TBD0_DATA_LENGTH c)]],
                       mimxrt1160_txBufferIndex := 0\<rparr>);
            s4 = s3\<lparr>mimxrt1160_ENET_TDAR := ENET_TDAR_TDAR_MASK c\<rparr>
        in if (mimxrt1160_txBufferDesc s4 ! mimxrt1160_txBufferIndex s4) ! 0 AND ENET_TBD0_R c = 0 then
             (NO_ERROR, s4\<lparr>mimxrt1160_nicTxEvent := True\<rparr>)
           else (NO_ERROR, s4))"

subsection \<open>\<^verbatim>\<open>mimxrt1160Eth2ReceivePacket\<close>\<close>

definition mimxrt1160Eth2ReceivePacket :: "mimxrt1160_config \<Rightarrow> mimxrt1160_state \<Rightarrow> error_t \<times> mimxrt1160_state" where
  "mimxrt1160Eth2ReceivePacket c s =
     (let r = mimxrt1160_rxBufferIndex s;
          d0 = (mimxrt1160_rxBufferDesc s ! r) ! 0
      in if d0 AND ENET_RBD0_E c = 0 then
           let (error, s1) =
                 (if d0 AND ENET_RBD0_L c \<noteq> 0 then
                    if d0 AND (ENET_RBD0_LG c OR ENET_RBD0_NO c OR ENET_RBD0_CR c OR
                               ENET_RBD0_OV c OR ENET_RBD0_TR c) = 0 then
                      let n = unat (d0 AND ENET_RBD0_DATA_LENGTH c);
                          n = min n (MIMXRT1160_ETH2_RX_BUFFER_SIZE c);
                          temp = osMemcpy (mimxrt1160_receiveTemp s) (mimxrt1160_rxBuffer s ! r) (roundUp4 n)
                      in (NO_ERROR, s\<lparr>mimxrt1160_receiveTemp := temp,
                                         mimxrt1160_processed := mimxrt1160_processed s @ [take n temp]\<rparr>)
                    else (ERROR_INVALID_PACKET, s)
                  else (ERROR_INVALID_PACKET, s));
               s2 = s1\<lparr>mimxrt1160_rxBufferDesc :=
                         (mimxrt1160_rxBufferDesc s1)[r := (mimxrt1160_rxBufferDesc s1 ! r)[4 := 0]]\<rparr>;
               s3 = (if r < MIMXRT1160_ETH2_RX_BUFFER_COUNT c - 1 then
                       s2\<lparr>mimxrt1160_rxBufferDesc :=
                            (mimxrt1160_rxBufferDesc s2)[r := (mimxrt1160_rxBufferDesc s2 ! r)
                               [0 := ENET_RBD0_E c]],
                          mimxrt1160_rxBufferIndex := r + 1\<rparr>
                     else
                       s2\<lparr>mimxrt1160_rxBufferDesc :=
                            (mimxrt1160_rxBufferDesc s2)[r := (mimxrt1160_rxBufferDesc s2 ! r)
                               [0 := ENET_RBD0_E c OR ENET_RBD0_W c]],
                          mimxrt1160_rxBufferIndex := 0\<rparr>);
               s4 = s3\<lparr>mimxrt1160_ENET_RDAR := ENET_RDAR_RDAR_MASK c\<rparr>
           in (error, s4)
         else (ERROR_BUFFER_EMPTY, s))"


section \<open>Ownership, valid configurations and well-formed states\<close>

text \<open>
  Who may touch a descriptor. For the SAMV71 a transmit descriptor belongs to the software
  when \<^verbatim>\<open>GMAC_TX_USED\<close> is set, a receive descriptor when \<^verbatim>\<open>GMAC_RX_OWNERSHIP\<close> is set (the
  hardware has released it). For the i.MX RT1160 a transmit descriptor belongs to the DMA
  when \<^verbatim>\<open>ENET_TBD0_R\<close> is set, a receive descriptor when \<^verbatim>\<open>ENET_RBD0_E\<close> is set.
\<close>

datatype ownership = software | hardware

definition samv71TxOwnership :: "samv71_config \<Rightarrow> Samv71TxBufferDesc \<Rightarrow> ownership" where
  "samv71TxOwnership c d = (if status d AND GMAC_TX_USED c \<noteq> 0 then software else hardware)"

definition samv71RxOwnership :: "samv71_config \<Rightarrow> Samv71RxBufferDesc \<Rightarrow> ownership" where
  "samv71RxOwnership c d = (if address d AND GMAC_RX_OWNERSHIP c \<noteq> 0 then software else hardware)"

definition mimxrt1160TxOwnership :: "mimxrt1160_config \<Rightarrow> uint32_t list \<Rightarrow> ownership" where
  "mimxrt1160TxOwnership c d = (if d ! 0 AND ENET_TBD0_R c \<noteq> 0 then hardware else software)"

definition mimxrt1160RxOwnership :: "mimxrt1160_config \<Rightarrow> uint32_t list \<Rightarrow> ownership" where
  "mimxrt1160RxOwnership c d = (if d ! 0 AND ENET_RBD0_E c \<noteq> 0 then hardware else software)"

text \<open>The wrap flag of a descriptor.\<close>

definition samv71TxWrap :: "samv71_config \<Rightarrow> Samv71TxBufferDesc \<Rightarrow> bool" where
  "samv71TxWrap c d = (status d AND GMAC_TX_WRAP c \<noteq> 0)"

definition samv71RxWrap :: "samv71_config \<Rightarrow> Samv71RxBufferDesc \<Rightarrow> bool" where
  "samv71RxWrap c d = (address d AND GMAC_RX_WRAP c \<noteq> 0)"

definition mimxrt1160TxWrap :: "mimxrt1160_config \<Rightarrow> uint32_t list \<Rightarrow> bool" where
  "mimxrt1160TxWrap c d = (d ! 0 AND ENET_TBD0_W c \<noteq> 0)"

definition mimxrt1160RxWrap :: "mimxrt1160_config \<Rightarrow> uint32_t list \<Rightarrow> bool" where
  "mimxrt1160RxWrap c d = (d ! 0 AND ENET_RBD0_W c \<noteq> 0)"

text \<open>
  What the headers guarantee about their constants: every ring has at least one entry (the
  headers reject a count below 1), the buffer sizes are multiples of four, a receive buffer
  is not larger than the largest frame, the flags are non-zero and do not overlap each other
  or the length field, and the length field is a mask of low bits that can hold the size of
  a buffer.
\<close>

definition samv71_config_ok :: "samv71_config \<Rightarrow> bool" where
  "samv71_config_ok c \<longleftrightarrow>
     1 \<le> SAMV71_ETH_TX_BUFFER_COUNT c \<and>
     1 \<le> SAMV71_ETH_RX_BUFFER_COUNT c \<and> SAMV71_ETH_RX_BUFFER_COUNT c < UINT_MAX \<and>
     1 \<le> SAMV71_ETH_DUMMY_BUFFER_COUNT c \<and>
     SAMV71_ETH_TX_BUFFER_SIZE c mod 4 = 0 \<and> SAMV71_ETH_RX_BUFFER_SIZE c mod 4 = 0 \<and>
     SAMV71_ETH_RX_BUFFER_SIZE c \<le> ETH_MAX_FRAME_SIZE c \<and>
     GMAC_TX_USED c \<noteq> 0 \<and> GMAC_TX_WRAP c \<noteq> 0 \<and>
     GMAC_TX_USED c AND GMAC_TX_WRAP c = 0 \<and>
     GMAC_TX_USED c AND GMAC_TX_LAST c = 0 \<and>
     GMAC_TX_USED c AND GMAC_TX_LENGTH c = 0 \<and>
     GMAC_TX_LAST c AND GMAC_TX_LENGTH c = 0 \<and>
     GMAC_TX_WRAP c AND GMAC_TX_LENGTH c = 0 \<and>
     (\<exists>k < 32. GMAC_TX_LENGTH c = mask k \<and> SAMV71_ETH_TX_BUFFER_SIZE c < 2 ^ k) \<and>
     GMAC_RX_WRAP c \<noteq> 0 \<and> GMAC_RX_OWNERSHIP c \<noteq> 0 \<and>
     GMAC_RX_ADDRESS c AND GMAC_RX_WRAP c = 0 \<and>
     GMAC_RX_ADDRESS c AND GMAC_RX_OWNERSHIP c = 0 \<and>
     GMAC_RX_WRAP c AND GMAC_RX_OWNERSHIP c = 0 \<and>
     GMAC_RX_SOF c \<noteq> 0 \<and> GMAC_RX_EOF c \<noteq> 0 \<and>
     GMAC_RX_SOF c AND GMAC_RX_LENGTH c = 0 \<and>
     GMAC_RX_EOF c AND GMAC_RX_LENGTH c = 0 \<and>
     GMAC_RX_SOF c AND GMAC_RX_EOF c = 0 \<and>
     (\<exists>k < 32. GMAC_RX_LENGTH c = mask k \<and> SAMV71_ETH_RX_BUFFER_SIZE c < 2 ^ k)"

text \<open>
  The error flags that the receive function of the i.MX RT1160 tests, and the fields of the
  first descriptor word that describe a received frame: last-buffer flag, error flags, length.
\<close>

definition mimxrt1160RxErrorMask :: "mimxrt1160_config \<Rightarrow> uint32_t" where
  "mimxrt1160RxErrorMask c =
     (ENET_RBD0_LG c OR ENET_RBD0_NO c OR ENET_RBD0_CR c OR ENET_RBD0_OV c OR ENET_RBD0_TR c)"

definition mimxrt1160RxStatusMask :: "mimxrt1160_config \<Rightarrow> uint32_t" where
  "mimxrt1160RxStatusMask c =
     (ENET_RBD0_L c OR mimxrt1160RxErrorMask c OR ENET_RBD0_DATA_LENGTH c)"

definition mimxrt1160_config_ok :: "mimxrt1160_config \<Rightarrow> bool" where
  "mimxrt1160_config_ok c \<longleftrightarrow>
     1 \<le> MIMXRT1160_ETH2_TX_BUFFER_COUNT c \<and>
     1 \<le> MIMXRT1160_ETH2_RX_BUFFER_COUNT c \<and>
     MIMXRT1160_ETH2_TX_BUFFER_SIZE c mod 4 = 0 \<and> MIMXRT1160_ETH2_RX_BUFFER_SIZE c mod 4 = 0 \<and>
     ENET_TBD0_R c \<noteq> 0 \<and> ENET_TBD0_W c \<noteq> 0 \<and>
     ENET_TBD0_R c AND ENET_TBD0_W c = 0 \<and>
     ENET_TBD0_R c AND ENET_TBD0_DATA_LENGTH c = 0 \<and>
     ENET_TBD0_W c AND ENET_TBD0_DATA_LENGTH c = 0 \<and>
     ENET_TBD0_L c AND ENET_TBD0_DATA_LENGTH c = 0 \<and>
     ENET_TBD0_TC c AND ENET_TBD0_DATA_LENGTH c = 0 \<and>
     (\<exists>k < 32. ENET_TBD0_DATA_LENGTH c = mask k \<and> MIMXRT1160_ETH2_TX_BUFFER_SIZE c < 2 ^ k) \<and>
     ENET_RBD0_E c \<noteq> 0 \<and> ENET_RBD0_W c \<noteq> 0 \<and> ENET_RBD0_L c \<noteq> 0 \<and>
     ENET_RBD0_E c AND ENET_RBD0_W c = 0 \<and>
     ENET_RBD0_E c AND mimxrt1160RxStatusMask c = 0 \<and>
     ENET_RBD0_W c AND mimxrt1160RxStatusMask c = 0 \<and>
     ENET_RBD0_L c AND mimxrt1160RxErrorMask c = 0 \<and>
     ENET_RBD0_L c AND ENET_RBD0_DATA_LENGTH c = 0 \<and>
     mimxrt1160RxErrorMask c AND ENET_RBD0_DATA_LENGTH c = 0 \<and>
     (\<exists>k < 32. ENET_RBD0_DATA_LENGTH c = mask k \<and> MIMXRT1160_ETH2_RX_BUFFER_SIZE c < 2 ^ k)"

text \<open>
  The shape of the static arrays (their dimensions are fixed by the declarations) and the
  range of the two indices.
\<close>

definition samv71_state_ok :: "samv71_config \<Rightarrow> samv71_state \<Rightarrow> bool" where
  "samv71_state_ok c s \<longleftrightarrow>
     length (samv71_txBuffer s) = SAMV71_ETH_TX_BUFFER_COUNT c \<and>
     list_all (\<lambda>b. length b = SAMV71_ETH_TX_BUFFER_SIZE c) (samv71_txBuffer s) \<and>
     length (samv71_rxBuffer s) = SAMV71_ETH_RX_BUFFER_COUNT c \<and>
     list_all (\<lambda>b. length b = SAMV71_ETH_RX_BUFFER_SIZE c) (samv71_rxBuffer s) \<and>
     length (samv71_txBufferDesc s) = SAMV71_ETH_TX_BUFFER_COUNT c \<and>
     length (samv71_rxBufferDesc s) = SAMV71_ETH_RX_BUFFER_COUNT c \<and>
     length (samv71_dummyTxBufferDesc s) = SAMV71_ETH_DUMMY_BUFFER_COUNT c \<and>
     length (samv71_dummyRxBufferDesc s) = SAMV71_ETH_DUMMY_BUFFER_COUNT c \<and>
     samv71_txBufferIndex s < SAMV71_ETH_TX_BUFFER_COUNT c \<and>
     samv71_rxBufferIndex s < SAMV71_ETH_RX_BUFFER_COUNT c \<and>
     length (samv71_sendTemp s) = SAMV71_ETH_TX_BUFFER_SIZE c \<and>
     length (samv71_receiveTemp s) = ETH_MAX_FRAME_SIZE c"

definition mimxrt1160_state_ok :: "mimxrt1160_config \<Rightarrow> mimxrt1160_state \<Rightarrow> bool" where
  "mimxrt1160_state_ok c s \<longleftrightarrow>
     length (mimxrt1160_txBuffer s) = MIMXRT1160_ETH2_TX_BUFFER_COUNT c \<and>
     list_all (\<lambda>b. length b = MIMXRT1160_ETH2_TX_BUFFER_SIZE c) (mimxrt1160_txBuffer s) \<and>
     length (mimxrt1160_rxBuffer s) = MIMXRT1160_ETH2_RX_BUFFER_COUNT c \<and>
     list_all (\<lambda>b. length b = MIMXRT1160_ETH2_RX_BUFFER_SIZE c) (mimxrt1160_rxBuffer s) \<and>
     length (mimxrt1160_txBufferDesc s) = MIMXRT1160_ETH2_TX_BUFFER_COUNT c \<and>
     list_all (\<lambda>d. length d = 8) (mimxrt1160_txBufferDesc s) \<and>
     length (mimxrt1160_rxBufferDesc s) = MIMXRT1160_ETH2_RX_BUFFER_COUNT c \<and>
     list_all (\<lambda>d. length d = 8) (mimxrt1160_rxBufferDesc s) \<and>
     mimxrt1160_txBufferIndex s < MIMXRT1160_ETH2_TX_BUFFER_COUNT c \<and>
     mimxrt1160_rxBufferIndex s < MIMXRT1160_ETH2_RX_BUFFER_COUNT c \<and>
     length (mimxrt1160_sendTemp s) = MIMXRT1160_ETH2_TX_BUFFER_SIZE c \<and>
     length (mimxrt1160_receiveTemp s) = MIMXRT1160_ETH2_RX_BUFFER_SIZE c"

section \<open>Example configurations and states\<close>

text \<open>
  The flag values are those of the SAMV71 GMAC and of the i.MX RT1160 ENET descriptors;
  the rings and buffers are kept small. The blank state is the zero-initialised memory
  before the first call of the initialisation function.
\<close>

definition samv71_example_config :: samv71_config where
  "samv71_example_config =
     \<lparr>SAMV71_ETH_TX_BUFFER_COUNT = 2, SAMV71_ETH_TX_BUFFER_SIZE = 16,
      SAMV71_ETH_RX_BUFFER_COUNT = 3, SAMV71_ETH_RX_BUFFER_SIZE = 8,
      SAMV71_ETH_DUMMY_BUFFER_COUNT = 2, ETH_MAX_FRAME_SIZE = 18,
      GMAC_TX_USED = 0x80000000, GMAC_TX_WRAP = 0x40000000, GMAC_TX_LAST = 0x00008000,
      GMAC_TX_LENGTH = 0x00003FFF, GMAC_RX_ADDRESS = 0xFFFFFFFC, GMAC_RX_WRAP = 0x00000002,
      GMAC_RX_OWNERSHIP = 0x00000001, GMAC_RX_SOF = 0x00004000, GMAC_RX_EOF = 0x00008000,
      GMAC_RX_LENGTH = 0x00001FFF, GMAC_NCR_TSTART_Msk = 0x00000200,
      samv71TxBufferAddr = (\<lambda>i. 0x20400000 + 16 * word_of_nat i),
      samv71RxBufferAddr = (\<lambda>i. 0x20401000 + 8 * word_of_nat i),
      samv71DummyTxBufferAddr = (\<lambda>i. 0x20402000 + 8 * word_of_nat i),
      samv71DummyRxBufferAddr = (\<lambda>i. 0x20403000 + 8 * word_of_nat i)\<rparr>"

definition samv71_blank_state :: "samv71_config \<Rightarrow> samv71_state" where
  "samv71_blank_state c =
     \<lparr>samv71_txBuffer =
        replicate (SAMV71_ETH_TX_BUFFER_COUNT c) (replicate (SAMV71_ETH_TX_BUFFER_SIZE c) 0),
      samv71_rxBuffer =
        replicate (SAMV71_ETH_RX_BUFFER_COUNT c) (replicate (SAMV71_ETH_RX_BUFFER_SIZE c) 0),
      samv71_txBufferDesc = replicate (SAMV71_ETH_TX_BUFFER_COUNT c) \<lparr>address = 0, status = 0\<rparr>,
      samv71_rxBufferDesc = replicate (SAMV71_ETH_RX_BUFFER_COUNT c) \<lparr>address = 0, status = 0\<rparr>,
      samv71_dummyTxBufferDesc =
        replicate (SAMV71_ETH_DUMMY_BUFFER_COUNT c) \<lparr>address = 0, status = 0\<rparr>,
      samv71_dummyRxBufferDesc =
        replicate (SAMV71_ETH_DUMMY_BUFFER_COUNT c) \<lparr>address = 0, status = 0\<rparr>,
      samv71_txBufferIndex = 0, samv71_rxBufferIndex = 0,
      samv71_sendTemp = replicate (SAMV71_ETH_TX_BUFFER_SIZE c) 0,
      samv71_receiveTemp = replicate (ETH_MAX_FRAME_SIZE c) 0,
      samv71_GMAC_NCR = 0, samv71_nicTxEvent = False, samv71_processed = []\<rparr>"

definition mimxrt1160_example_config :: mimxrt1160_config where
  "mimxrt1160_example_config =
     \<lparr>MIMXRT1160_ETH2_TX_BUFFER_COUNT = 2, MIMXRT1160_ETH2_TX_BUFFER_SIZE = 16,
      MIMXRT1160_ETH2_RX_BUFFER_COUNT = 2, MIMXRT1160_ETH2_RX_BUFFER_SIZE = 16,
      ENET_TBD0_R = 0x80000000, ENET_TBD0_W = 0x20000000, ENET_TBD0_L = 0x08000000,
      ENET_TBD0_TC = 0x04000000, ENET_TBD0_DATA_LENGTH = 0x0000FFFF, ENET_TBD2_INT = 0x40000000,
      ENET_RBD0_E = 0x80000000, ENET_RBD0_W = 0x20000000, ENET_RBD0_L = 0x08000000,
      ENET_RBD0_LG = 0x00200000, ENET_RBD0_NO = 0x00100000, ENET_RBD0_CR = 0x00040000,
      ENET_RBD0_OV = 0x00020000, ENET_RBD0_TR = 0x00010000, ENET_RBD0_DATA_LENGTH = 0x0000FFFF,
      ENET_RBD2_INT = 0x00800000, ENET_TDAR_TDAR_MASK = 0x01000000,
      ENET_RDAR_RDAR_MASK = 0x01000000,
      mimxrt1160TxBufferAddr = (\<lambda>i. 0x20240000 + 16 * word_of_nat i),
      mimxrt1160RxBufferAddr = (\<lambda>i. 0x20241000 + 16 * word_of_nat i)\<rparr>"

definition mimxrt1160_blank_state :: "mimxrt1160_config \<Rightarrow> mimxrt1160_state" where
  "mimxrt1160_blank_state c =
     \<lparr>mimxrt1160_txBuffer =
        replicate (MIMXRT1160_ETH2_TX_BUFFER_COUNT c) (replicate (MIMXRT1160_ETH2_TX_BUFFER_SIZE c) 0),
      mimxrt1160_rxBuffer =
        replicate (MIMXRT1160_ETH2_RX_BUFFER_COUNT c) (replicate (MIMXRT1160_ETH2_RX_BUFFER_SIZE c) 0),
      mimxrt1160_txBufferDesc = replicate (MIMXRT1160_ETH2_TX_BUFFER_COUNT c) (replicate 8 0),
      mimxrt1160_rxBufferDesc = replicate (MIMXRT1160_ETH2_RX_BUFFER_COUNT c) (replicate 8 0),
      mimxrt1160_txBufferIndex = 0, mimxrt1160_rxBufferIndex = 0,
      mimxrt1160_sendTemp = replicate (MIMXRT1160_ETH2_TX_BUFFER_SIZE c) 0,
      mimxrt1160_receiveTemp = replicate (MIMXRT1160_ETH2_RX_BUFFER_SIZE c) 0,
      mimxrt1160_ENET_TDAR = 0, mimxrt1160_ENET_RDAR = 0, mimxrt1160_ENET_MRBR = 0,
      mimxrt1160_nicTxEvent = False, mimxrt1160_processed = []\<rparr>"

text \<open>
  A receive ring of the i.MX RT1160 example in which the hardware has handed back entry 0
  with the last-buffer flag, the CRC error flag and a length of 16; entry 1 is still owned
  by the hardware.
\<close>

definition mimxrt1160_example_crc_error_state :: mimxrt1160_state where
  "mimxrt1160_example_crc_error_state =
     (mimxrt1160_blank_state mimxrt1160_example_config)
       \<lparr>mimxrt1160_rxBufferDesc :=
          [[0x08040010, 0x20241000, 0x00800000, 0, 0, 0, 0, 0],
           [0xA0000000, 0x20241010, 0x00800000, 0, 0, 0, 0, 0]]\<rparr>"

section \<open>Address filters\<close>

text \<open>
  A MAC address is its six bytes \<^verbatim>\<open>b[0..5]\<close>; \<^verbatim>\<open>w[i]\<close> is the 16-bit view of the same union on a
  little-endian core. An entry of the filter table of the interface has an address and a
  reference count. The macro \<^verbatim>\<open>macIsMulticastAddr\<close> and the constant \<^verbatim>\<open>MAC_UNSPECIFIED_ADDR\<close>
  belong to the stack and are parameters of the two filter functions.
\<close>

type_synonym MacAddr = "uint8_t list"

record MacFilterEntry =
  addr :: MacAddr
  refCount :: nat

record NetInterface =
  macAddr :: MacAddr
  macAddrFilter :: "MacFilterEntry list"

definition macAddrW :: "MacAddr \<Rightarrow> nat \<Rightarrow> uint32_t" where
  "macAddrW a i = ucast (a ! (2 * i)) OR push_bit 8 (ucast (a ! (2 * i + 1)))"

text \<open>\<^verbatim>\<open>hashTable[k / 32] |= (1 << (k % 32))\<close> on the two words of a hash table.\<close>

definition setHashBit :: "uint32_t list \<Rightarrow> nat \<Rightarrow> uint32_t list" where
  "setHashBit hashTable k = hashTable[k div 32 := hashTable ! (k div 32) OR push_bit (k mod 32) 1]"

text \<open>Whether bucket \<open>k\<close> of the 64-bit bitmap held in two words is set.\<close>

definition hashBit :: "uint32_t list \<Rightarrow> nat \<Rightarrow> bool" where
  "hashBit hashTable k = bit (hashTable ! (k div 32)) (k mod 32)"

subsection \<open>\<^verbatim>\<open>samv71EthUpdateMacAddrFilter\<close>\<close>

text \<open>
  The hash function that the source applies to an address (the same statements in both
  branches): the bytes are promoted to a machine word before they are shifted.
\<close>

definition samv71MacHash :: "MacAddr \<Rightarrow> nat" where
  "samv71MacHash p =
     (let b = (\<lambda>i. ucast (p ! i) :: uint32_t);
          k = drop_bit 6 (b 0) XOR b 0;
          k = k XOR (drop_bit 4 (b 1) XOR push_bit 2 (b 1));
          k = k XOR (drop_bit 2 (b 2) XOR push_bit 4 (b 2));
          k = k XOR (drop_bit 6 (b 3) XOR b 3);
          k = k XOR (drop_bit 4 (b 4) XOR push_bit 2 (b 4));
          k = k XOR (drop_bit 2 (b 5) XOR push_bit 4 (b 5));
          k = k AND 0x3F
      in unat k)"

text \<open>
  One round of the loop over the filter table. The loop carries \<open>j\<close>, the number of unicast
  addresses seen, the three addresses for the perfect filter and the hash table.
\<close>

definition samv71FilterStep ::
  "(MacAddr \<Rightarrow> bool) \<Rightarrow> MacFilterEntry \<Rightarrow> nat \<times> MacAddr list \<times> uint32_t list \<Rightarrow>
     nat \<times> MacAddr list \<times> uint32_t list" where
  "samv71FilterStep macIsMulticastAddr entry x =
     (case x of (j, unicastMacAddr, hashTable) \<Rightarrow>
        if refCount entry > 0 then
          if macIsMulticastAddr (addr entry) then
            (j, unicastMacAddr, setHashBit hashTable (samv71MacHash (addr entry)))
          else if j < 3 then
            (j + 1, unicastMacAddr[j := addr entry], hashTable)
          else
            (j + 1, unicastMacAddr, setHashBit hashTable (samv71MacHash (addr entry)))
        else (j, unicastMacAddr, hashTable))"

definition samv71FilterLoop ::
  "(MacAddr \<Rightarrow> bool) \<Rightarrow> MacAddr \<Rightarrow> MacFilterEntry list \<Rightarrow> nat \<times> MacAddr list \<times> uint32_t list" where
  "samv71FilterLoop macIsMulticastAddr MAC_UNSPECIFIED_ADDR entries =
     fold (samv71FilterStep macIsMulticastAddr) entries
       (0, [MAC_UNSPECIFIED_ADDR, MAC_UNSPECIFIED_ADDR, MAC_UNSPECIFIED_ADDR], [0, 0])"

text \<open>The registers of the GMAC that the filter function writes.\<close>

datatype gmac_filter_reg = GMAC_SAB nat | GMAC_SAT nat | GMAC_NCFGR | GMAC_HRB | GMAC_HRT

definition samv71WriteUnicastFilter ::
  "nat \<Rightarrow> nat \<Rightarrow> MacAddr list \<Rightarrow> (gmac_filter_reg \<Rightarrow> uint32_t) \<Rightarrow> gmac_filter_reg \<Rightarrow> uint32_t" where
  "samv71WriteUnicastFilter j n unicastMacAddr regs =
     (if j \<ge> n then
        regs(GMAC_SAB n := macAddrW (unicastMacAddr ! (n - 1)) 0 OR
                           push_bit 16 (macAddrW (unicastMacAddr ! (n - 1)) 1),
             GMAC_SAT n := macAddrW (unicastMacAddr ! (n - 1)) 2)
      else regs(GMAC_SAB n := 0))"

definition samv71EthUpdateMacAddrFilter ::
  "(MacAddr \<Rightarrow> bool) \<Rightarrow> MacAddr \<Rightarrow> uint32_t \<Rightarrow> NetInterface \<Rightarrow> (gmac_filter_reg \<Rightarrow> uint32_t) \<Rightarrow>
     error_t \<times> (gmac_filter_reg \<Rightarrow> uint32_t)" where
  "samv71EthUpdateMacAddrFilter macIsMulticastAddr MAC_UNSPECIFIED_ADDR GMAC_NCFGR_UNIHEN_Msk
       interface regs =
     (let regs = regs(GMAC_SAB 0 := macAddrW (macAddr interface) 0 OR
                                    push_bit 16 (macAddrW (macAddr interface) 1),
                      GMAC_SAT 0 := macAddrW (macAddr interface) 2)
      in case samv71FilterLoop macIsMulticastAddr MAC_UNSPECIFIED_ADDR (macAddrFilter interface) of
           (j, unicastMacAddr, hashTable) \<Rightarrow>
             let regs = samv71WriteUnicastFilter j 1 unicastMacAddr regs;
                 regs = samv71WriteUnicastFilter j 2 unicastMacAddr regs;
                 regs = samv71WriteUnicastFilter j 3 unicastMacAddr regs;
                 regs = (if j \<ge> 4 then regs(GMAC_NCFGR := regs GMAC_NCFGR OR GMAC_NCFGR_UNIHEN_Msk)
                         else regs(GMAC_NCFGR := regs GMAC_NCFGR AND NOT GMAC_NCFGR_UNIHEN_Msk));
                 regs = regs(GMAC_HRB := hashTable ! 0, GMAC_HRT := hashTable ! 1)
             in (NO_ERROR, regs))"

subsection \<open>\<^verbatim>\<open>mimxrt1160Eth2CalcCrc\<close> and \<^verbatim>\<open>mimxrt1160Eth2UpdateMacAddrFilter\<close>\<close>

text \<open>The inner loop of the CRC: \<open>j\<close> more bits of the register are processed.\<close>

fun mimxrt1160CrcBitLoop :: "nat \<Rightarrow> uint32_t \<Rightarrow> uint32_t" where
  "mimxrt1160CrcBitLoop 0 crc = crc"
| "mimxrt1160CrcBitLoop (Suc j) crc =
     mimxrt1160CrcBitLoop j
       (if crc AND 0x01 \<noteq> 0 then drop_bit 1 crc XOR 0xEDB88320 else drop_bit 1 crc)"

definition mimxrt1160Eth2CalcCrc :: "uint8_t list \<Rightarrow> nat \<Rightarrow> uint32_t" where
  "mimxrt1160Eth2CalcCrc p len =
     fold (\<lambda>i crc. mimxrt1160CrcBitLoop 8 (crc XOR ucast (p ! i))) [0..<len] 0xFFFFFFFF"

text \<open>
  The index into the hash table: \<^verbatim>\<open>k = (crc >> 26) & 0x3F\<close> for the CRC over the
  \<^verbatim>\<open>sizeof(MacAddr)\<close> = 6 bytes of the address.
\<close>

definition mimxrt1160MacHash :: "MacAddr \<Rightarrow> nat" where
  "mimxrt1160MacHash a = unat (drop_bit 26 (mimxrt1160Eth2CalcCrc a 6) AND 0x3F)"

text \<open>
  One round of the loop over the filter table; it carries the unicast and the multicast
  hash table.
\<close>

definition mimxrt1160FilterStep ::
  "(MacAddr \<Rightarrow> bool) \<Rightarrow> MacFilterEntry \<Rightarrow> uint32_t list \<times> uint32_t list \<Rightarrow>
     uint32_t list \<times> uint32_t list" where
  "mimxrt1160FilterStep macIsMulticastAddr entry x =
     (case x of (unicastHashTable, multicastHashTable) \<Rightarrow>
        if refCount entry > 0 then
          let k = mimxrt1160MacHash (addr entry)
          in if macIsMulticastAddr (addr entry) then
               (unicastHashTable, setHashBit multicastHashTable k)
             else (setHashBit unicastHashTable k, multicastHashTable)
        else (unicastHashTable, multicastHashTable))"

definition mimxrt1160FilterLoop ::
  "(MacAddr \<Rightarrow> bool) \<Rightarrow> MacFilterEntry list \<Rightarrow> uint32_t list \<times> uint32_t list" where
  "mimxrt1160FilterLoop macIsMulticastAddr entries =
     fold (mimxrt1160FilterStep macIsMulticastAddr) entries ([0, 0], [0, 0])"

text \<open>
  The registers of the ENET that the filter function writes. The macros that place a value
  in a register field (\<^verbatim>\<open>ENET_PAUR_PADDR2\<close>, \<^verbatim>\<open>ENET_PAUR_TYPE\<close>, \<^verbatim>\<open>ENET_PALR_PADDR1\<close>) are
  parameters.
\<close>

datatype enet_filter_reg = ENET_PAUR | ENET_PALR | ENET_IALR | ENET_IAUR | ENET_GALR | ENET_GAUR

definition mimxrt1160Eth2UpdateMacAddrFilter ::
  "(MacAddr \<Rightarrow> bool) \<Rightarrow> (uint32_t \<Rightarrow> uint32_t) \<Rightarrow> (uint32_t \<Rightarrow> uint32_t) \<Rightarrow> (uint32_t \<Rightarrow> uint32_t) \<Rightarrow>
     NetInterface \<Rightarrow> (enet_filter_reg \<Rightarrow> uint32_t) \<Rightarrow> error_t \<times> (enet_filter_reg \<Rightarrow> uint32_t)" where
  "mimxrt1160Eth2UpdateMacAddrFilter macIsMulticastAddr ENET_PAUR_PADDR2 ENET_PAUR_TYPE
       ENET_PALR_PADDR1 interface regs =
     (let b = (\<lambda>i. ucast (macAddr interface ! i) :: uint32_t);
          v = b 5;
          v = v OR push_bit 8 (b 4);
          regs = regs(ENET_PAUR := ENET_PAUR_PADDR2 v OR ENET_PAUR_TYPE 0x8808);
          v = b 3;
          v = v OR push_bit 8 (b 2);
          v = v OR push_bit 16 (b 1);
          v = v OR push_bit 24 (b 0);
          regs = regs(ENET_PALR := ENET_PALR_PADDR1 v)
      in case mimxrt1160FilterLoop macIsMulticastAddr (macAddrFilter interface) of
           (unicastHashTable, multicastHashTable) \<Rightarrow>
             (NO_ERROR,
              regs(ENET_IALR := unicastHashTable ! 0, ENET_IAUR := unicastHashTable ! 1,
                   ENET_GALR := multicastHashTable ! 0, ENET_GAUR := multicastHashTable ! 1)))"

subsection \<open>The CRC the specification describes\<close>





section \<open>Management bus\<close>

text \<open>
  The MDIO peripheral as the driver sees it. The status register (\<^verbatim>\<open>GMAC_NSR\<close>, \<^verbatim>\<open>ENET_EIR\<close>)
  is volatile: \<open>mdio_status hw t\<close> is what its read number \<open>t\<close> returns, and \<open>mdio_frame hw t\<close> is
  what the frame register (\<^verbatim>\<open>GMAC_MAN\<close>, \<^verbatim>\<open>ENET_MMFR\<close>) holds when it is read after \<open>t\<close> status
  reads. The state keeps the number of status reads made and the register writes in order.
  The opcodes and the field macros come from headers and are parameters.
\<close>

datatype mdio_reg = MDIO_GMAC_MAN | MDIO_ENET_EIR | MDIO_ENET_MMFR

record mdio_hw =
  mdio_status :: "nat \<Rightarrow> uint32_t"
  mdio_frame :: "nat \<Rightarrow> uint32_t"
  mdio_time :: nat
  mdio_written :: "(mdio_reg \<times> uint32_t) list"

text \<open>
  The busy-wait \<^verbatim>\<open>while((status & mask) == 0) { }\<close>. It has no bound; the result is the
  number of status reads made when the loop ends, and \<open>None\<close> when it never ends.
\<close>

partial_function (option) mdioWait :: "(nat \<Rightarrow> uint32_t) \<Rightarrow> uint32_t \<Rightarrow> nat \<Rightarrow> nat option" where
  "mdioWait st m t = (if st t AND m = 0 then mdioWait st m (t + 1) else Some (t + 1))"

record smi_config =
  SMI_OPCODE_WRITE :: uint8_t
  SMI_OPCODE_READ :: uint8_t

record samv71_mdio_config =
  GMAC_MAN_CLTTO_Msk :: uint32_t
  GMAC_MAN_OP :: "uint32_t \<Rightarrow> uint32_t"
  GMAC_MAN_WTN :: "uint32_t \<Rightarrow> uint32_t"
  GMAC_MAN_PHYA :: "uint32_t \<Rightarrow> uint32_t"
  GMAC_MAN_REGA :: "uint32_t \<Rightarrow> uint32_t"
  GMAC_MAN_DATA :: "uint32_t \<Rightarrow> uint32_t"
  GMAC_MAN_DATA_Msk :: uint32_t
  GMAC_NSR_IDLE_Msk :: uint32_t

record mimxrt1160_mdio_config =
  ENET_MMFR_ST :: "uint32_t \<Rightarrow> uint32_t"
  ENET_MMFR_OP :: "uint32_t \<Rightarrow> uint32_t"
  ENET_MMFR_TA :: "uint32_t \<Rightarrow> uint32_t"
  ENET_MMFR_PA :: "uint32_t \<Rightarrow> uint32_t"
  ENET_MMFR_RA :: "uint32_t \<Rightarrow> uint32_t"
  ENET_MMFR_DATA :: "uint32_t \<Rightarrow> uint32_t"
  ENET_MMFR_DATA_MASK :: uint32_t
  ENET_EIR_MII_MASK :: uint32_t

definition samv71EthWritePhyReg ::
  "smi_config \<Rightarrow> samv71_mdio_config \<Rightarrow> mdio_hw \<Rightarrow> uint8_t \<Rightarrow> uint8_t \<Rightarrow> uint8_t \<Rightarrow> uint16_t \<Rightarrow>
     mdio_hw option" where
  "samv71EthWritePhyReg smi c hw opcode phyAddr regAddr data =
     (if opcode = SMI_OPCODE_WRITE smi then
        let temp = GMAC_MAN_CLTTO_Msk c OR GMAC_MAN_OP c 1 OR GMAC_MAN_WTN c 2;
            temp = temp OR GMAC_MAN_PHYA c (ucast phyAddr);
            temp = temp OR GMAC_MAN_REGA c (ucast regAddr);
            temp = temp OR GMAC_MAN_DATA c (ucast data);
            hw1 = hw\<lparr>mdio_written := mdio_written hw @ [(MDIO_GMAC_MAN, temp)]\<rparr>
        in case mdioWait (mdio_status hw1) (GMAC_NSR_IDLE_Msk c) (mdio_time hw1) of
             None \<Rightarrow> None
           | Some t \<Rightarrow> Some (hw1\<lparr>mdio_time := t\<rparr>)
      else Some hw)"

definition samv71EthReadPhyReg ::
  "smi_config \<Rightarrow> samv71_mdio_config \<Rightarrow> mdio_hw \<Rightarrow> uint8_t \<Rightarrow> uint8_t \<Rightarrow> uint8_t \<Rightarrow>
     (uint16_t \<times> mdio_hw) option" where
  "samv71EthReadPhyReg smi c hw opcode phyAddr regAddr =
     (if opcode = SMI_OPCODE_READ smi then
        let temp = GMAC_MAN_CLTTO_Msk c OR GMAC_MAN_OP c 2 OR GMAC_MAN_WTN c 2;
            temp = temp OR GMAC_MAN_PHYA c (ucast phyAddr);
            temp = temp OR GMAC_MAN_REGA c (ucast regAddr);
            hw1 = hw\<lparr>mdio_written := mdio_written hw @ [(MDIO_GMAC_MAN, temp)]\<rparr>
        in case mdioWait (mdio_status hw1) (GMAC_NSR_IDLE_Msk c) (mdio_time hw1) of
             None \<Rightarrow> None
           | Some t \<Rightarrow> Some (ucast (mdio_frame hw1 t AND GMAC_MAN_DATA_Msk c), hw1\<lparr>mdio_time := t\<rparr>)
      else Some (0, hw))"

definition mimxrt1160Eth2WritePhyReg ::
  "smi_config \<Rightarrow> mimxrt1160_mdio_config \<Rightarrow> mdio_hw \<Rightarrow> uint8_t \<Rightarrow> uint8_t \<Rightarrow> uint8_t \<Rightarrow> uint16_t \<Rightarrow>
     mdio_hw option" where
  "mimxrt1160Eth2WritePhyReg smi c hw opcode phyAddr regAddr data =
     (if opcode = SMI_OPCODE_WRITE smi then
        let temp = ENET_MMFR_ST c 1 OR ENET_MMFR_OP c 1 OR ENET_MMFR_TA c 2;
            temp = temp OR ENET_MMFR_PA c (ucast phyAddr);
            temp = temp OR ENET_MMFR_RA c (ucast regAddr);
            temp = temp OR ENET_MMFR_DATA c (ucast data);
            hw1 = hw\<lparr>mdio_written := mdio_written hw @ [(MDIO_ENET_EIR, ENET_EIR_MII_MASK c)]\<rparr>;
            hw2 = hw1\<lparr>mdio_written := mdio_written hw1 @ [(MDIO_ENET_MMFR, temp)]\<rparr>
        in case mdioWait (mdio_status hw2) (ENET_EIR_MII_MASK c) (mdio_time hw2) of
             None \<Rightarrow> None
           | Some t \<Rightarrow> Some (hw2\<lparr>mdio_time := t\<rparr>)
      else Some hw)"

definition mimxrt1160Eth2ReadPhyReg ::
  "smi_config \<Rightarrow> mimxrt1160_mdio_config \<Rightarrow> mdio_hw \<Rightarrow> uint8_t \<Rightarrow> uint8_t \<Rightarrow> uint8_t \<Rightarrow>
     (uint16_t \<times> mdio_hw) option" where
  "mimxrt1160Eth2ReadPhyReg smi c hw opcode phyAddr regAddr =
     (if opcode = SMI_OPCODE_READ smi then
        let temp = ENET_MMFR_ST c 1 OR ENET_MMFR_OP c 2 OR ENET_MMFR_TA c 2;
            temp = temp OR ENET_MMFR_PA c (ucast phyAddr);
            temp = temp OR ENET_MMFR_RA c (ucast regAddr);
            hw1 = hw\<lparr>mdio_written := mdio_written hw @ [(MDIO_ENET_EIR, ENET_EIR_MII_MASK c)]\<rparr>;
            hw2 = hw1\<lparr>mdio_written := mdio_written hw1 @ [(MDIO_ENET_MMFR, temp)]\<rparr>
        in case mdioWait (mdio_status hw2) (ENET_EIR_MII_MASK c) (mdio_time hw2) of
             None \<Rightarrow> None
           | Some t \<Rightarrow> Some (ucast (mdio_frame hw2 t AND ENET_MMFR_DATA_MASK c), hw2\<lparr>mdio_time := t\<rparr>)
      else Some (0, hw))"

text \<open>
  Example values for the management bus: the Clause 22 opcodes of the stack, the field
  macros of the two frame registers, and a peripheral whose status register reports
  completion from the fourth read on.
\<close>

definition smi_example_config :: smi_config where
  "smi_example_config = \<lparr>SMI_OPCODE_WRITE = 1, SMI_OPCODE_READ = 2\<rparr>"

definition samv71_mdio_example_config :: samv71_mdio_config where
  "samv71_mdio_example_config =
     \<lparr>GMAC_MAN_CLTTO_Msk = 0x40000000,
      GMAC_MAN_OP = (\<lambda>v. push_bit 28 v AND 0x30000000),
      GMAC_MAN_WTN = (\<lambda>v. push_bit 16 v AND 0x00030000),
      GMAC_MAN_PHYA = (\<lambda>v. push_bit 23 v AND 0x0F800000),
      GMAC_MAN_REGA = (\<lambda>v. push_bit 18 v AND 0x007C0000),
      GMAC_MAN_DATA = (\<lambda>v. v AND 0x0000FFFF),
      GMAC_MAN_DATA_Msk = 0x0000FFFF,
      GMAC_NSR_IDLE_Msk = 0x00000004\<rparr>"

definition mimxrt1160_mdio_example_config :: mimxrt1160_mdio_config where
  "mimxrt1160_mdio_example_config =
     \<lparr>ENET_MMFR_ST = (\<lambda>v. push_bit 30 v AND 0xC0000000),
      ENET_MMFR_OP = (\<lambda>v. push_bit 28 v AND 0x30000000),
      ENET_MMFR_TA = (\<lambda>v. push_bit 16 v AND 0x00030000),
      ENET_MMFR_PA = (\<lambda>v. push_bit 23 v AND 0x0F800000),
      ENET_MMFR_RA = (\<lambda>v. push_bit 18 v AND 0x007C0000),
      ENET_MMFR_DATA = (\<lambda>v. v AND 0x0000FFFF),
      ENET_MMFR_DATA_MASK = 0x0000FFFF,
      ENET_EIR_MII_MASK = 0x00800000\<rparr>"

definition mdio_example_hw :: mdio_hw where
  "mdio_example_hw =
     \<lparr>mdio_status = (\<lambda>t. if t < 3 then 0 else 0x00800004),
      mdio_frame = (\<lambda>t. 0x60021234),
      mdio_time = 0,
      mdio_written = []\<rparr>"

text \<open>
  The addresses of the active entries (reference count above zero) of a filter table, in
  table order: the multicast ones and the unicast ones.
\<close>

definition activeMulticast :: "(MacAddr \<Rightarrow> bool) \<Rightarrow> MacFilterEntry list \<Rightarrow> MacAddr list" where
  "activeMulticast macIsMulticastAddr entries =
     map addr (filter (\<lambda>e. refCount e > 0 \<and> macIsMulticastAddr (addr e)) entries)"

definition activeUnicast :: "(MacAddr \<Rightarrow> bool) \<Rightarrow> MacFilterEntry list \<Rightarrow> MacAddr list" where
  "activeUnicast macIsMulticastAddr entries =
     map addr (filter (\<lambda>e. refCount e > 0 \<and> \<not> macIsMulticastAddr (addr e)) entries)"

text \<open>
  Example values for the filters: the multicast test of the stack (lowest bit of the first
  byte), the unspecified address, and a table with one active unicast entry.
\<close>

definition example_macIsMulticastAddr :: "MacAddr \<Rightarrow> bool" where
  "example_macIsMulticastAddr a = (a ! 0 AND 0x01 \<noteq> 0)"

definition example_MAC_UNSPECIFIED_ADDR :: MacAddr where
  "example_MAC_UNSPECIFIED_ADDR = [0, 0, 0, 0, 0, 0]"

definition example_unicast_table :: "MacFilterEntry list" where
  "example_unicast_table = [\<lparr>addr = [0x00, 0x11, 0x22, 0x33, 0x44, 0x55], refCount = 1\<rparr>]"

definition example_interface :: NetInterface where
  "example_interface =
     \<lparr>macAddr = [0x02, 0x00, 0x00, 0x00, 0x00, 0x01], macAddrFilter = example_unicast_table\<rparr>"

section \<open>The receive ring as the scan sees it\<close>

text \<open>
  The entries of the SAMV71 receive ring in the order of the scan: \<open>samv71RxSlot c s i\<close> is
  the entry \<open>i\<close> steps after the receive index, the window is the whole ring from the
  index on, and the scanned run is its longest prefix of entries that the hardware has
  released to the software. A complete run is a start-of-frame entry followed (or
  accompanied) by an end-of-frame entry inside the scanned run. The pending start is the
  position of the last start-of-frame entry of a run, or the length of the run when it has
  none.
\<close>

definition samv71RxSlot :: "samv71_config \<Rightarrow> samv71_state \<Rightarrow> nat \<Rightarrow> nat" where
  "samv71RxSlot c s i = (samv71_rxBufferIndex s + i) mod SAMV71_ETH_RX_BUFFER_COUNT c"

definition samv71RxWindow :: "samv71_config \<Rightarrow> samv71_state \<Rightarrow> Samv71RxBufferDesc list" where
  "samv71RxWindow c s =
     map (\<lambda>i. samv71_rxBufferDesc s ! samv71RxSlot c s i) [0..<SAMV71_ETH_RX_BUFFER_COUNT c]"

definition samv71RxScanned :: "samv71_config \<Rightarrow> samv71_state \<Rightarrow> Samv71RxBufferDesc list" where
  "samv71RxScanned c s = takeWhile (\<lambda>d. samv71RxOwnership c d = software) (samv71RxWindow c s)"

definition samv71RxSof :: "samv71_config \<Rightarrow> Samv71RxBufferDesc \<Rightarrow> bool" where
  "samv71RxSof c d = (status d AND GMAC_RX_SOF c \<noteq> 0)"

definition samv71RxEof :: "samv71_config \<Rightarrow> Samv71RxBufferDesc \<Rightarrow> bool" where
  "samv71RxEof c d = (status d AND GMAC_RX_EOF c \<noteq> 0)"

definition samv71CompleteRun :: "samv71_config \<Rightarrow> Samv71RxBufferDesc list \<Rightarrow> bool" where
  "samv71CompleteRun c ds =
     (\<exists>a b. a \<le> b \<and> b < length ds \<and> samv71RxSof c (ds ! a) \<and> samv71RxEof c (ds ! b))"

fun samv71PendingStart :: "samv71_config \<Rightarrow> Samv71RxBufferDesc list \<Rightarrow> nat" where
  "samv71PendingStart c [] = 0"
| "samv71PendingStart c (d # ds) =
     (if list_ex (samv71RxSof c) ds then 1 + samv71PendingStart c ds
      else if samv71RxSof c d then 0
      else 1 + length ds)"

text \<open>A receive descriptor given back to the hardware: the ownership bit is cleared.\<close>

definition samv71RxRelease :: "samv71_config \<Rightarrow> Samv71RxBufferDesc \<Rightarrow> Samv71RxBufferDesc" where
  "samv71RxRelease c d = d\<lparr>address := address d AND NOT (GMAC_RX_OWNERSHIP c)\<rparr>"



text \<open>
  Two auxiliary functions for the proofs: the scan loop on the list of the entries still to
  visit, and the part of a round of the second loop that frees the entry and moves the
  index.
\<close>

fun samv71ScanList ::
  "samv71_config \<Rightarrow> Samv71RxBufferDesc list \<Rightarrow> nat \<Rightarrow> nat \<Rightarrow> nat \<times> nat \<times> nat \<times> nat" where
  "samv71ScanList c [] i sofIndex = (i, sofIndex, UINT_MAX, 0)"
| "samv71ScanList c (d # ds) i sofIndex =
     (if address d AND GMAC_RX_OWNERSHIP c = 0 then (i, sofIndex, UINT_MAX, 0)
      else
        let sofIndex = (if status d AND GMAC_RX_SOF c \<noteq> 0 then i else sofIndex)
        in if status d AND GMAC_RX_EOF c \<noteq> 0 \<and> sofIndex \<noteq> UINT_MAX then
             (i, sofIndex, i, min (unat (status d AND GMAC_RX_LENGTH c)) (ETH_MAX_FRAME_SIZE c))
           else samv71ScanList c ds (i + 1) sofIndex)"

definition samv71ReleaseStep :: "samv71_config \<Rightarrow> samv71_state \<Rightarrow> samv71_state" where
  "samv71ReleaseStep c s =
     (let r = samv71_rxBufferIndex s
      in s\<lparr>samv71_rxBufferDesc :=
             (samv71_rxBufferDesc s)[r := samv71RxRelease c (samv71_rxBufferDesc s ! r)],
           samv71_rxBufferIndex := (if r + 1 \<ge> SAMV71_ETH_RX_BUFFER_COUNT c then 0 else r + 1)\<rparr>)"

text \<open>
  A receive ring of the SAMV71 example with a frame in progress: the hardware has released
  entry 0, a stray fragment without start of frame, and entry 1, which starts a frame that
  has no end yet; entry 2 is still owned by the hardware.
\<close>

definition samv71_example_fragment_state :: samv71_state where
  "samv71_example_fragment_state =
     (samv71_blank_state samv71_example_config)
       \<lparr>samv71_rxBufferDesc :=
          [\<lparr>address = 0x20401001, status = 0x00000000\<rparr>,
           \<lparr>address = 0x20401009, status = 0x00004000\<rparr>,
           \<lparr>address = 0x20401012, status = 0x00000000\<rparr>]\<rparr>"


section \<open>A frame sent and received again\<close>

text \<open>
  The hardware between the transmit ring and the receive ring is not part of the drivers.
  For the round trip of a frame a loop-back engine stands for it. It completes the transmit
  descriptor \<open>i\<close> (the descriptor goes back to the software), reads the length the
  descriptor declares, copies that many bytes of the transmit buffer \<open>i\<close> to the receive
  buffer at the receive index (no more than the receive buffer holds), and hands the receive
  descriptor at the receive index to the software as a complete frame of the same declared
  length: start and end of frame for the SAMV71, the last-buffer flag and no error flag for
  the i.MX RT1160. The wrap flags stay as they are.
\<close>

definition samv71LoopbackDma :: "samv71_config \<Rightarrow> nat \<Rightarrow> samv71_state \<Rightarrow> samv71_state" where
  "samv71LoopbackDma c i s =
     (let n = unat (status (samv71_txBufferDesc s ! i) AND GMAC_TX_LENGTH c);
          r = samv71_rxBufferIndex s
      in s\<lparr>samv71_txBufferDesc :=
             (samv71_txBufferDesc s)[i := (samv71_txBufferDesc s ! i)
                \<lparr>status := status (samv71_txBufferDesc s ! i) OR GMAC_TX_USED c\<rparr>],
           samv71_rxBuffer :=
             (samv71_rxBuffer s)[r :=
                osMemcpy (samv71_rxBuffer s ! r) (samv71_txBuffer s ! i)
                  (min n (length (samv71_rxBuffer s ! r)))],
           samv71_rxBufferDesc :=
             (samv71_rxBufferDesc s)[r :=
                \<lparr>address = address (samv71_rxBufferDesc s ! r) OR GMAC_RX_OWNERSHIP c,
                 status = GMAC_RX_SOF c OR GMAC_RX_EOF c OR
                          (word_of_nat n AND GMAC_RX_LENGTH c)\<rparr>]\<rparr>)"

definition mimxrt1160LoopbackDma ::
  "mimxrt1160_config \<Rightarrow> nat \<Rightarrow> mimxrt1160_state \<Rightarrow> mimxrt1160_state" where
  "mimxrt1160LoopbackDma c i s =
     (let d = mimxrt1160_txBufferDesc s ! i;
          n = unat (d ! 0 AND ENET_TBD0_DATA_LENGTH c);
          r = mimxrt1160_rxBufferIndex s;
          e = mimxrt1160_rxBufferDesc s ! r
      in s\<lparr>mimxrt1160_txBufferDesc :=
             (mimxrt1160_txBufferDesc s)[i := d[0 := d ! 0 AND NOT (ENET_TBD0_R c)]],
           mimxrt1160_rxBuffer :=
             (mimxrt1160_rxBuffer s)[r :=
                osMemcpy (mimxrt1160_rxBuffer s ! r) (mimxrt1160_txBuffer s ! i)
                  (min n (length (mimxrt1160_rxBuffer s ! r)))],
           mimxrt1160_rxBufferDesc :=
             (mimxrt1160_rxBufferDesc s)[r :=
                e[0 := (e ! 0 AND ENET_RBD0_W c) OR ENET_RBD0_L c OR
                       (word_of_nat n AND ENET_RBD0_DATA_LENGTH c)]]\<rparr>)"

text \<open>
  The round trip: the send function, the loop-back engine on the descriptor that the send
  function has filled, the receive function. The result is the error code of the send
  function, the error code of the receive function and the final state.
\<close>

definition samv71RoundTrip ::
  "samv71_config \<Rightarrow> samv71_state \<Rightarrow> uint8_t list \<Rightarrow> nat \<Rightarrow> error_t \<times> error_t \<times> samv71_state" where
  "samv71RoundTrip c s buffer offset =
     (case samv71EthSendPacket c s buffer offset of (e1, s1) \<Rightarrow>
        case samv71EthReceivePacket c (samv71LoopbackDma c (samv71_txBufferIndex s) s1) of
          (e2, s2) \<Rightarrow> (e1, e2, s2))"

definition mimxrt1160RoundTrip ::
  "mimxrt1160_config \<Rightarrow> mimxrt1160_state \<Rightarrow> uint8_t list \<Rightarrow> nat \<Rightarrow>
   error_t \<times> error_t \<times> mimxrt1160_state" where
  "mimxrt1160RoundTrip c s buffer offset =
     (case mimxrt1160Eth2SendPacket c s buffer offset of (e1, s1) \<Rightarrow>
        case mimxrt1160Eth2ReceivePacket c (mimxrt1160LoopbackDma c (mimxrt1160_txBufferIndex s) s1) of
          (e2, s2) \<Rightarrow> (e1, e2, s2))"

text \<open>
  The i.MX RT1160 example with a receive buffer of 8 bytes, smaller than its transmit buffer
  of 16 bytes.
\<close>

definition mimxrt1160_example_small_rx_config :: mimxrt1160_config where
  "mimxrt1160_example_small_rx_config =
     mimxrt1160_example_config\<lparr>MIMXRT1160_ETH2_RX_BUFFER_SIZE := 8\<rparr>"

section \<open>Properties of the transmit path\<close>

lemma samv71_example_config_ok: "samv71_config_ok samv71_example_config"
proof -
  have "(0x3FFF :: uint32_t) = mask 14" and "(0x1FFF :: uint32_t) = mask 13"
    by (simp_all add: mask_eq_exp_minus_1)
  then show ?thesis
    unfolding samv71_config_ok_def samv71_example_config_def UINT_MAX_def
    apply simp
    apply (intro conjI)
     apply (rule exI [of _ 14], simp)
    apply (rule exI [of _ 13], simp)
    done
qed

lemma mimxrt1160_example_config_ok: "mimxrt1160_config_ok mimxrt1160_example_config"
proof -
  have "(0xFFFF :: uint32_t) = mask 16"
    by (simp add: mask_eq_exp_minus_1)
  then show ?thesis
    unfolding mimxrt1160_config_ok_def mimxrt1160_example_config_def
      mimxrt1160RxStatusMask_def mimxrt1160RxErrorMask_def
    apply simp
    apply (rule exI [of _ 16], simp)
    done
qed

text \<open>
  C2. When the descriptor at the transmit index is still owned by the hardware, sending a
  frame of valid length fails with \<^verbatim>\<open>ERROR_FAILURE\<close> (the error the specification calls
  Busy) and the state returned is the state given: descriptors, buffers and index are
  untouched. Both drivers.
\<close>

theorem send_busy_leaves_ring_unchanged:
  "(packetLength buffer offset \<le> SAMV71_ETH_TX_BUFFER_SIZE c \<and>
    samv71TxOwnership c (samv71_txBufferDesc s ! samv71_txBufferIndex s) = hardware \<longrightarrow>
      samv71EthSendPacket c s buffer offset = (ERROR_FAILURE, s)) \<and>
   (packetLength buffer offset \<le> MIMXRT1160_ETH2_TX_BUFFER_SIZE m \<and>
    mimxrt1160TxOwnership m (mimxrt1160_txBufferDesc t ! mimxrt1160_txBufferIndex t) = hardware \<longrightarrow>
      mimxrt1160Eth2SendPacket m t buffer offset = (ERROR_FAILURE, t))"
  by (simp add: samv71EthSendPacket_def mimxrt1160Eth2SendPacket_def Let_def
      samv71TxOwnership_def mimxrt1160TxOwnership_def split: if_splits)

theorem send_busy_leaves_ring_unchanged_witness:
  "packetLength [1, 2, 3] 0 \<le> SAMV71_ETH_TX_BUFFER_SIZE samv71_example_config \<and>
   samv71TxOwnership samv71_example_config
     (samv71_txBufferDesc (samv71_blank_state samv71_example_config) !
      samv71_txBufferIndex (samv71_blank_state samv71_example_config)) = hardware \<and>
   samv71EthSendPacket samv71_example_config (samv71_blank_state samv71_example_config) [1, 2, 3] 0 =
     (ERROR_FAILURE, samv71_blank_state samv71_example_config) \<and>
   packetLength [1, 2, 3] 0 \<le> MIMXRT1160_ETH2_TX_BUFFER_SIZE mimxrt1160_example_config \<and>
   mimxrt1160TxOwnership mimxrt1160_example_config
     (mimxrt1160_txBufferDesc
        ((mimxrt1160_blank_state mimxrt1160_example_config)
           \<lparr>mimxrt1160_txBufferDesc := [[0x80000000, 0, 0, 0, 0, 0, 0, 0], replicate 8 0]\<rparr>) !
      mimxrt1160_txBufferIndex
        ((mimxrt1160_blank_state mimxrt1160_example_config)
           \<lparr>mimxrt1160_txBufferDesc := [[0x80000000, 0, 0, 0, 0, 0, 0, 0], replicate 8 0]\<rparr>)) = hardware \<and>
   mimxrt1160Eth2SendPacket mimxrt1160_example_config
     ((mimxrt1160_blank_state mimxrt1160_example_config)
        \<lparr>mimxrt1160_txBufferDesc := [[0x80000000, 0, 0, 0, 0, 0, 0, 0], replicate 8 0]\<rparr>) [1, 2, 3] 0 =
     (ERROR_FAILURE, (mimxrt1160_blank_state mimxrt1160_example_config)
        \<lparr>mimxrt1160_txBufferDesc := [[0x80000000, 0, 0, 0, 0, 0, 0, 0], replicate 8 0]\<rparr>)"
proof -
  let ?c = samv71_example_config and ?m = mimxrt1160_example_config
  let ?s = "samv71_blank_state ?c"
  let ?t = "(mimxrt1160_blank_state ?m)
     \<lparr>mimxrt1160_txBufferDesc := [[0x80000000, 0, 0, 0, 0, 0, 0, 0], replicate 8 0]\<rparr>"
  have len: "packetLength [1, 2, 3] 0 = 3"
    by (simp add: packetLength_def netBufferGetLength_def)
  have a: "packetLength [1, 2, 3] 0 \<le> SAMV71_ETH_TX_BUFFER_SIZE ?c \<and>
      samv71TxOwnership ?c (samv71_txBufferDesc ?s ! samv71_txBufferIndex ?s) = hardware"
    by (simp add: len samv71_example_config_def samv71_blank_state_def samv71TxOwnership_def)
  have b: "packetLength [1, 2, 3] 0 \<le> MIMXRT1160_ETH2_TX_BUFFER_SIZE ?m \<and>
      mimxrt1160TxOwnership ?m (mimxrt1160_txBufferDesc ?t ! mimxrt1160_txBufferIndex ?t) = hardware"
    by (simp add: len mimxrt1160_example_config_def mimxrt1160_blank_state_def mimxrt1160TxOwnership_def)
  from a b send_busy_leaves_ring_unchanged [of "[1, 2, 3]" 0 ?c ?s ?m ?t]
  show ?thesis by blast
qed

text \<open>
  C3. A frame longer than the transmit buffer is refused with \<^verbatim>\<open>ERROR_INVALID_LENGTH\<close>; the
  state returned differs from the state given only in the event \<^verbatim>\<open>nicTxEvent\<close>, which is
  set: the ring is untouched and the upper layer is told that the transmitter is ready.
  Both drivers.
\<close>

theorem send_invalid_length_signals_ready:
  "(SAMV71_ETH_TX_BUFFER_SIZE c < packetLength buffer offset \<longrightarrow>
      samv71EthSendPacket c s buffer offset =
        (ERROR_INVALID_LENGTH, s\<lparr>samv71_nicTxEvent := True\<rparr>)) \<and>
   (MIMXRT1160_ETH2_TX_BUFFER_SIZE m < packetLength buffer offset \<longrightarrow>
      mimxrt1160Eth2SendPacket m t buffer offset =
        (ERROR_INVALID_LENGTH, t\<lparr>mimxrt1160_nicTxEvent := True\<rparr>))"
  by (simp add: samv71EthSendPacket_def mimxrt1160Eth2SendPacket_def Let_def)

theorem send_invalid_length_signals_ready_witness:
  "SAMV71_ETH_TX_BUFFER_SIZE samv71_example_config < packetLength (replicate 20 7) 3 \<and>
   samv71EthSendPacket samv71_example_config (samv71_blank_state samv71_example_config)
       (replicate 20 7) 3 =
     (ERROR_INVALID_LENGTH, (samv71_blank_state samv71_example_config)\<lparr>samv71_nicTxEvent := True\<rparr>) \<and>
   MIMXRT1160_ETH2_TX_BUFFER_SIZE mimxrt1160_example_config < packetLength (replicate 20 7) 3 \<and>
   mimxrt1160Eth2SendPacket mimxrt1160_example_config (mimxrt1160_blank_state mimxrt1160_example_config)
       (replicate 20 7) 3 =
     (ERROR_INVALID_LENGTH,
      (mimxrt1160_blank_state mimxrt1160_example_config)\<lparr>mimxrt1160_nicTxEvent := True\<rparr>)"
proof -
  have len: "packetLength (replicate 20 7) 3 = 17"
    by (simp add: packetLength_def netBufferGetLength_def)
  have a: "SAMV71_ETH_TX_BUFFER_SIZE samv71_example_config < packetLength (replicate 20 7) 3"
    by (simp add: len samv71_example_config_def)
  have b: "MIMXRT1160_ETH2_TX_BUFFER_SIZE mimxrt1160_example_config < packetLength (replicate 20 7) 3"
    by (simp add: len mimxrt1160_example_config_def)
  from a b send_invalid_length_signals_ready
    [of samv71_example_config "replicate 20 7" 3 "samv71_blank_state samv71_example_config"
        mimxrt1160_example_config "mimxrt1160_blank_state mimxrt1160_example_config"]
  show ?thesis by blast
qed

section \<open>Properties of the ring initialisation\<close>

lemma fold_update_length:
  "length (fold (\<lambda>i ds. ds[i := g i (ds ! i)]) [0..<n] ds) = length ds"
  by (induction n) simp_all

lemma fold_update_nth:
  "i < length ds \<Longrightarrow>
   fold (\<lambda>i ds. ds[i := g i (ds ! i)]) [0..<n] ds ! i = (if i < n then g i (ds ! i) else ds ! i)"
  by (induction n) (auto simp: fold_update_length nth_list_update less_Suc_eq)

lemma samv71InitTxLoop_length: "length (samv71InitTxLoop baddr used n ds) = length ds"
  unfolding samv71InitTxLoop_def
  by (rule fold_update_length [where g = "\<lambda>i _. \<lparr>address = baddr i, status = used\<rparr>"])

lemma samv71InitTxLoop_nth:
  "i < n \<Longrightarrow> n \<le> length ds \<Longrightarrow>
   samv71InitTxLoop baddr used n ds ! i = \<lparr>address = baddr i, status = used\<rparr>"
  unfolding samv71InitTxLoop_def
  using fold_update_nth [where g = "\<lambda>i _. \<lparr>address = baddr i, status = used\<rparr>" and i = i and ds = ds and n = n]
  by simp

lemma flag_or_and_self: "(a OR b) AND b = (b :: uint32_t)"
  by (simp add: word_bw_comms)

lemma flag_or_and_other: "a AND b = 0 \<Longrightarrow> (a OR w) AND b = w AND (b :: uint32_t)"
  by (simp add: word_ao_dist)

lemma flag_and_and: "m AND b = 0 \<Longrightarrow> (a AND m) AND b = (0 :: uint32_t)"
  by (simp add: word_bw_assocs)

lemma flag_comm: "a AND b = 0 \<Longrightarrow> b AND a = (0 :: uint32_t)"
  by (simp add: word_bw_comms)

lemma samv71InitRxLoop_length: "length (samv71InitRxLoop baddr amask n ds) = length ds"
  unfolding samv71InitRxLoop_def
  by (rule fold_update_length [where g = "\<lambda>i _. \<lparr>address = baddr i AND amask, status = 0\<rparr>"])

lemma samv71InitRxLoop_nth:
  "i < n \<Longrightarrow> n \<le> length ds \<Longrightarrow>
   samv71InitRxLoop baddr amask n ds ! i = \<lparr>address = baddr i AND amask, status = 0\<rparr>"
  unfolding samv71InitRxLoop_def
  using fold_update_nth [where g = "\<lambda>i _. \<lparr>address = baddr i AND amask, status = 0\<rparr>"
      and i = i and ds = ds and n = n]
  by simp

lemma samv71InitDummyRxLoop_length: "length (samv71InitDummyRxLoop baddr amask own n ds) = length ds"
  unfolding samv71InitDummyRxLoop_def
  by (rule fold_update_length [where g = "\<lambda>i _. \<lparr>address = (baddr i AND amask) OR own, status = 0\<rparr>"])

lemma samv71InitDummyRxLoop_nth:
  "i < n \<Longrightarrow> n \<le> length ds \<Longrightarrow>
   samv71InitDummyRxLoop baddr amask own n ds ! i = \<lparr>address = (baddr i AND amask) OR own, status = 0\<rparr>"
  unfolding samv71InitDummyRxLoop_def
  using fold_update_nth [where g = "\<lambda>i _. \<lparr>address = (baddr i AND amask) OR own, status = 0\<rparr>"
      and i = i and ds = ds and n = n]
  by simp

text \<open>The transmit ring of the SAMV71 after the loop and the wrap statement.\<close>

lemma samv71_tx_ring_init:
  fixes baddr :: "nat \<Rightarrow> uint32_t"
  assumes n: "1 \<le> n" "length ds = n" and i: "i < n"
    and bits: "used \<noteq> 0" "wrap \<noteq> 0" "used AND wrap = 0"
  defines "ds' \<equiv> samv71MarkTxWrap wrap n (samv71InitTxLoop baddr used n ds)"
  shows "length ds' = n"
    and "status (ds' ! i) AND wrap \<noteq> 0 \<longleftrightarrow> i = n - 1"
    and "status (ds' ! i) AND used \<noteq> 0"
proof -
  have len: "length (samv71InitTxLoop baddr used n ds) = n"
    by (simp add: samv71InitTxLoop_length n)
  show "length ds' = n"
    by (simp add: ds'_def samv71MarkTxWrap_def len)
  have st: "status (ds' ! i) = (if i = n - 1 then used OR wrap else used)"
    using n i by (simp add: ds'_def samv71MarkTxWrap_def len nth_list_update samv71InitTxLoop_nth)
  show "status (ds' ! i) AND wrap \<noteq> 0 \<longleftrightarrow> i = n - 1"
    using bits by (simp add: st flag_or_and_self)
  have "(used OR wrap) AND used = used"
    by (simp add: word_bw_comms)
  then show "status (ds' ! i) AND used \<noteq> 0"
    using bits by (simp add: st)
qed

text \<open>The receive ring of the SAMV71 after the loop and the wrap statement.\<close>

lemma samv71_rx_ring_init:
  fixes baddr :: "nat \<Rightarrow> uint32_t"
  assumes n: "1 \<le> n" "length ds = n" and i: "i < n"
    and bits: "wrap \<noteq> 0" "amask AND wrap = 0" "amask AND own = 0" "wrap AND own = 0"
  defines "ds' \<equiv> samv71MarkRxWrap wrap n (samv71InitRxLoop baddr amask n ds)"
  shows "length ds' = n"
    and "address (ds' ! i) AND wrap \<noteq> 0 \<longleftrightarrow> i = n - 1"
    and "address (ds' ! i) AND own = 0"
proof -
  have len: "length (samv71InitRxLoop baddr amask n ds) = n"
    by (simp add: samv71InitRxLoop_length n)
  show "length ds' = n"
    by (simp add: ds'_def samv71MarkRxWrap_def len)
  have ad: "address (ds' ! i) = (if i = n - 1 then (baddr i AND amask) OR wrap else baddr i AND amask)"
    using n i by (simp add: ds'_def samv71MarkRxWrap_def len nth_list_update samv71InitRxLoop_nth)
  show "address (ds' ! i) AND wrap \<noteq> 0 \<longleftrightarrow> i = n - 1"
    using bits by (simp add: ad flag_or_and_self flag_and_and)
  show "address (ds' ! i) AND own = 0"
    using bits by (simp add: ad flag_and_and word_ao_dist)
qed

text \<open>
  The dummy receive ring of the SAMV71 (the unused priority queues): the wrap flag is on the
  last entry, and every entry has the ownership bit set, so that the DMA never fills it.
\<close>

lemma samv71_dummy_rx_ring_init:
  fixes baddr :: "nat \<Rightarrow> uint32_t"
  assumes n: "1 \<le> n" "length ds = n" and i: "i < n"
    and bits: "wrap \<noteq> 0" "own \<noteq> 0" "amask AND wrap = 0" "wrap AND own = 0"
  defines "ds' \<equiv> samv71MarkRxWrap wrap n (samv71InitDummyRxLoop baddr amask own n ds)"
  shows "length ds' = n"
    and "address (ds' ! i) AND wrap \<noteq> 0 \<longleftrightarrow> i = n - 1"
    and "address (ds' ! i) AND own \<noteq> 0"
proof -
  have len: "length (samv71InitDummyRxLoop baddr amask own n ds) = n"
    by (simp add: samv71InitDummyRxLoop_length n)
  show "length ds' = n"
    by (simp add: ds'_def samv71MarkRxWrap_def len)
  have ad: "address (ds' ! i) =
      (if i = n - 1 then ((baddr i AND amask) OR own) OR wrap else (baddr i AND amask) OR own)"
    using n i by (simp add: ds'_def samv71MarkRxWrap_def len nth_list_update samv71InitDummyRxLoop_nth)
  have ow: "own AND wrap = 0"
    using bits by (simp add: word_bw_comms)
  show "address (ds' ! i) AND wrap \<noteq> 0 \<longleftrightarrow> i = n - 1"
    using bits ow by (simp add: ad flag_or_and_self flag_and_and word_ao_dist)
  have "((baddr i AND amask) OR own) AND own = own"
    by (simp add: word_bw_comms)
  then show "address (ds' ! i) AND own \<noteq> 0"
    using bits by (simp add: ad word_ao_dist [of _ wrap own])
qed

lemma mimxrt1160InitTxLoop_length: "length (mimxrt1160InitTxLoop baddr intr n ds) = length ds"
  unfolding mimxrt1160InitTxLoop_def
  by (rule fold_update_length [where g = "\<lambda>i d. d[1 := baddr i, 2 := intr]"])

lemma mimxrt1160InitTxLoop_nth:
  "i < n \<Longrightarrow> n \<le> length ds \<Longrightarrow>
   mimxrt1160InitTxLoop baddr intr n ds ! i = (ds ! i)[1 := baddr i, 2 := intr]"
  unfolding mimxrt1160InitTxLoop_def
  using fold_update_nth [where g = "\<lambda>i d. d[1 := baddr i, 2 := intr]" and i = i and ds = ds and n = n]
  by simp

lemma mimxrt1160InitRxLoop_length: "length (mimxrt1160InitRxLoop baddr e intr n ds) = length ds"
  unfolding mimxrt1160InitRxLoop_def
  by (rule fold_update_length [where g = "\<lambda>i d. d[0 := e, 1 := baddr i, 2 := intr]"])

lemma mimxrt1160InitRxLoop_nth:
  "i < n \<Longrightarrow> n \<le> length ds \<Longrightarrow>
   mimxrt1160InitRxLoop baddr e intr n ds ! i = (ds ! i)[0 := e, 1 := baddr i, 2 := intr]"
  unfolding mimxrt1160InitRxLoop_def
  using fold_update_nth [where g = "\<lambda>i d. d[0 := e, 1 := baddr i, 2 := intr]" and i = i and ds = ds and n = n]
  by simp

text \<open>The transmit ring of the i.MX RT1160 after \<^verbatim>\<open>osMemset\<close>, the loop and the wrap statement.\<close>

lemma mimxrt1160_tx_ring_init:
  fixes baddr :: "nat \<Rightarrow> uint32_t" and intr :: uint32_t
  assumes n: "1 \<le> n" and i: "i < n"
    and bits: "w \<noteq> 0" "r AND w = 0"
  defines "ds' \<equiv> mimxrt1160MarkWrap w n (mimxrt1160InitTxLoop baddr intr n (replicate n (replicate 8 0)))"
  shows "length ds' = n"
    and "length (ds' ! i) = 8"
    and "(ds' ! i) ! 0 AND w \<noteq> 0 \<longleftrightarrow> i = n - 1"
    and "(ds' ! i) ! 0 AND r = 0"
proof -
  have len: "length (mimxrt1160InitTxLoop baddr intr n (replicate n (replicate 8 0))) = n"
    by (simp add: mimxrt1160InitTxLoop_length)
  show "length ds' = n"
    by (simp add: ds'_def mimxrt1160MarkWrap_def len)
  show "length (ds' ! i) = 8"
    using n i by (simp add: ds'_def mimxrt1160MarkWrap_def len nth_list_update mimxrt1160InitTxLoop_nth)
  have w0: "(ds' ! i) ! 0 = (if i = n - 1 then w else 0)"
    using n i by (simp add: ds'_def mimxrt1160MarkWrap_def len nth_list_update mimxrt1160InitTxLoop_nth)
  show "(ds' ! i) ! 0 AND w \<noteq> 0 \<longleftrightarrow> i = n - 1"
    using bits by (simp add: w0)
  show "(ds' ! i) ! 0 AND r = 0"
    using bits by (simp add: w0 word_bw_comms)
qed

text \<open>The receive ring of the i.MX RT1160 after \<^verbatim>\<open>osMemset\<close>, the loop and the wrap statement.\<close>

lemma mimxrt1160_rx_ring_init:
  fixes baddr :: "nat \<Rightarrow> uint32_t" and intr :: uint32_t
  assumes n: "1 \<le> n" and i: "i < n"
    and bits: "e \<noteq> 0" "w \<noteq> 0" "e AND w = 0"
  defines "ds' \<equiv> mimxrt1160MarkWrap w n (mimxrt1160InitRxLoop baddr e intr n (replicate n (replicate 8 0)))"
  shows "length ds' = n"
    and "length (ds' ! i) = 8"
    and "(ds' ! i) ! 0 AND w \<noteq> 0 \<longleftrightarrow> i = n - 1"
    and "(ds' ! i) ! 0 AND e \<noteq> 0"
proof -
  have len: "length (mimxrt1160InitRxLoop baddr e intr n (replicate n (replicate 8 0))) = n"
    by (simp add: mimxrt1160InitRxLoop_length)
  show "length ds' = n"
    by (simp add: ds'_def mimxrt1160MarkWrap_def len)
  show "length (ds' ! i) = 8"
    using n i by (simp add: ds'_def mimxrt1160MarkWrap_def len nth_list_update mimxrt1160InitRxLoop_nth)
  have w0: "(ds' ! i) ! 0 = (if i = n - 1 then e OR w else e)"
    using n i by (simp add: ds'_def mimxrt1160MarkWrap_def len nth_list_update mimxrt1160InitRxLoop_nth)
  show "(ds' ! i) ! 0 AND w \<noteq> 0 \<longleftrightarrow> i = n - 1"
    using bits by (simp add: w0 flag_or_and_self)
  have "(e OR w) AND e = e"
    by (simp add: word_bw_comms)
  then show "(ds' ! i) ! 0 AND e \<noteq> 0"
    using bits by (simp add: w0)
qed

text \<open>
  C4. After the initialisation of the buffer descriptors, in every ring the wrap flag is
  carried by the last entry and by no other; every receive descriptor of the receive ring
  is owned by the hardware, every transmit descriptor of the transmit ring by the software,
  and both indices are 0. For the SAMV71 the wrap flag of the two dummy rings of the unused
  queues is placed in the same way. Both drivers.
\<close>

theorem init_buffer_desc_ring_invariants:
  "(samv71_config_ok c \<and>
    length (samv71_txBufferDesc s) = SAMV71_ETH_TX_BUFFER_COUNT c \<and>
    length (samv71_rxBufferDesc s) = SAMV71_ETH_RX_BUFFER_COUNT c \<and>
    length (samv71_dummyTxBufferDesc s) = SAMV71_ETH_DUMMY_BUFFER_COUNT c \<and>
    length (samv71_dummyRxBufferDesc s) = SAMV71_ETH_DUMMY_BUFFER_COUNT c \<longrightarrow>
      length (samv71_txBufferDesc (samv71EthInitBufferDesc c s)) = SAMV71_ETH_TX_BUFFER_COUNT c \<and>
      length (samv71_rxBufferDesc (samv71EthInitBufferDesc c s)) = SAMV71_ETH_RX_BUFFER_COUNT c \<and>
      (\<forall>i < SAMV71_ETH_TX_BUFFER_COUNT c.
         (samv71TxWrap c (samv71_txBufferDesc (samv71EthInitBufferDesc c s) ! i)
            \<longleftrightarrow> i = SAMV71_ETH_TX_BUFFER_COUNT c - 1) \<and>
         samv71TxOwnership c (samv71_txBufferDesc (samv71EthInitBufferDesc c s) ! i) = software) \<and>
      (\<forall>i < SAMV71_ETH_RX_BUFFER_COUNT c.
         (samv71RxWrap c (samv71_rxBufferDesc (samv71EthInitBufferDesc c s) ! i)
            \<longleftrightarrow> i = SAMV71_ETH_RX_BUFFER_COUNT c - 1) \<and>
         samv71RxOwnership c (samv71_rxBufferDesc (samv71EthInitBufferDesc c s) ! i) = hardware) \<and>
      (\<forall>i < SAMV71_ETH_DUMMY_BUFFER_COUNT c.
         (samv71TxWrap c (samv71_dummyTxBufferDesc (samv71EthInitBufferDesc c s) ! i)
            \<longleftrightarrow> i = SAMV71_ETH_DUMMY_BUFFER_COUNT c - 1) \<and>
         (samv71RxWrap c (samv71_dummyRxBufferDesc (samv71EthInitBufferDesc c s) ! i)
            \<longleftrightarrow> i = SAMV71_ETH_DUMMY_BUFFER_COUNT c - 1)) \<and>
      samv71_txBufferIndex (samv71EthInitBufferDesc c s) = 0 \<and>
      samv71_rxBufferIndex (samv71EthInitBufferDesc c s) = 0) \<and>
   (mimxrt1160_config_ok m \<longrightarrow>
      length (mimxrt1160_txBufferDesc (mimxrt1160Eth2InitBufferDesc m t)) =
        MIMXRT1160_ETH2_TX_BUFFER_COUNT m \<and>
      length (mimxrt1160_rxBufferDesc (mimxrt1160Eth2InitBufferDesc m t)) =
        MIMXRT1160_ETH2_RX_BUFFER_COUNT m \<and>
      (\<forall>i < MIMXRT1160_ETH2_TX_BUFFER_COUNT m.
         (mimxrt1160TxWrap m (mimxrt1160_txBufferDesc (mimxrt1160Eth2InitBufferDesc m t) ! i)
            \<longleftrightarrow> i = MIMXRT1160_ETH2_TX_BUFFER_COUNT m - 1) \<and>
         mimxrt1160TxOwnership m (mimxrt1160_txBufferDesc (mimxrt1160Eth2InitBufferDesc m t) ! i) = software) \<and>
      (\<forall>i < MIMXRT1160_ETH2_RX_BUFFER_COUNT m.
         (mimxrt1160RxWrap m (mimxrt1160_rxBufferDesc (mimxrt1160Eth2InitBufferDesc m t) ! i)
            \<longleftrightarrow> i = MIMXRT1160_ETH2_RX_BUFFER_COUNT m - 1) \<and>
         mimxrt1160RxOwnership m (mimxrt1160_rxBufferDesc (mimxrt1160Eth2InitBufferDesc m t) ! i) = hardware) \<and>
      mimxrt1160_txBufferIndex (mimxrt1160Eth2InitBufferDesc m t) = 0 \<and>
      mimxrt1160_rxBufferIndex (mimxrt1160Eth2InitBufferDesc m t) = 0)"
proof (intro conjI impI)
  assume a: "samv71_config_ok c \<and>
    length (samv71_txBufferDesc s) = SAMV71_ETH_TX_BUFFER_COUNT c \<and>
    length (samv71_rxBufferDesc s) = SAMV71_ETH_RX_BUFFER_COUNT c \<and>
    length (samv71_dummyTxBufferDesc s) = SAMV71_ETH_DUMMY_BUFFER_COUNT c \<and>
    length (samv71_dummyRxBufferDesc s) = SAMV71_ETH_DUMMY_BUFFER_COUNT c"
  then have ok: "samv71_config_ok c" by simp
  note tx = samv71_tx_ring_init [where used = "GMAC_TX_USED c" and wrap = "GMAC_TX_WRAP c"
      and baddr = "samv71TxBufferAddr c" and ds = "samv71_txBufferDesc s"
      and n = "SAMV71_ETH_TX_BUFFER_COUNT c"]
  note rx = samv71_rx_ring_init [where own = "GMAC_RX_OWNERSHIP c" and wrap = "GMAC_RX_WRAP c"
      and amask = "GMAC_RX_ADDRESS c" and baddr = "samv71RxBufferAddr c"
      and ds = "samv71_rxBufferDesc s" and n = "SAMV71_ETH_RX_BUFFER_COUNT c"]
  note dtx = samv71_tx_ring_init [where used = "GMAC_TX_USED c" and wrap = "GMAC_TX_WRAP c"
      and baddr = "samv71DummyTxBufferAddr c" and ds = "samv71_dummyTxBufferDesc s"
      and n = "SAMV71_ETH_DUMMY_BUFFER_COUNT c"]
  note drx = samv71_dummy_rx_ring_init [where own = "GMAC_RX_OWNERSHIP c" and wrap = "GMAC_RX_WRAP c"
      and amask = "GMAC_RX_ADDRESS c" and baddr = "samv71DummyRxBufferAddr c"
      and ds = "samv71_dummyRxBufferDesc s" and n = "SAMV71_ETH_DUMMY_BUFFER_COUNT c"]
  show "length (samv71_txBufferDesc (samv71EthInitBufferDesc c s)) = SAMV71_ETH_TX_BUFFER_COUNT c"
    using a tx(1) [of 0] by (simp add: samv71EthInitBufferDesc_def samv71_config_ok_def)
  show "length (samv71_rxBufferDesc (samv71EthInitBufferDesc c s)) = SAMV71_ETH_RX_BUFFER_COUNT c"
    using a rx(1) [of 0] by (simp add: samv71EthInitBufferDesc_def samv71_config_ok_def)
  show "\<forall>i < SAMV71_ETH_TX_BUFFER_COUNT c.
         (samv71TxWrap c (samv71_txBufferDesc (samv71EthInitBufferDesc c s) ! i)
            \<longleftrightarrow> i = SAMV71_ETH_TX_BUFFER_COUNT c - 1) \<and>
         samv71TxOwnership c (samv71_txBufferDesc (samv71EthInitBufferDesc c s) ! i) = software"
    using a tx(2,3)
    by (simp add: samv71EthInitBufferDesc_def samv71_config_ok_def samv71TxWrap_def samv71TxOwnership_def)
  show "\<forall>i < SAMV71_ETH_RX_BUFFER_COUNT c.
         (samv71RxWrap c (samv71_rxBufferDesc (samv71EthInitBufferDesc c s) ! i)
            \<longleftrightarrow> i = SAMV71_ETH_RX_BUFFER_COUNT c - 1) \<and>
         samv71RxOwnership c (samv71_rxBufferDesc (samv71EthInitBufferDesc c s) ! i) = hardware"
    using a rx(2,3)
    by (simp add: samv71EthInitBufferDesc_def samv71_config_ok_def samv71RxWrap_def samv71RxOwnership_def)
  show "\<forall>i < SAMV71_ETH_DUMMY_BUFFER_COUNT c.
         (samv71TxWrap c (samv71_dummyTxBufferDesc (samv71EthInitBufferDesc c s) ! i)
            \<longleftrightarrow> i = SAMV71_ETH_DUMMY_BUFFER_COUNT c - 1) \<and>
         (samv71RxWrap c (samv71_dummyRxBufferDesc (samv71EthInitBufferDesc c s) ! i)
            \<longleftrightarrow> i = SAMV71_ETH_DUMMY_BUFFER_COUNT c - 1)"
    using a dtx(2) drx(2)
    by (simp add: samv71EthInitBufferDesc_def samv71_config_ok_def samv71TxWrap_def samv71RxWrap_def)
  show "samv71_txBufferIndex (samv71EthInitBufferDesc c s) = 0"
    by (simp add: samv71EthInitBufferDesc_def)
  show "samv71_rxBufferIndex (samv71EthInitBufferDesc c s) = 0"
    by (simp add: samv71EthInitBufferDesc_def)
next
  assume ok: "mimxrt1160_config_ok m"
  note tx = mimxrt1160_tx_ring_init [where r = "ENET_TBD0_R m" and w = "ENET_TBD0_W m"
      and baddr = "mimxrt1160TxBufferAddr m" and intr = "ENET_TBD2_INT m"
      and n = "MIMXRT1160_ETH2_TX_BUFFER_COUNT m"]
  note rx = mimxrt1160_rx_ring_init [where e = "ENET_RBD0_E m" and w = "ENET_RBD0_W m"
      and baddr = "mimxrt1160RxBufferAddr m" and intr = "ENET_RBD2_INT m"
      and n = "MIMXRT1160_ETH2_RX_BUFFER_COUNT m"]
  show "length (mimxrt1160_txBufferDesc (mimxrt1160Eth2InitBufferDesc m t)) =
        MIMXRT1160_ETH2_TX_BUFFER_COUNT m"
    using ok tx(1) [of 0] by (simp add: mimxrt1160Eth2InitBufferDesc_def mimxrt1160_config_ok_def)
  show "length (mimxrt1160_rxBufferDesc (mimxrt1160Eth2InitBufferDesc m t)) =
        MIMXRT1160_ETH2_RX_BUFFER_COUNT m"
    using ok rx(1) [of 0] by (simp add: mimxrt1160Eth2InitBufferDesc_def mimxrt1160_config_ok_def)
  show "\<forall>i < MIMXRT1160_ETH2_TX_BUFFER_COUNT m.
         (mimxrt1160TxWrap m (mimxrt1160_txBufferDesc (mimxrt1160Eth2InitBufferDesc m t) ! i)
            \<longleftrightarrow> i = MIMXRT1160_ETH2_TX_BUFFER_COUNT m - 1) \<and>
         mimxrt1160TxOwnership m (mimxrt1160_txBufferDesc (mimxrt1160Eth2InitBufferDesc m t) ! i) = software"
    using ok tx(3,4)
    by (simp add: mimxrt1160Eth2InitBufferDesc_def mimxrt1160_config_ok_def mimxrt1160TxWrap_def
        mimxrt1160TxOwnership_def)
  show "\<forall>i < MIMXRT1160_ETH2_RX_BUFFER_COUNT m.
         (mimxrt1160RxWrap m (mimxrt1160_rxBufferDesc (mimxrt1160Eth2InitBufferDesc m t) ! i)
            \<longleftrightarrow> i = MIMXRT1160_ETH2_RX_BUFFER_COUNT m - 1) \<and>
         mimxrt1160RxOwnership m (mimxrt1160_rxBufferDesc (mimxrt1160Eth2InitBufferDesc m t) ! i) = hardware"
    using ok rx(3,4)
    by (simp add: mimxrt1160Eth2InitBufferDesc_def mimxrt1160_config_ok_def mimxrt1160RxWrap_def
        mimxrt1160RxOwnership_def)
  show "mimxrt1160_txBufferIndex (mimxrt1160Eth2InitBufferDesc m t) = 0"
    by (simp add: mimxrt1160Eth2InitBufferDesc_def)
  show "mimxrt1160_rxBufferIndex (mimxrt1160Eth2InitBufferDesc m t) = 0"
    by (simp add: mimxrt1160Eth2InitBufferDesc_def)
qed

theorem init_buffer_desc_ring_invariants_witness:
  "samv71_config_ok samv71_example_config \<and>
   length (samv71_txBufferDesc (samv71_blank_state samv71_example_config)) =
     SAMV71_ETH_TX_BUFFER_COUNT samv71_example_config \<and>
   length (samv71_rxBufferDesc (samv71_blank_state samv71_example_config)) =
     SAMV71_ETH_RX_BUFFER_COUNT samv71_example_config \<and>
   length (samv71_dummyTxBufferDesc (samv71_blank_state samv71_example_config)) =
     SAMV71_ETH_DUMMY_BUFFER_COUNT samv71_example_config \<and>
   length (samv71_dummyRxBufferDesc (samv71_blank_state samv71_example_config)) =
     SAMV71_ETH_DUMMY_BUFFER_COUNT samv71_example_config \<and>
   \<not> samv71TxWrap samv71_example_config
     (samv71_txBufferDesc
        (samv71EthInitBufferDesc samv71_example_config (samv71_blank_state samv71_example_config)) ! 0) \<and>
   samv71TxWrap samv71_example_config
     (samv71_txBufferDesc
        (samv71EthInitBufferDesc samv71_example_config (samv71_blank_state samv71_example_config)) ! 1) \<and>
   samv71TxOwnership samv71_example_config
     (samv71_txBufferDesc
        (samv71EthInitBufferDesc samv71_example_config (samv71_blank_state samv71_example_config)) ! 1)
     = software \<and>
   \<not> samv71RxWrap samv71_example_config
     (samv71_rxBufferDesc
        (samv71EthInitBufferDesc samv71_example_config (samv71_blank_state samv71_example_config)) ! 1) \<and>
   samv71RxWrap samv71_example_config
     (samv71_rxBufferDesc
        (samv71EthInitBufferDesc samv71_example_config (samv71_blank_state samv71_example_config)) ! 2) \<and>
   samv71RxOwnership samv71_example_config
     (samv71_rxBufferDesc
        (samv71EthInitBufferDesc samv71_example_config (samv71_blank_state samv71_example_config)) ! 2)
     = hardware \<and>
   samv71_rxBufferIndex
     (samv71EthInitBufferDesc samv71_example_config (samv71_blank_state samv71_example_config)) = 0 \<and>
   mimxrt1160_config_ok mimxrt1160_example_config \<and>
   \<not> mimxrt1160RxWrap mimxrt1160_example_config
     (mimxrt1160_rxBufferDesc
        (mimxrt1160Eth2InitBufferDesc mimxrt1160_example_config
           (mimxrt1160_blank_state mimxrt1160_example_config)) ! 0) \<and>
   mimxrt1160RxWrap mimxrt1160_example_config
     (mimxrt1160_rxBufferDesc
        (mimxrt1160Eth2InitBufferDesc mimxrt1160_example_config
           (mimxrt1160_blank_state mimxrt1160_example_config)) ! 1) \<and>
   mimxrt1160RxOwnership mimxrt1160_example_config
     (mimxrt1160_rxBufferDesc
        (mimxrt1160Eth2InitBufferDesc mimxrt1160_example_config
           (mimxrt1160_blank_state mimxrt1160_example_config)) ! 0) = hardware \<and>
   mimxrt1160TxOwnership mimxrt1160_example_config
     (mimxrt1160_txBufferDesc
        (mimxrt1160Eth2InitBufferDesc mimxrt1160_example_config
           (mimxrt1160_blank_state mimxrt1160_example_config)) ! 0) = software \<and>
   mimxrt1160_txBufferIndex
     (mimxrt1160Eth2InitBufferDesc mimxrt1160_example_config
        (mimxrt1160_blank_state mimxrt1160_example_config)) = 0"
proof -
  let ?c = samv71_example_config and ?m = mimxrt1160_example_config
  let ?s = "samv71_blank_state ?c" and ?t = "mimxrt1160_blank_state ?m"
  have n: "SAMV71_ETH_TX_BUFFER_COUNT ?c = 2" "SAMV71_ETH_RX_BUFFER_COUNT ?c = 3"
    "SAMV71_ETH_DUMMY_BUFFER_COUNT ?c = 2"
    "MIMXRT1160_ETH2_TX_BUFFER_COUNT ?m = 2" "MIMXRT1160_ETH2_RX_BUFFER_COUNT ?m = 2"
    by (simp_all add: samv71_example_config_def mimxrt1160_example_config_def)
  have h: "samv71_config_ok ?c \<and>
    length (samv71_txBufferDesc ?s) = SAMV71_ETH_TX_BUFFER_COUNT ?c \<and>
    length (samv71_rxBufferDesc ?s) = SAMV71_ETH_RX_BUFFER_COUNT ?c \<and>
    length (samv71_dummyTxBufferDesc ?s) = SAMV71_ETH_DUMMY_BUFFER_COUNT ?c \<and>
    length (samv71_dummyRxBufferDesc ?s) = SAMV71_ETH_DUMMY_BUFFER_COUNT ?c"
    by (simp add: samv71_example_config_ok samv71_blank_state_def)
  note r = init_buffer_desc_ring_invariants [of ?c ?s ?m ?t]
  from r h have tx: "\<forall>i<2. (samv71TxWrap ?c (samv71_txBufferDesc (samv71EthInitBufferDesc ?c ?s) ! i)
            \<longleftrightarrow> i = 1) \<and>
         samv71TxOwnership ?c (samv71_txBufferDesc (samv71EthInitBufferDesc ?c ?s) ! i) = software"
    by (simp add: n)
  from r h have rx: "\<forall>i<3. (samv71RxWrap ?c (samv71_rxBufferDesc (samv71EthInitBufferDesc ?c ?s) ! i)
            \<longleftrightarrow> i = 2) \<and>
         samv71RxOwnership ?c (samv71_rxBufferDesc (samv71EthInitBufferDesc ?c ?s) ! i) = hardware"
    by (simp add: n)
  from r h have ix: "samv71_rxBufferIndex (samv71EthInitBufferDesc ?c ?s) = 0"
    by simp
  from r mimxrt1160_example_config_ok
  have mrx: "\<forall>i<2. (mimxrt1160RxWrap ?m (mimxrt1160_rxBufferDesc (mimxrt1160Eth2InitBufferDesc ?m ?t) ! i)
            \<longleftrightarrow> i = 1) \<and>
         mimxrt1160RxOwnership ?m (mimxrt1160_rxBufferDesc (mimxrt1160Eth2InitBufferDesc ?m ?t) ! i) = hardware"
    by (simp add: n)
  from r mimxrt1160_example_config_ok
  have mtx: "\<forall>i<2.
         mimxrt1160TxOwnership ?m (mimxrt1160_txBufferDesc (mimxrt1160Eth2InitBufferDesc ?m ?t) ! i) = software"
    by (simp add: n)
  from r mimxrt1160_example_config_ok
  have mix: "mimxrt1160_txBufferIndex (mimxrt1160Eth2InitBufferDesc ?m ?t) = 0"
    by simp
  from tx have "\<not> samv71TxWrap ?c (samv71_txBufferDesc (samv71EthInitBufferDesc ?c ?s) ! 0)"
    and "samv71TxWrap ?c (samv71_txBufferDesc (samv71EthInitBufferDesc ?c ?s) ! 1)"
    and "samv71TxOwnership ?c (samv71_txBufferDesc (samv71EthInitBufferDesc ?c ?s) ! 1) = software"
    by simp_all
  moreover from rx have "\<not> samv71RxWrap ?c (samv71_rxBufferDesc (samv71EthInitBufferDesc ?c ?s) ! 1)"
    and "samv71RxWrap ?c (samv71_rxBufferDesc (samv71EthInitBufferDesc ?c ?s) ! 2)"
    and "samv71RxOwnership ?c (samv71_rxBufferDesc (samv71EthInitBufferDesc ?c ?s) ! 2) = hardware"
    by simp_all
  moreover from mrx have "\<not> mimxrt1160RxWrap ?m (mimxrt1160_rxBufferDesc (mimxrt1160Eth2InitBufferDesc ?m ?t) ! 0)"
    and "mimxrt1160RxWrap ?m (mimxrt1160_rxBufferDesc (mimxrt1160Eth2InitBufferDesc ?m ?t) ! 1)"
    and "mimxrt1160RxOwnership ?m (mimxrt1160_rxBufferDesc (mimxrt1160Eth2InitBufferDesc ?m ?t) ! 0) = hardware"
    by simp_all
  moreover from mtx
  have "mimxrt1160TxOwnership ?m (mimxrt1160_txBufferDesc (mimxrt1160Eth2InitBufferDesc ?m ?t) ! 0) = software"
    by simp
  ultimately show ?thesis
    using h ix mix mimxrt1160_example_config_ok by simp
qed

section \<open>Properties of the receive path of the i.MX RT1160\<close>

lemma mimxrt1160_receive_empty_iff:
  "fst (mimxrt1160Eth2ReceivePacket c s) = ERROR_BUFFER_EMPTY \<longleftrightarrow>
   mimxrt1160RxOwnership c (mimxrt1160_rxBufferDesc s ! mimxrt1160_rxBufferIndex s) = hardware"
  by (simp add: mimxrt1160Eth2ReceivePacket_def mimxrt1160RxOwnership_def Let_def split: prod.splits)


text \<open>The descriptors and the index after a call that found a descriptor to process.\<close>

lemma mimxrt1160_receive_ring:
  assumes "mimxrt1160RxOwnership c (mimxrt1160_rxBufferDesc s ! mimxrt1160_rxBufferIndex s) = software"
    and "mimxrt1160_rxBufferIndex s < length (mimxrt1160_rxBufferDesc s)"
  defines "r \<equiv> mimxrt1160_rxBufferIndex s"
  defines "s' \<equiv> snd (mimxrt1160Eth2ReceivePacket c s)"
  shows "mimxrt1160_rxBufferDesc s' =
           (mimxrt1160_rxBufferDesc s)[r := (mimxrt1160_rxBufferDesc s ! r)
              [4 := 0, 0 := (if r < MIMXRT1160_ETH2_RX_BUFFER_COUNT c - 1 then ENET_RBD0_E c
                             else ENET_RBD0_E c OR ENET_RBD0_W c)]]"
    and "mimxrt1160_rxBufferIndex s' = (if r < MIMXRT1160_ETH2_RX_BUFFER_COUNT c - 1 then r + 1 else 0)"
    and "mimxrt1160_rxBuffer s' = mimxrt1160_rxBuffer s"
  using assms(1,2)
  by (simp_all add: s'_def r_def mimxrt1160Eth2ReceivePacket_def mimxrt1160RxOwnership_def Let_def
      split: prod.splits if_splits)

lemma mimxrt1160_receive_invalid:
  assumes "mimxrt1160RxOwnership c (mimxrt1160_rxBufferDesc s ! mimxrt1160_rxBufferIndex s) = software"
    and "(mimxrt1160_rxBufferDesc s ! mimxrt1160_rxBufferIndex s) ! 0 AND ENET_RBD0_L c = 0 \<or>
         (mimxrt1160_rxBufferDesc s ! mimxrt1160_rxBufferIndex s) ! 0 AND mimxrt1160RxErrorMask c \<noteq> 0"
  shows "fst (mimxrt1160Eth2ReceivePacket c s) = ERROR_INVALID_PACKET"
    and "mimxrt1160_processed (snd (mimxrt1160Eth2ReceivePacket c s)) = mimxrt1160_processed s"
  using assms
  by (auto simp add: mimxrt1160Eth2ReceivePacket_def mimxrt1160RxOwnership_def mimxrt1160RxErrorMask_def
      Let_def split: prod.splits if_splits)

text \<open>
  C8. The receive function of the i.MX RT1160 (one descriptor per frame). When the
  descriptor at the receive index has been handed back by the hardware and its last-buffer
  flag is missing or one of the error flags is set, the function returns
  \<^verbatim>\<open>ERROR_INVALID_PACKET\<close> and passes nothing to the upper layer. Whenever the result is not
  \<^verbatim>\<open>ERROR_BUFFER_EMPTY\<close>, the descriptor is given back to the hardware with its last-buffer
  flag, its error flags and its length cleared, it carries the wrap flag exactly when it is
  the last entry, no other descriptor changes, and the index moves to the next entry, back
  to 0 after the last one.
\<close>

theorem mimxrt1160_receive_invalid_packet_and_release:
  "mimxrt1160_config_ok c \<and> mimxrt1160_state_ok c s \<longrightarrow>
     (mimxrt1160RxOwnership c (mimxrt1160_rxBufferDesc s ! mimxrt1160_rxBufferIndex s) = software \<and>
      ((mimxrt1160_rxBufferDesc s ! mimxrt1160_rxBufferIndex s) ! 0 AND ENET_RBD0_L c = 0 \<or>
       (mimxrt1160_rxBufferDesc s ! mimxrt1160_rxBufferIndex s) ! 0 AND mimxrt1160RxErrorMask c \<noteq> 0) \<longrightarrow>
        fst (mimxrt1160Eth2ReceivePacket c s) = ERROR_INVALID_PACKET \<and>
        mimxrt1160_processed (snd (mimxrt1160Eth2ReceivePacket c s)) = mimxrt1160_processed s) \<and>
     (fst (mimxrt1160Eth2ReceivePacket c s) \<noteq> ERROR_BUFFER_EMPTY \<longrightarrow>
        mimxrt1160RxOwnership c
          (mimxrt1160_rxBufferDesc (snd (mimxrt1160Eth2ReceivePacket c s)) ! mimxrt1160_rxBufferIndex s)
          = hardware \<and>
        (mimxrt1160_rxBufferDesc (snd (mimxrt1160Eth2ReceivePacket c s)) ! mimxrt1160_rxBufferIndex s) ! 0
          AND mimxrt1160RxStatusMask c = 0 \<and>
        (mimxrt1160RxWrap c
           (mimxrt1160_rxBufferDesc (snd (mimxrt1160Eth2ReceivePacket c s)) ! mimxrt1160_rxBufferIndex s)
           \<longleftrightarrow> mimxrt1160_rxBufferIndex s = MIMXRT1160_ETH2_RX_BUFFER_COUNT c - 1) \<and>
        (\<forall>k < MIMXRT1160_ETH2_RX_BUFFER_COUNT c. k \<noteq> mimxrt1160_rxBufferIndex s \<longrightarrow>
           mimxrt1160_rxBufferDesc (snd (mimxrt1160Eth2ReceivePacket c s)) ! k =
           mimxrt1160_rxBufferDesc s ! k) \<and>
        mimxrt1160_rxBufferIndex (snd (mimxrt1160Eth2ReceivePacket c s)) =
          (mimxrt1160_rxBufferIndex s + 1) mod MIMXRT1160_ETH2_RX_BUFFER_COUNT c)"
proof (intro impI conjI; (elim conjE)?)
  assume sw: "mimxrt1160RxOwnership c (mimxrt1160_rxBufferDesc s ! mimxrt1160_rxBufferIndex s) = software"
    and bad: "(mimxrt1160_rxBufferDesc s ! mimxrt1160_rxBufferIndex s) ! 0 AND ENET_RBD0_L c = 0 \<or>
       (mimxrt1160_rxBufferDesc s ! mimxrt1160_rxBufferIndex s) ! 0 AND mimxrt1160RxErrorMask c \<noteq> 0"
  show "fst (mimxrt1160Eth2ReceivePacket c s) = ERROR_INVALID_PACKET"
    by (rule mimxrt1160_receive_invalid(1) [OF sw bad])
  show "mimxrt1160_processed (snd (mimxrt1160Eth2ReceivePacket c s)) = mimxrt1160_processed s"
    by (rule mimxrt1160_receive_invalid(2) [OF sw bad])
next
  let ?r = "mimxrt1160_rxBufferIndex s" and ?n = "MIMXRT1160_ETH2_RX_BUFFER_COUNT c"
  let ?s' = "snd (mimxrt1160Eth2ReceivePacket c s)"
  assume ok: "mimxrt1160_config_ok c" and wf: "mimxrt1160_state_ok c s"
    and ne: "fst (mimxrt1160Eth2ReceivePacket c s) \<noteq> ERROR_BUFFER_EMPTY"
  from ne have sw: "mimxrt1160RxOwnership c (mimxrt1160_rxBufferDesc s ! ?r) = software"
    by (simp add: mimxrt1160_receive_empty_iff) (metis ownership.exhaust)
  from wf have r: "?r < ?n" and len: "length (mimxrt1160_rxBufferDesc s) = ?n"
    and d8: "length (mimxrt1160_rxBufferDesc s ! ?r) = 8"
    by (simp_all add: mimxrt1160_state_ok_def list_all_length)
  from ok have bits: "ENET_RBD0_E c \<noteq> 0" "ENET_RBD0_W c \<noteq> 0" "ENET_RBD0_E c AND ENET_RBD0_W c = 0"
    "ENET_RBD0_E c AND mimxrt1160RxStatusMask c = 0" "ENET_RBD0_W c AND mimxrt1160RxStatusMask c = 0"
    by (simp_all add: mimxrt1160_config_ok_def)
  from r len have "?r < length (mimxrt1160_rxBufferDesc s)" by simp
  note ring = mimxrt1160_receive_ring [OF sw this]
  have d0: "(mimxrt1160_rxBufferDesc ?s' ! ?r) ! 0 =
      (if ?r < ?n - 1 then ENET_RBD0_E c else ENET_RBD0_E c OR ENET_RBD0_W c)"
    using r len d8 by (simp add: ring(1))
  have ee: "(ENET_RBD0_E c OR ENET_RBD0_W c) AND ENET_RBD0_E c = ENET_RBD0_E c"
    by (simp add: word_bw_comms)
  show "mimxrt1160RxOwnership c (mimxrt1160_rxBufferDesc ?s' ! ?r) = hardware"
    using bits ee by (simp add: mimxrt1160RxOwnership_def d0)
  show "(mimxrt1160_rxBufferDesc ?s' ! ?r) ! 0 AND mimxrt1160RxStatusMask c = 0"
    using bits by (simp add: d0 word_ao_dist)
  show "mimxrt1160RxWrap c (mimxrt1160_rxBufferDesc ?s' ! ?r) \<longleftrightarrow> ?r = ?n - 1"
    using bits r by (auto simp add: mimxrt1160RxWrap_def d0 flag_or_and_self)
  show "\<forall>k < ?n. k \<noteq> ?r \<longrightarrow> mimxrt1160_rxBufferDesc ?s' ! k = mimxrt1160_rxBufferDesc s ! k"
    by (simp add: ring(1))
  show "mimxrt1160_rxBufferIndex ?s' = (?r + 1) mod ?n"
    using r by (auto simp add: ring(2) mod_Suc)
qed

theorem mimxrt1160_receive_invalid_packet_and_release_witness:
  "mimxrt1160_config_ok mimxrt1160_example_config \<and>
   mimxrt1160_state_ok mimxrt1160_example_config mimxrt1160_example_crc_error_state \<and>
   mimxrt1160RxOwnership mimxrt1160_example_config
     (mimxrt1160_rxBufferDesc mimxrt1160_example_crc_error_state !
      mimxrt1160_rxBufferIndex mimxrt1160_example_crc_error_state) = software \<and>
   (mimxrt1160_rxBufferDesc mimxrt1160_example_crc_error_state !
      mimxrt1160_rxBufferIndex mimxrt1160_example_crc_error_state) ! 0
     AND mimxrt1160RxErrorMask mimxrt1160_example_config \<noteq> 0 \<and>
   fst (mimxrt1160Eth2ReceivePacket mimxrt1160_example_config mimxrt1160_example_crc_error_state)
     = ERROR_INVALID_PACKET \<and>
   mimxrt1160_processed
     (snd (mimxrt1160Eth2ReceivePacket mimxrt1160_example_config mimxrt1160_example_crc_error_state))
     = [] \<and>
   mimxrt1160RxOwnership mimxrt1160_example_config
     (mimxrt1160_rxBufferDesc
        (snd (mimxrt1160Eth2ReceivePacket mimxrt1160_example_config mimxrt1160_example_crc_error_state))
      ! 0) = hardware \<and>
   mimxrt1160_rxBufferIndex
     (snd (mimxrt1160Eth2ReceivePacket mimxrt1160_example_config mimxrt1160_example_crc_error_state))
     = 1"
proof -
  let ?m = mimxrt1160_example_config and ?t = mimxrt1160_example_crc_error_state
  have wf: "mimxrt1160_state_ok ?m ?t"
    by (simp add: mimxrt1160_state_ok_def mimxrt1160_example_crc_error_state_def
        mimxrt1160_blank_state_def mimxrt1160_example_config_def list_all_iff)
  have sw: "mimxrt1160RxOwnership ?m (mimxrt1160_rxBufferDesc ?t ! mimxrt1160_rxBufferIndex ?t) = software"
    by (simp add: mimxrt1160RxOwnership_def mimxrt1160_example_crc_error_state_def
        mimxrt1160_blank_state_def mimxrt1160_example_config_def)
  have err: "(mimxrt1160_rxBufferDesc ?t ! mimxrt1160_rxBufferIndex ?t) ! 0
      AND mimxrt1160RxErrorMask ?m \<noteq> 0"
    by (simp add: mimxrt1160RxErrorMask_def mimxrt1160_example_crc_error_state_def
        mimxrt1160_blank_state_def mimxrt1160_example_config_def)
  have ix: "mimxrt1160_rxBufferIndex ?t = 0" "mimxrt1160_processed ?t = []"
    "MIMXRT1160_ETH2_RX_BUFFER_COUNT ?m = 2"
    by (simp_all add: mimxrt1160_example_crc_error_state_def mimxrt1160_blank_state_def
        mimxrt1160_example_config_def)
  note r = mimxrt1160_receive_invalid_packet_and_release [of ?m ?t]
  from r mimxrt1160_example_config_ok wf sw err
  have inv: "fst (mimxrt1160Eth2ReceivePacket ?m ?t) = ERROR_INVALID_PACKET"
    and pr: "mimxrt1160_processed (snd (mimxrt1160Eth2ReceivePacket ?m ?t)) = []"
    by (simp_all add: ix)
  from inv have ne: "fst (mimxrt1160Eth2ReceivePacket ?m ?t) \<noteq> ERROR_BUFFER_EMPTY"
    by simp
  from r mimxrt1160_example_config_ok wf ne
  have "mimxrt1160RxOwnership ?m
      (mimxrt1160_rxBufferDesc (snd (mimxrt1160Eth2ReceivePacket ?m ?t)) ! 0) = hardware"
    and "mimxrt1160_rxBufferIndex (snd (mimxrt1160Eth2ReceivePacket ?m ?t)) = 1"
    by (simp_all add: ix)
  with mimxrt1160_example_config_ok wf sw err inv pr show ?thesis
    by simp
qed

section \<open>Properties of the management bus\<close>

text \<open>
  The busy-wait ends at the first read of the status register that shows the flag.
\<close>

lemma mdioWait_first:
  "\<forall>j < k. st (t + j) AND m = 0 \<Longrightarrow> st (t + k) AND m \<noteq> 0 \<Longrightarrow>
   mdioWait st m t = Some (t + k + 1)"
proof (induction k arbitrary: t)
  case 0
  then show ?case by (subst mdioWait.simps) simp
next
  case (Suc k)
  from Suc.prems(1) have now: "st t AND m = 0"
    by (metis add.right_neutral zero_less_Suc)
  have "\<forall>j < k. st (Suc t + j) AND m = 0"
    using Suc.prems(1) by (metis Suc_less_eq add_Suc_shift)
  moreover have "st (Suc t + k) AND m \<noteq> 0"
    using Suc.prems(2) by simp
  ultimately have "mdioWait st m (Suc t) = Some (Suc t + k + 1)"
    by (rule Suc.IH)
  with now show ?case by (subst mdioWait.simps) simp
qed

text \<open>A standard read on the example peripheral: the frame is written, four status reads.\<close>

lemma samv71_read_phy_standard_example:
  "samv71EthReadPhyReg smi_example_config samv71_mdio_example_config mdio_example_hw 2 1 3 =
     Some (0x1234, mdio_example_hw
       \<lparr>mdio_written := [(MDIO_GMAC_MAN, 0x608E0000)], mdio_time := 4\<rparr>)"
proof -
  have "mdioWait (mdio_status mdio_example_hw) 4 0 = Some (0 + 3 + 1)"
    by (rule mdioWait_first) (simp_all add: mdio_example_hw_def)
  then show ?thesis
    by (simp add: samv71EthReadPhyReg_def smi_example_config_def samv71_mdio_example_config_def
        mdio_example_hw_def Let_def)
qed

text \<open>
  C9. With an opcode other than \<^verbatim>\<open>SMI_OPCODE_READ\<close> the read functions return the value 0 and
  leave the peripheral as it was: no register is written and the status register is not
  read. With an opcode other than \<^verbatim>\<open>SMI_OPCODE_WRITE\<close> the write functions do nothing. The
  functions have no error result. Both drivers.
\<close>

theorem phy_other_opcode_is_noop:
  "(opcode \<noteq> SMI_OPCODE_READ smi \<longrightarrow>
      samv71EthReadPhyReg smi c hw opcode phyAddr regAddr = Some (0, hw) \<and>
      mimxrt1160Eth2ReadPhyReg smi m hw opcode phyAddr regAddr = Some (0, hw)) \<and>
   (opcode \<noteq> SMI_OPCODE_WRITE smi \<longrightarrow>
      samv71EthWritePhyReg smi c hw opcode phyAddr regAddr data = Some hw \<and>
      mimxrt1160Eth2WritePhyReg smi m hw opcode phyAddr regAddr data = Some hw)"
  by (simp add: samv71EthReadPhyReg_def mimxrt1160Eth2ReadPhyReg_def samv71EthWritePhyReg_def
      mimxrt1160Eth2WritePhyReg_def)

theorem phy_other_opcode_is_noop_witness:
  "(0 :: uint8_t) \<noteq> SMI_OPCODE_READ smi_example_config \<and>
   samv71EthReadPhyReg smi_example_config samv71_mdio_example_config mdio_example_hw 0 1 3 =
     Some (0, mdio_example_hw) \<and>
   mimxrt1160Eth2ReadPhyReg smi_example_config mimxrt1160_mdio_example_config mdio_example_hw 0 1 3 =
     Some (0, mdio_example_hw) \<and>
   (0 :: uint8_t) \<noteq> SMI_OPCODE_WRITE smi_example_config \<and>
   samv71EthWritePhyReg smi_example_config samv71_mdio_example_config mdio_example_hw 0 1 3 0xABCD =
     Some mdio_example_hw \<and>
   mimxrt1160Eth2WritePhyReg smi_example_config mimxrt1160_mdio_example_config mdio_example_hw 0 1 3 0xABCD =
     Some mdio_example_hw"
proof -
  have r: "(0 :: uint8_t) \<noteq> SMI_OPCODE_READ smi_example_config"
    and w: "(0 :: uint8_t) \<noteq> SMI_OPCODE_WRITE smi_example_config"
    by (simp_all add: smi_example_config_def)
  from r w phy_other_opcode_is_noop [of 0 smi_example_config samv71_mdio_example_config
      mdio_example_hw 1 3 mimxrt1160_mdio_example_config "0xABCD"]
  show ?thesis by blast
qed

section \<open>Properties of the CRC hash of the i.MX RT1160 filter\<close>








lemma top_six_bits:
  "drop_bit 26 (x :: uint32_t) AND 0x3F = drop_bit 26 x" "unat (drop_bit 26 x) < 64"
proof -
  have u: "unat (drop_bit 26 x) < 64"
  proof -
    have "unat (drop_bit 26 x) = drop_bit 26 (unat x)"
      by (rule unat_drop_bit_eq)
    also have "\<dots> = unat x div 2 ^ 26"
      by (rule drop_bit_eq_div)
    finally have "unat (drop_bit 26 x) = unat x div 2 ^ 26" .
    moreover have "unat x < 2 ^ 32"
      using unsigned_less [of x, where ?'a = nat] by simp
    ultimately show ?thesis
      by (simp add: less_mult_imp_div_less)
  qed
  then show "unat (drop_bit 26 x) < 64" .
  have "drop_bit 26 x < 2 ^ 6"
    using u by (simp add: word_less_nat_alt)
  then have "drop_bit 26 x AND mask 6 = drop_bit 26 x"
    by (rule less_mask_eq)
  then show "drop_bit 26 x AND 0x3F = drop_bit 26 x"
    by (simp add: mask_eq_exp_minus_1)
qed

lemma crc_bit_loop_numeral:
  "mimxrt1160CrcBitLoop (numeral k) crc =
     mimxrt1160CrcBitLoop (pred_numeral k)
       (if crc AND 0x01 \<noteq> 0 then drop_bit 1 crc XOR 0xEDB88320 else drop_bit 1 crc)"
  by (simp add: numeral_eq_Suc)





section \<open>Properties of the address filters\<close>

lemma setHashBit_length: "length (setHashBit ht h) = length ht"
  by (simp add: setHashBit_def)

lemma hashBit_setHashBit:
  assumes "length ht = 2" "h < 64" "k < 64"
  shows "hashBit (setHashBit ht h) k \<longleftrightarrow> hashBit ht k \<or> k = h"
proof (cases "k div 32 = h div 32")
  case True
  from assms have "h div 32 < length ht" by simp
  then have "hashBit (setHashBit ht h) k \<longleftrightarrow>
      bit (ht ! (h div 32) OR push_bit (h mod 32) (1 :: uint32_t)) (k mod 32)"
    by (simp add: hashBit_def setHashBit_def True)
  also have "\<dots> \<longleftrightarrow> bit (ht ! (h div 32)) (k mod 32) \<or> k mod 32 = h mod 32"
    by (auto simp add: bit_or_iff bit_push_bit_iff bit_1_iff bit_exp_iff)
  also have "\<dots> \<longleftrightarrow> hashBit ht k \<or> k = h"
    using True by (auto simp add: hashBit_def) (metis div_mult_mod_eq)
  finally show ?thesis .
next
  case False
  then have "k \<noteq> h" by auto
  with False show ?thesis
    by (simp add: hashBit_def setHashBit_def)
qed

lemma samv71MacHash_range: "samv71MacHash p < 64"
proof -
  have "unat (x AND (0x3F :: uint32_t)) < 64" for x
  proof -
    have "x AND 0x3F \<le> 0x3F" by (rule word_and_le1)
    then have "unat (x AND 0x3F) \<le> unat (0x3F :: uint32_t)" by (simp only: word_le_nat_alt)
    then show ?thesis by simp
  qed
  then show ?thesis by (simp add: samv71MacHash_def Let_def)
qed

lemma mimxrt1160MacHash_range: "mimxrt1160MacHash a < 64"
  by (simp add: mimxrt1160MacHash_def top_six_bits)

text \<open>
  The loop of the SAMV71 filter function, started with \<open>j\<close> unicast addresses already seen:
  the next unicast addresses fill the slots \<open>j, j + 1, ...\<close> below 3, and the hash table
  receives the multicast addresses and the unicast addresses that found no slot.
\<close>

lemma samv71_filter_fold:
  assumes "length uni = 3" "length ht = 2"
  shows "\<exists>uni' ht'.
      fold (samv71FilterStep mc) entries (j, uni, ht) =
        (j + length (activeUnicast mc entries), uni', ht') \<and>
      length uni' = 3 \<and> length ht' = 2 \<and>
      (\<forall>i < 3. uni' ! i =
         (if j \<le> i \<and> i < j + length (activeUnicast mc entries)
          then activeUnicast mc entries ! (i - j) else uni ! i)) \<and>
      (\<forall>k < 64. hashBit ht' k \<longleftrightarrow>
         hashBit ht k \<or>
         (\<exists>a \<in> set (activeMulticast mc entries) \<union> set (drop (3 - j) (activeUnicast mc entries)).
            samv71MacHash a = k))"
  using assms
proof (induction entries arbitrary: j uni ht)
  case Nil
  then show ?case by (auto simp add: activeUnicast_def activeMulticast_def)
next
  case (Cons e es)
  show ?case
  proof (cases "refCount e > 0")
    case False
    then have "samv71FilterStep mc e (j, uni, ht) = (j, uni, ht)"
      by (simp add: samv71FilterStep_def)
    moreover from False have "activeUnicast mc (e # es) = activeUnicast mc es"
      "activeMulticast mc (e # es) = activeMulticast mc es"
      by (simp_all add: activeUnicast_def activeMulticast_def)
    ultimately show ?thesis
      using Cons.IH [OF Cons.prems, of j] by (simp only: fold_simps o_apply)
  next
    case active: True
    show ?thesis
    proof (cases "mc (addr e)")
      case True
      let ?ht = "setHashBit ht (samv71MacHash (addr e))"
      from active True have step: "samv71FilterStep mc e (j, uni, ht) = (j, uni, ?ht)"
        by (simp add: samv71FilterStep_def)
      from active True have act: "activeUnicast mc (e # es) = activeUnicast mc es"
        "activeMulticast mc (e # es) = addr e # activeMulticast mc es"
        by (simp_all add: activeUnicast_def activeMulticast_def)
      have len: "length ?ht = 2"
        using Cons.prems by (simp add: setHashBit_length)
      from Cons.IH [OF Cons.prems(1) len, of j] obtain uni' ht' where
        r: "fold (samv71FilterStep mc) es (j, uni, ?ht) =
              (j + length (activeUnicast mc es), uni', ht')"
          "length uni' = 3" "length ht' = 2"
          "\<forall>i < 3. uni' ! i =
             (if j \<le> i \<and> i < j + length (activeUnicast mc es)
              then activeUnicast mc es ! (i - j) else uni ! i)"
          "\<forall>k < 64. hashBit ht' k \<longleftrightarrow>
             hashBit ?ht k \<or>
             (\<exists>a \<in> set (activeMulticast mc es) \<union> set (drop (3 - j) (activeUnicast mc es)).
                samv71MacHash a = k)"
        by blast
      have "\<forall>k < 64. hashBit ht' k \<longleftrightarrow>
             hashBit ht k \<or>
             (\<exists>a \<in> set (activeMulticast mc (e # es)) \<union> set (drop (3 - j) (activeUnicast mc (e # es))).
                samv71MacHash a = k)"
        using r(5) Cons.prems(2)
        by (auto simp add: act hashBit_setHashBit samv71MacHash_range)
      then have h: "\<forall>k < 64. hashBit ht' k \<longleftrightarrow>
             hashBit ht k \<or>
             (\<exists>a \<in> set (activeMulticast mc (e # es)) \<union> set (drop (3 - j) (activeUnicast mc (e # es))).
                samv71MacHash a = k)" .
      show ?thesis
        apply (simp only: fold_simps o_apply step)
        apply (rule exI [of _ uni'], rule exI [of _ ht'])
        using r(1-4) h apply (simp only: act)
        done
    next
      case False
      from active False have act: "activeUnicast mc (e # es) = addr e # activeUnicast mc es"
        "activeMulticast mc (e # es) = activeMulticast mc es"
        by (simp_all add: activeUnicast_def activeMulticast_def)
      show ?thesis
      proof (cases "j < 3")
        case True
        let ?uni = "uni[j := addr e]"
        from active False True have step: "samv71FilterStep mc e (j, uni, ht) = (j + 1, ?uni, ht)"
          by (simp add: samv71FilterStep_def)
        have len: "length ?uni = 3"
          using Cons.prems by simp
        from Cons.IH [OF len Cons.prems(2), of "j + 1"] obtain uni' ht' where
          r: "fold (samv71FilterStep mc) es (j + 1, ?uni, ht) =
                (j + 1 + length (activeUnicast mc es), uni', ht')"
            "length uni' = 3" "length ht' = 2"
            "\<forall>i < 3. uni' ! i =
               (if j + 1 \<le> i \<and> i < j + 1 + length (activeUnicast mc es)
                then activeUnicast mc es ! (i - (j + 1)) else ?uni ! i)"
            "\<forall>k < 64. hashBit ht' k \<longleftrightarrow>
               hashBit ht k \<or>
               (\<exists>a \<in> set (activeMulticast mc es) \<union> set (drop (3 - (j + 1)) (activeUnicast mc es)).
                  samv71MacHash a = k)"
          by blast
        have d: "drop (3 - j) (addr e # activeUnicast mc es) = drop (3 - (j + 1)) (activeUnicast mc es)"
        proof -
          from True have "3 - j = Suc (3 - (j + 1))" by simp
          then show ?thesis by (simp only: drop_Suc_Cons)
        qed
        have u: "\<forall>i < 3. uni' ! i =
               (if j \<le> i \<and> i < j + length (activeUnicast mc (e # es))
                then activeUnicast mc (e # es) ! (i - j) else uni ! i)"
        proof (intro allI impI)
          fix i :: nat
          assume i: "i < 3"
          show "uni' ! i =
               (if j \<le> i \<and> i < j + length (activeUnicast mc (e # es))
                then activeUnicast mc (e # es) ! (i - j) else uni ! i)"
          proof (cases "i = j")
            case True
            with r(4) i Cons.prems(1) show ?thesis
              by (simp add: act)
          next
            case False
            with r(4) i Cons.prems(1) show ?thesis
              by (auto simp add: act nth_Cons')
          qed
        qed
        have h: "\<forall>k < 64. hashBit ht' k \<longleftrightarrow>
               hashBit ht k \<or>
               (\<exists>a \<in> set (activeMulticast mc (e # es)) \<union>
                       set (drop (3 - j) (activeUnicast mc (e # es))).
                  samv71MacHash a = k)"
          using r(5) by (simp only: act d)
        have l: "j + 1 + length (activeUnicast mc es) = j + length (activeUnicast mc (e # es))"
          by (simp add: act)
        show ?thesis
          apply (simp only: fold_simps o_apply step)
          apply (rule exI [of _ uni'], rule exI [of _ ht'])
          using r(1-3) u h l apply simp
          done
      next
        case False
        let ?ht = "setHashBit ht (samv71MacHash (addr e))"
        from active \<open>\<not> mc (addr e)\<close> False
        have step: "samv71FilterStep mc e (j, uni, ht) = (j + 1, uni, ?ht)"
          by (simp add: samv71FilterStep_def)
        have len: "length ?ht = 2"
          using Cons.prems by (simp add: setHashBit_length)
        from Cons.IH [OF Cons.prems(1) len, of "j + 1"] obtain uni' ht' where
          r: "fold (samv71FilterStep mc) es (j + 1, uni, ?ht) =
                (j + 1 + length (activeUnicast mc es), uni', ht')"
            "length uni' = 3" "length ht' = 2"
            "\<forall>i < 3. uni' ! i =
               (if j + 1 \<le> i \<and> i < j + 1 + length (activeUnicast mc es)
                then activeUnicast mc es ! (i - (j + 1)) else uni ! i)"
            "\<forall>k < 64. hashBit ht' k \<longleftrightarrow>
               hashBit ?ht k \<or>
               (\<exists>a \<in> set (activeMulticast mc es) \<union> set (drop (3 - (j + 1)) (activeUnicast mc es)).
                  samv71MacHash a = k)"
          by blast
        from False have z: "3 - j = 0" "3 - (j + 1) = 0" "2 - j = 0" by simp_all
        have u: "\<forall>i < 3. uni' ! i =
               (if j \<le> i \<and> i < j + length (activeUnicast mc (e # es))
                then activeUnicast mc (e # es) ! (i - j) else uni ! i)"
          using r(4) False by simp
        have h: "\<forall>k < 64. hashBit ht' k \<longleftrightarrow>
               hashBit ht k \<or>
               (\<exists>a \<in> set (activeMulticast mc (e # es)) \<union>
                       set (drop (3 - j) (activeUnicast mc (e # es))).
                  samv71MacHash a = k)"
          using r(5) Cons.prems(2)
          by (auto simp add: act z hashBit_setHashBit samv71MacHash_range)
        have l: "j + 1 + length (activeUnicast mc es) = j + length (activeUnicast mc (e # es))"
          by (simp add: act)
        show ?thesis
          apply (simp only: fold_simps o_apply step)
          apply (rule exI [of _ uni'], rule exI [of _ ht'])
          using r(1-3) u h l apply simp
          done
      qed
    qed
  qed
qed

text \<open>The loop of the i.MX RT1160 filter function: every active address sets one bucket.\<close>

lemma mimxrt1160_filter_fold:
  assumes "length u = 2" "length g = 2"
  shows "\<exists>u' g'.
      fold (mimxrt1160FilterStep mc) entries (u, g) = (u', g') \<and>
      length u' = 2 \<and> length g' = 2 \<and>
      (\<forall>k < 64. hashBit u' k \<longleftrightarrow>
         hashBit u k \<or> (\<exists>a \<in> set (activeUnicast mc entries). mimxrt1160MacHash a = k)) \<and>
      (\<forall>k < 64. hashBit g' k \<longleftrightarrow>
         hashBit g k \<or> (\<exists>a \<in> set (activeMulticast mc entries). mimxrt1160MacHash a = k))"
  using assms
proof (induction entries arbitrary: u g)
  case Nil
  then show ?case by (simp add: activeUnicast_def activeMulticast_def)
next
  case (Cons e es)
  consider (idle) "\<not> refCount e > 0"
    | (multi) "refCount e > 0" "mc (addr e)"
    | (uni) "refCount e > 0" "\<not> mc (addr e)"
    by blast
  then show ?case
  proof cases
    case idle
    then have "mimxrt1160FilterStep mc e (u, g) = (u, g)"
      by (simp add: mimxrt1160FilterStep_def)
    moreover from idle have "activeUnicast mc (e # es) = activeUnicast mc es"
      "activeMulticast mc (e # es) = activeMulticast mc es"
      by (simp_all add: activeUnicast_def activeMulticast_def)
    ultimately show ?thesis
      using Cons.IH [OF Cons.prems] by (simp only: fold_simps o_apply)
  next
    case multi
    let ?g = "setHashBit g (mimxrt1160MacHash (addr e))"
    from multi have step: "mimxrt1160FilterStep mc e (u, g) = (u, ?g)"
      by (simp add: mimxrt1160FilterStep_def)
    from multi have act: "activeUnicast mc (e # es) = activeUnicast mc es"
      "activeMulticast mc (e # es) = addr e # activeMulticast mc es"
      by (simp_all add: activeUnicast_def activeMulticast_def)
    have len: "length ?g = 2"
      using Cons.prems by (simp add: setHashBit_length)
    from Cons.IH [OF Cons.prems(1) len] obtain u' g' where
      r: "fold (mimxrt1160FilterStep mc) es (u, ?g) = (u', g')" "length u' = 2" "length g' = 2"
        "\<forall>k < 64. hashBit u' k \<longleftrightarrow>
           hashBit u k \<or> (\<exists>a \<in> set (activeUnicast mc es). mimxrt1160MacHash a = k)"
        "\<forall>k < 64. hashBit g' k \<longleftrightarrow>
           hashBit ?g k \<or> (\<exists>a \<in> set (activeMulticast mc es). mimxrt1160MacHash a = k)"
      by blast
    have h: "\<forall>k < 64. hashBit g' k \<longleftrightarrow>
           hashBit g k \<or> (\<exists>a \<in> set (activeMulticast mc (e # es)). mimxrt1160MacHash a = k)"
      using r(5) Cons.prems(2)
      by (auto simp add: act hashBit_setHashBit mimxrt1160MacHash_range)
    show ?thesis
      apply (simp only: fold_simps o_apply step)
      apply (rule exI [of _ u'], rule exI [of _ g'])
      using r(1-4) h apply (simp only: act)
      done
  next
    case uni
    let ?u = "setHashBit u (mimxrt1160MacHash (addr e))"
    from uni have step: "mimxrt1160FilterStep mc e (u, g) = (?u, g)"
      by (simp add: mimxrt1160FilterStep_def)
    from uni have act: "activeUnicast mc (e # es) = addr e # activeUnicast mc es"
      "activeMulticast mc (e # es) = activeMulticast mc es"
      by (simp_all add: activeUnicast_def activeMulticast_def)
    have len: "length ?u = 2"
      using Cons.prems by (simp add: setHashBit_length)
    from Cons.IH [OF len Cons.prems(2)] obtain u' g' where
      r: "fold (mimxrt1160FilterStep mc) es (?u, g) = (u', g')" "length u' = 2" "length g' = 2"
        "\<forall>k < 64. hashBit u' k \<longleftrightarrow>
           hashBit ?u k \<or> (\<exists>a \<in> set (activeUnicast mc es). mimxrt1160MacHash a = k)"
        "\<forall>k < 64. hashBit g' k \<longleftrightarrow>
           hashBit g k \<or> (\<exists>a \<in> set (activeMulticast mc es). mimxrt1160MacHash a = k)"
      by blast
    have h: "\<forall>k < 64. hashBit u' k \<longleftrightarrow>
           hashBit u k \<or> (\<exists>a \<in> set (activeUnicast mc (e # es)). mimxrt1160MacHash a = k)"
      using r(4) Cons.prems(1)
      by (auto simp add: act hashBit_setHashBit mimxrt1160MacHash_range)
    show ?thesis
      apply (simp only: fold_simps o_apply step)
      apply (rule exI [of _ u'], rule exI [of _ g'])
      using r(1-3) h r(5) apply (simp only: act)
      done
  qed
qed

lemma hashBit_zero: "k < 64 \<Longrightarrow> \<not> hashBit [0, 0] k"
proof -
  assume "k < 64"
  then have "k div 32 = 0 \<or> k div 32 = 1" by auto
  then show ?thesis by (auto simp add: hashBit_def)
qed

lemma two_words: "length ht = 2 \<Longrightarrow> [ht ! 0, ht ! 1] = (ht :: uint32_t list)"
  by (cases ht; cases "tl ht") auto

text \<open>What the two loops compute from the table of an interface.\<close>

lemma samv71_filter_loop:
  "\<exists>uni ht.
     samv71FilterLoop mc unspec entries = (length (activeUnicast mc entries), uni, ht) \<and>
     length uni = 3 \<and> length ht = 2 \<and>
     (\<forall>i < 3. uni ! i =
        (if i < length (activeUnicast mc entries) then activeUnicast mc entries ! i else unspec)) \<and>
     (\<forall>k < 64. hashBit ht k \<longleftrightarrow>
        (\<exists>a \<in> set (activeMulticast mc entries) \<union> set (drop 3 (activeUnicast mc entries)).
           samv71MacHash a = k))"
proof -
  have "length [unspec, unspec, unspec] = 3" "length [0, 0 :: uint32_t] = 2"
    by simp_all
  from samv71_filter_fold [OF this, of mc entries 0] obtain uni ht where
    r: "fold (samv71FilterStep mc) entries (0, [unspec, unspec, unspec], [0, 0]) =
          (0 + length (activeUnicast mc entries), uni, ht)"
      "length uni = 3" "length ht = 2"
      "\<forall>i < 3. uni ! i =
         (if 0 \<le> i \<and> i < 0 + length (activeUnicast mc entries)
          then activeUnicast mc entries ! (i - 0) else [unspec, unspec, unspec] ! i)"
      "\<forall>k < 64. hashBit ht k \<longleftrightarrow>
         hashBit [0, 0] k \<or>
         (\<exists>a \<in> set (activeMulticast mc entries) \<union> set (drop (3 - 0) (activeUnicast mc entries)).
            samv71MacHash a = k)"
    by blast
  have u: "\<forall>i < 3. uni ! i =
        (if i < length (activeUnicast mc entries) then activeUnicast mc entries ! i else unspec)"
  proof (intro allI impI)
    fix i :: nat
    assume i: "i < 3"
    then have "i = 0 \<or> i = 1 \<or> i = 2" by auto
    then have "[unspec, unspec, unspec] ! i = unspec" by auto
    with r(4) i show "uni ! i =
        (if i < length (activeUnicast mc entries) then activeUnicast mc entries ! i else unspec)"
      by simp
  qed
  have h: "\<forall>k < 64. hashBit ht k \<longleftrightarrow>
        (\<exists>a \<in> set (activeMulticast mc entries) \<union> set (drop 3 (activeUnicast mc entries)).
           samv71MacHash a = k)"
    using r(5) by (simp add: hashBit_zero)
  from r(1-3) u h show ?thesis
    by (simp add: samv71FilterLoop_def)
qed

lemma mimxrt1160_filter_loop:
  "\<exists>u g.
     mimxrt1160FilterLoop mc entries = (u, g) \<and> length u = 2 \<and> length g = 2 \<and>
     (\<forall>k < 64. hashBit u k \<longleftrightarrow> (\<exists>a \<in> set (activeUnicast mc entries). mimxrt1160MacHash a = k)) \<and>
     (\<forall>k < 64. hashBit g k \<longleftrightarrow> (\<exists>a \<in> set (activeMulticast mc entries). mimxrt1160MacHash a = k))"
proof -
  have "length [0, 0 :: uint32_t] = 2"
    by simp
  from mimxrt1160_filter_fold [OF this this, of mc entries] show ?thesis
    by (simp add: mimxrt1160FilterLoop_def hashBit_zero)
qed

text \<open>The registers after the SAMV71 filter function, in terms of the result of its loop.\<close>

lemma samv71_filter_registers:
  fixes unihen :: uint32_t and regs :: "gmac_filter_reg \<Rightarrow> uint32_t"
  assumes "samv71FilterLoop mc unspec (macAddrFilter iface) = (j, uni, ht)"
  defines "r \<equiv> snd (samv71EthUpdateMacAddrFilter mc unspec unihen iface regs)"
  shows "r GMAC_HRB = ht ! 0" and "r GMAC_HRT = ht ! 1"
    and "1 \<le> n \<Longrightarrow> n \<le> 3 \<Longrightarrow> n \<le> j \<Longrightarrow>
           r (GMAC_SAB n) = macAddrW (uni ! (n - 1)) 0 OR push_bit 16 (macAddrW (uni ! (n - 1)) 1)"
    and "1 \<le> n \<Longrightarrow> n \<le> 3 \<Longrightarrow> n \<le> j \<Longrightarrow> r (GMAC_SAT n) = macAddrW (uni ! (n - 1)) 2"
    and "1 \<le> n \<Longrightarrow> n \<le> 3 \<Longrightarrow> \<not> n \<le> j \<Longrightarrow> r (GMAC_SAB n) = 0"
proof -
  show "r GMAC_HRB = ht ! 0" and "r GMAC_HRT = ht ! 1"
    using assms(1) by (simp_all add: r_def samv71EthUpdateMacAddrFilter_def Let_def)
  have n: "n = 1 \<or> n = 2 \<or> n = 3" if "1 \<le> n" "n \<le> 3"
    using that by auto
  show "r (GMAC_SAB n) = macAddrW (uni ! (n - 1)) 0 OR push_bit 16 (macAddrW (uni ! (n - 1)) 1)"
    if "1 \<le> n" "n \<le> 3" "n \<le> j"
    using n [OF that(1,2)] that(3) assms(1)
    by (auto simp add: r_def samv71EthUpdateMacAddrFilter_def samv71WriteUnicastFilter_def Let_def)
  show "r (GMAC_SAT n) = macAddrW (uni ! (n - 1)) 2"
    if "1 \<le> n" "n \<le> 3" "n \<le> j"
    using n [OF that(1,2)] that(3) assms(1)
    by (auto simp add: r_def samv71EthUpdateMacAddrFilter_def samv71WriteUnicastFilter_def Let_def)
  show "r (GMAC_SAB n) = 0"
    if "1 \<le> n" "n \<le> 3" "\<not> n \<le> j"
    using n [OF that(1,2)] that(3) assms(1)
    by (auto simp add: r_def samv71EthUpdateMacAddrFilter_def samv71WriteUnicastFilter_def Let_def)
qed

text \<open>
  C5, as the code has it. The SAMV71 filter function puts every active multicast address
  into the hash table; the first three active unicast addresses of the table go to the
  three exact-match registers after the station address (a register without an address is
  switched off), and only the active unicast addresses after the third go to the hash
  table. The i.MX RT1160 has no exact-match register besides the station address: its
  filter function puts every active unicast address into the individual hash table and
  every active multicast address into the group hash table. Entries with a reference count
  of zero are ignored by both.
\<close>

theorem filter_update_routing:
  "(\<forall>k < 64.
      hashBit [snd (samv71EthUpdateMacAddrFilter mc unspec unihen iface regs) GMAC_HRB,
               snd (samv71EthUpdateMacAddrFilter mc unspec unihen iface regs) GMAC_HRT] k \<longleftrightarrow>
      (\<exists>a \<in> set (activeMulticast mc (macAddrFilter iface)) \<union>
              set (drop 3 (activeUnicast mc (macAddrFilter iface))). samv71MacHash a = k)) \<and>
   (\<forall>n. 1 \<le> n \<and> n \<le> 3 \<longrightarrow>
      (if n \<le> length (activeUnicast mc (macAddrFilter iface)) then
         snd (samv71EthUpdateMacAddrFilter mc unspec unihen iface regs) (GMAC_SAB n) =
           macAddrW (activeUnicast mc (macAddrFilter iface) ! (n - 1)) 0 OR
           push_bit 16 (macAddrW (activeUnicast mc (macAddrFilter iface) ! (n - 1)) 1) \<and>
         snd (samv71EthUpdateMacAddrFilter mc unspec unihen iface regs) (GMAC_SAT n) =
           macAddrW (activeUnicast mc (macAddrFilter iface) ! (n - 1)) 2
       else snd (samv71EthUpdateMacAddrFilter mc unspec unihen iface regs) (GMAC_SAB n) = 0)) \<and>
   (\<forall>k < 64.
      hashBit [snd (mimxrt1160Eth2UpdateMacAddrFilter mc paddr2 ptype paddr1 iface eregs) ENET_IALR,
               snd (mimxrt1160Eth2UpdateMacAddrFilter mc paddr2 ptype paddr1 iface eregs) ENET_IAUR] k \<longleftrightarrow>
      (\<exists>a \<in> set (activeUnicast mc (macAddrFilter iface)). mimxrt1160MacHash a = k)) \<and>
   (\<forall>k < 64.
      hashBit [snd (mimxrt1160Eth2UpdateMacAddrFilter mc paddr2 ptype paddr1 iface eregs) ENET_GALR,
               snd (mimxrt1160Eth2UpdateMacAddrFilter mc paddr2 ptype paddr1 iface eregs) ENET_GAUR] k \<longleftrightarrow>
      (\<exists>a \<in> set (activeMulticast mc (macAddrFilter iface)). mimxrt1160MacHash a = k))"
proof -
  let ?ucs = "activeUnicast mc (macAddrFilter iface)"
  let ?mcs = "activeMulticast mc (macAddrFilter iface)"
  let ?r = "snd (samv71EthUpdateMacAddrFilter mc unspec unihen iface regs)"
  let ?e = "snd (mimxrt1160Eth2UpdateMacAddrFilter mc paddr2 ptype paddr1 iface eregs)"
  from samv71_filter_loop [of mc unspec "macAddrFilter iface"] obtain uni ht where
    l: "samv71FilterLoop mc unspec (macAddrFilter iface) = (length ?ucs, uni, ht)"
      "length uni = 3" "length ht = 2"
      "\<forall>i < 3. uni ! i = (if i < length ?ucs then ?ucs ! i else unspec)"
      "\<forall>k < 64. hashBit ht k \<longleftrightarrow> (\<exists>a \<in> set ?mcs \<union> set (drop 3 ?ucs). samv71MacHash a = k)"
    by blast
  note regs = samv71_filter_registers [OF l(1), where unihen = unihen and regs = regs]
  have "[?r GMAC_HRB, ?r GMAC_HRT] = ht"
    using two_words [OF l(3)] by (simp add: regs(1,2))
  with l(5) have a: "\<forall>k < 64. hashBit [?r GMAC_HRB, ?r GMAC_HRT] k \<longleftrightarrow>
      (\<exists>a \<in> set ?mcs \<union> set (drop 3 ?ucs). samv71MacHash a = k)"
    by simp
  have b: "\<forall>n. 1 \<le> n \<and> n \<le> 3 \<longrightarrow>
      (if n \<le> length ?ucs then
         ?r (GMAC_SAB n) = macAddrW (?ucs ! (n - 1)) 0 OR push_bit 16 (macAddrW (?ucs ! (n - 1)) 1) \<and>
         ?r (GMAC_SAT n) = macAddrW (?ucs ! (n - 1)) 2
       else ?r (GMAC_SAB n) = 0)"
  proof (intro allI impI)
    fix n :: nat
    assume n: "1 \<le> n \<and> n \<le> 3"
    show "if n \<le> length ?ucs then
         ?r (GMAC_SAB n) = macAddrW (?ucs ! (n - 1)) 0 OR push_bit 16 (macAddrW (?ucs ! (n - 1)) 1) \<and>
         ?r (GMAC_SAT n) = macAddrW (?ucs ! (n - 1)) 2
       else ?r (GMAC_SAB n) = 0"
    proof (cases "n \<le> length ?ucs")
      case True
      with n l(4) have "uni ! (n - 1) = ?ucs ! (n - 1)"
        by (auto simp add: less_Suc_eq_le)
      with True n regs(3,4) [where n = n] show ?thesis
        by simp
    next
      case False
      with n regs(5) [where n = n] show ?thesis
        by simp
    qed
  qed
  from mimxrt1160_filter_loop [of mc "macAddrFilter iface"] obtain u g where
    m: "mimxrt1160FilterLoop mc (macAddrFilter iface) = (u, g)" "length u = 2" "length g = 2"
      "\<forall>k < 64. hashBit u k \<longleftrightarrow> (\<exists>a \<in> set ?ucs. mimxrt1160MacHash a = k)"
      "\<forall>k < 64. hashBit g k \<longleftrightarrow> (\<exists>a \<in> set ?mcs. mimxrt1160MacHash a = k)"
    by blast
  have "[?e ENET_IALR, ?e ENET_IAUR] = u" "[?e ENET_GALR, ?e ENET_GAUR] = g"
    using two_words [OF m(2)] two_words [OF m(3)] m(1)
    by (simp_all add: mimxrt1160Eth2UpdateMacAddrFilter_def Let_def)
  with m(4,5) have c: "\<forall>k < 64. hashBit [?e ENET_IALR, ?e ENET_IAUR] k \<longleftrightarrow>
      (\<exists>a \<in> set ?ucs. mimxrt1160MacHash a = k)"
    and d: "\<forall>k < 64. hashBit [?e ENET_GALR, ?e ENET_GAUR] k \<longleftrightarrow>
      (\<exists>a \<in> set ?mcs. mimxrt1160MacHash a = k)"
    by simp_all
  from a b c d show ?thesis
    by (intro conjI)
qed

lemma example_unicast_crc:
  "mimxrt1160Eth2CalcCrc [0x00, 0x11, 0x22, 0x33, 0x44, 0x55] 6 = 0xB0BFF368"
proof -
  have b0: "mimxrt1160CrcBitLoop 8 0xFFFFFFFF = 0x2DFD1072"
    by (simp add: crc_bit_loop_numeral)
  have b1: "mimxrt1160CrcBitLoop 8 0x2DFD1063 = 0xD496CDF2"
    by (simp add: crc_bit_loop_numeral)
  have b2: "mimxrt1160CrcBitLoop 8 0xD496CDD0 = 0x86074419"
    by (simp add: crc_bit_loop_numeral)
  have b3: "mimxrt1160CrcBitLoop 8 0x8607442A = 0xDB3DCE92"
    by (simp add: crc_bit_loop_numeral)
  have b4: "mimxrt1160CrcBitLoop 8 0xDB3DCED6 = 0x6F6B4A2F"
    by (simp add: crc_bit_loop_numeral)
  have b5: "mimxrt1160CrcBitLoop 8 0x6F6B4A7A = 0xB0BFF368"
    by (simp add: crc_bit_loop_numeral)
  have idx: "[0..<6] = [0, 1, 2, 3, 4, 5 :: nat]"
    by code_simp
  show ?thesis
    unfolding mimxrt1160Eth2CalcCrc_def idx
    by (simp add: b0 b1 b2 b3 b4 b5)
qed

lemma example_unicast_hash:
  "mimxrt1160MacHash [0x00, 0x11, 0x22, 0x33, 0x44, 0x55] = 44"
  by (simp add: mimxrt1160MacHash_def example_unicast_crc)

lemma example_active:
  "activeUnicast example_macIsMulticastAddr example_unicast_table =
     [[0x00, 0x11, 0x22, 0x33, 0x44, 0x55]]"
  "activeMulticast example_macIsMulticastAddr example_unicast_table = []"
  by (simp_all add: activeUnicast_def activeMulticast_def example_macIsMulticastAddr_def
      example_unicast_table_def)

text \<open>
  The claim as it was stated fails for the i.MX RT1160. With one active unicast address in
  the table no exact-match slot is in use, and still the filter loop of the i.MX RT1160 sets
  bucket 44 of its individual hash table for it (register \<^verbatim>\<open>IAUR\<close> becomes \<open>0x1000\<close>). The
  loop of the SAMV71 puts the same address into its first slot and leaves the hash table
  empty.
\<close>

theorem filter_unicast_goes_to_hash_counterexample:
  "activeUnicast example_macIsMulticastAddr example_unicast_table =
     [[0x00, 0x11, 0x22, 0x33, 0x44, 0x55]] \<and>
   mimxrt1160FilterLoop example_macIsMulticastAddr example_unicast_table = ([0, 0x1000], [0, 0]) \<and>
   hashBit [0, 0x1000] 44 \<and>
   snd (mimxrt1160Eth2UpdateMacAddrFilter example_macIsMulticastAddr (\<lambda>v. v) (\<lambda>v. push_bit 16 v)
          (\<lambda>v. v) example_interface (\<lambda>r. 0)) ENET_IAUR = 0x1000 \<and>
   samv71FilterLoop example_macIsMulticastAddr example_MAC_UNSPECIFIED_ADDR example_unicast_table =
     (1, [[0x00, 0x11, 0x22, 0x33, 0x44, 0x55], example_MAC_UNSPECIFIED_ADDR,
          example_MAC_UNSPECIFIED_ADDR], [0, 0])"
proof -
  have l: "mimxrt1160FilterLoop example_macIsMulticastAddr example_unicast_table = ([0, 0x1000], [0, 0])"
    by (simp add: mimxrt1160FilterLoop_def mimxrt1160FilterStep_def example_unicast_table_def
        example_macIsMulticastAddr_def example_unicast_hash setHashBit_def)
  have h: "hashBit [0, 0x1000] 44"
    by (simp add: hashBit_def bit_iff_odd)
  have r: "snd (mimxrt1160Eth2UpdateMacAddrFilter example_macIsMulticastAddr (\<lambda>v. v) (\<lambda>v. push_bit 16 v)
          (\<lambda>v. v) example_interface (\<lambda>r. 0)) ENET_IAUR = 0x1000"
    using l by (simp add: mimxrt1160Eth2UpdateMacAddrFilter_def example_interface_def Let_def)
  have s: "samv71FilterLoop example_macIsMulticastAddr example_MAC_UNSPECIFIED_ADDR example_unicast_table =
     (1, [[0x00, 0x11, 0x22, 0x33, 0x44, 0x55], example_MAC_UNSPECIFIED_ADDR,
          example_MAC_UNSPECIFIED_ADDR], [0, 0])"
    by (simp add: samv71FilterLoop_def samv71FilterStep_def example_unicast_table_def
        example_macIsMulticastAddr_def)
  from example_active(1) l h r s show ?thesis
    by (intro conjI)
qed

theorem filter_update_routing_witness:
  "(44 :: nat) < 64 \<and>
   hashBit
     [snd (mimxrt1160Eth2UpdateMacAddrFilter example_macIsMulticastAddr (\<lambda>v. v) (\<lambda>v. push_bit 16 v)
             (\<lambda>v. v) example_interface (\<lambda>r. 0)) ENET_IALR,
      snd (mimxrt1160Eth2UpdateMacAddrFilter example_macIsMulticastAddr (\<lambda>v. v) (\<lambda>v. push_bit 16 v)
             (\<lambda>v. v) example_interface (\<lambda>r. 0)) ENET_IAUR] 44 \<and>
   (1 :: nat) \<le> 1 \<and> (1 :: nat) \<le> 3 \<and>
   1 \<le> length (activeUnicast example_macIsMulticastAddr (macAddrFilter example_interface)) \<and>
   snd (samv71EthUpdateMacAddrFilter example_macIsMulticastAddr example_MAC_UNSPECIFIED_ADDR 0x80
          example_interface (\<lambda>r. 0)) (GMAC_SAB 1) = 0x33221100 \<and>
   snd (samv71EthUpdateMacAddrFilter example_macIsMulticastAddr example_MAC_UNSPECIFIED_ADDR 0x80
          example_interface (\<lambda>r. 0)) (GMAC_SAT 1) = 0x5544 \<and>
   \<not> hashBit
     [snd (samv71EthUpdateMacAddrFilter example_macIsMulticastAddr example_MAC_UNSPECIFIED_ADDR 0x80
             example_interface (\<lambda>r. 0)) GMAC_HRB,
      snd (samv71EthUpdateMacAddrFilter example_macIsMulticastAddr example_MAC_UNSPECIFIED_ADDR 0x80
             example_interface (\<lambda>r. 0)) GMAC_HRT] 44"
proof -
  let ?mc = example_macIsMulticastAddr
  note t = filter_update_routing [of ?mc example_MAC_UNSPECIFIED_ADDR "0x80" example_interface
      "\<lambda>r. 0" "\<lambda>v. v" "\<lambda>v. push_bit 16 v" "\<lambda>v. v" "\<lambda>r. 0"]
  have tab: "macAddrFilter example_interface = example_unicast_table"
    by (simp add: example_interface_def)
  have a: "hashBit
     [snd (mimxrt1160Eth2UpdateMacAddrFilter ?mc (\<lambda>v. v) (\<lambda>v. push_bit 16 v)
             (\<lambda>v. v) example_interface (\<lambda>r. 0)) ENET_IALR,
      snd (mimxrt1160Eth2UpdateMacAddrFilter ?mc (\<lambda>v. v) (\<lambda>v. push_bit 16 v)
             (\<lambda>v. v) example_interface (\<lambda>r. 0)) ENET_IAUR] 44"
    using t by (simp add: tab example_active example_unicast_hash)
  have b: "\<not> hashBit
     [snd (samv71EthUpdateMacAddrFilter ?mc example_MAC_UNSPECIFIED_ADDR 0x80
             example_interface (\<lambda>r. 0)) GMAC_HRB,
      snd (samv71EthUpdateMacAddrFilter ?mc example_MAC_UNSPECIFIED_ADDR 0x80
             example_interface (\<lambda>r. 0)) GMAC_HRT] 44"
    using t by (simp add: tab example_active)
  from t have "\<forall>n. 1 \<le> n \<and> n \<le> 3 \<longrightarrow>
      (if n \<le> length (activeUnicast ?mc (macAddrFilter example_interface)) then
         snd (samv71EthUpdateMacAddrFilter ?mc example_MAC_UNSPECIFIED_ADDR 0x80 example_interface
                (\<lambda>r. 0)) (GMAC_SAB n) =
           macAddrW (activeUnicast ?mc (macAddrFilter example_interface) ! (n - 1)) 0 OR
           push_bit 16 (macAddrW (activeUnicast ?mc (macAddrFilter example_interface) ! (n - 1)) 1) \<and>
         snd (samv71EthUpdateMacAddrFilter ?mc example_MAC_UNSPECIFIED_ADDR 0x80 example_interface
                (\<lambda>r. 0)) (GMAC_SAT n) =
           macAddrW (activeUnicast ?mc (macAddrFilter example_interface) ! (n - 1)) 2
       else snd (samv71EthUpdateMacAddrFilter ?mc example_MAC_UNSPECIFIED_ADDR 0x80 example_interface
                (\<lambda>r. 0)) (GMAC_SAB n) = 0)"
    by blast
  from this [rule_format, of 1]
  have c: "snd (samv71EthUpdateMacAddrFilter ?mc example_MAC_UNSPECIFIED_ADDR 0x80
          example_interface (\<lambda>r. 0)) (GMAC_SAB 1) = 0x33221100"
    and d: "snd (samv71EthUpdateMacAddrFilter ?mc example_MAC_UNSPECIFIED_ADDR 0x80
          example_interface (\<lambda>r. 0)) (GMAC_SAT 1) = 0x5544"
    by (simp_all add: tab example_active macAddrW_def)
  from a b c d show ?thesis
    by (simp add: tab example_active)
qed

section \<open>Properties of the receive path of the SAMV71\<close>

lemma slot_code:
  assumes "r < n" "i < n"
  shows "(let j = r + i; j = (if j \<ge> n then j - n else j) in j) = (r + i) mod (n :: nat)"
  using assms by (simp add: Let_def mod_if)

lemma slot_inj:
  assumes "r < n" "i < n" "k < n" "(r + i) mod n = (r + k) mod (n :: nat)"
  shows "i = k"
  using assms by (auto simp add: mod_if split: if_splits)

lemma samv71_scan_loop_list:
  assumes "samv71_rxBufferIndex s < SAMV71_ETH_RX_BUFFER_COUNT c"
  shows "i \<le> SAMV71_ETH_RX_BUFFER_COUNT c \<Longrightarrow>
     samv71ScanLoop c s i sofIndex =
       samv71ScanList c
         (map (\<lambda>t. samv71_rxBufferDesc s ! samv71RxSlot c s t) [i..<SAMV71_ETH_RX_BUFFER_COUNT c])
         i sofIndex"
proof (induction "SAMV71_ETH_RX_BUFFER_COUNT c - i" arbitrary: i sofIndex)
  case 0
  then have "i = SAMV71_ETH_RX_BUFFER_COUNT c" by simp
  then show ?case
    by (subst samv71ScanLoop.simps) simp
next
  case (Suc m)
  then have lt: "i < SAMV71_ETH_RX_BUFFER_COUNT c" by simp
  have slot: "(if samv71_rxBufferIndex s + i \<ge> SAMV71_ETH_RX_BUFFER_COUNT c
               then samv71_rxBufferIndex s + i - SAMV71_ETH_RX_BUFFER_COUNT c
               else samv71_rxBufferIndex s + i) = samv71RxSlot c s i"
    using slot_code [OF assms lt] by (simp add: Let_def samv71RxSlot_def)
  have ih: "samv71ScanLoop c s (Suc i) sof' =
      samv71ScanList c
        (map (\<lambda>t. samv71_rxBufferDesc s ! samv71RxSlot c s t) [Suc i..<SAMV71_ETH_RX_BUFFER_COUNT c])
        (Suc i) sof'" for sof'
    using Suc.hyps(1) [of "Suc i" sof'] Suc.hyps(2) lt by simp
  have up: "[i..<SAMV71_ETH_RX_BUFFER_COUNT c] = i # [Suc i..<SAMV71_ETH_RX_BUFFER_COUNT c]"
    using lt by (simp add: upt_conv_Cons)
  show ?case
    apply (subst samv71ScanLoop.simps)
    apply (simp only: up list.map samv71ScanList.simps)
    using lt apply (simp add: Let_def slot ih del: samv71ScanLoop.simps)
    done
qed

text \<open>The pending start is the position of the last start-of-frame entry, if there is one.\<close>

lemma samv71PendingStart_none:
  "\<not> list_ex (samv71RxSof c) ds \<Longrightarrow> samv71PendingStart c ds = length ds"
  by (induction ds) auto

lemma samv71PendingStart_last:
  "list_ex (samv71RxSof c) ds \<Longrightarrow>
   samv71PendingStart c ds < length ds \<and> samv71RxSof c (ds ! samv71PendingStart c ds) \<and>
   (\<forall>i. samv71PendingStart c ds < i \<and> i < length ds \<longrightarrow> \<not> samv71RxSof c (ds ! i))"
proof (induction ds)
  case Nil
  then show ?case by simp
next
  case (Cons d ds)
  show ?case
  proof (cases "list_ex (samv71RxSof c) ds")
    case True
    with Cons.IH show ?thesis
      by (auto simp add: nth_Cons split: nat.splits)
  next
    case False
    with Cons.prems have "samv71RxSof c d" by simp
    moreover from False have "\<forall>i < length ds. \<not> samv71RxSof c (ds ! i)"
      by (auto simp add: list_ex_iff)
    ultimately show ?thesis
      using False by (auto simp add: nth_Cons split: nat.splits)
  qed
qed

lemma samv71PendingStart_le: "samv71PendingStart c ds \<le> length ds"
  using samv71PendingStart_none [of c ds] samv71PendingStart_last [of c ds]
  by (cases "list_ex (samv71RxSof c) ds") auto

text \<open>
  The scan on a list of entries, when no end of frame in the released prefix comes after a
  start of frame: the scan stops at the end of the prefix, finds no end of frame, and its
  start index is that of the last start of frame.
\<close>

lemma samv71_scan_list_no_run:
  assumes "i + length ds < UINT_MAX"
    and "\<forall>b < length (takeWhile (\<lambda>d. samv71RxOwnership c d = software) ds).
           samv71RxEof c (takeWhile (\<lambda>d. samv71RxOwnership c d = software) ds ! b) \<longrightarrow>
           sofIndex = UINT_MAX \<and>
           (\<forall>a \<le> b. \<not> samv71RxSof c (takeWhile (\<lambda>d. samv71RxOwnership c d = software) ds ! a))"
  shows "samv71ScanList c ds i sofIndex =
     (i + length (takeWhile (\<lambda>d. samv71RxOwnership c d = software) ds),
      (if list_ex (samv71RxSof c) (takeWhile (\<lambda>d. samv71RxOwnership c d = software) ds)
       then i + samv71PendingStart c (takeWhile (\<lambda>d. samv71RxOwnership c d = software) ds)
       else sofIndex),
      UINT_MAX, 0)"
  using assms
proof (induction ds arbitrary: i sofIndex)
  case Nil
  then show ?case by simp
next
  case (Cons d ds)
  let ?rel = "\<lambda>d. samv71RxOwnership c d = software"
  show ?case
  proof (cases "?rel d")
    case False
    then show ?thesis
      by (simp add: samv71RxOwnership_def split: if_splits)
  next
    case True
    then have own: "address d AND GMAC_RX_OWNERSHIP c \<noteq> 0"
      by (simp add: samv71RxOwnership_def split: if_splits)
    from True have tw: "takeWhile ?rel (d # ds) = d # takeWhile ?rel ds"
      by simp
    let ?tw = "takeWhile ?rel ds"
    let ?sof = "if status d AND GMAC_RX_SOF c \<noteq> 0 then i else sofIndex"
    from Cons.prems(2) have nr: "\<forall>b < length (d # ?tw). samv71RxEof c ((d # ?tw) ! b) \<longrightarrow>
        sofIndex = UINT_MAX \<and> (\<forall>a \<le> b. \<not> samv71RxSof c ((d # ?tw) ! a))"
      by (simp only: tw)
    have noeof: "\<not> (status d AND GMAC_RX_EOF c \<noteq> 0 \<and> ?sof \<noteq> UINT_MAX)"
    proof
      assume e: "status d AND GMAC_RX_EOF c \<noteq> 0 \<and> ?sof \<noteq> UINT_MAX"
      then have "samv71RxEof c ((d # ?tw) ! 0)"
        by (simp add: samv71RxEof_def)
      with nr have "sofIndex = UINT_MAX" "\<not> samv71RxSof c d"
        by force+
      with e show False
        by (simp add: samv71RxSof_def)
    qed
    have nr': "\<forall>b < length ?tw. samv71RxEof c (?tw ! b) \<longrightarrow>
        ?sof = UINT_MAX \<and> (\<forall>a \<le> b. \<not> samv71RxSof c (?tw ! a))"
    proof (intro allI impI)
      fix b
      assume b: "b < length ?tw" and e: "samv71RxEof c (?tw ! b)"
      from nr [rule_format, of "Suc b"] b e
      have 1: "sofIndex = UINT_MAX" and 2: "\<forall>a \<le> Suc b. \<not> samv71RxSof c ((d # ?tw) ! a)"
        by simp_all
      from 2 [rule_format, of 0] have "\<not> samv71RxSof c d" by simp
      with 1 have "?sof = UINT_MAX"
        by (simp add: samv71RxSof_def)
      moreover have "\<forall>a \<le> b. \<not> samv71RxSof c (?tw ! a)"
      proof (intro allI impI)
        fix a assume "a \<le> b"
        with 2 [rule_format, of "Suc a"] show "\<not> samv71RxSof c (?tw ! a)" by simp
      qed
      ultimately show "?sof = UINT_MAX \<and> (\<forall>a \<le> b. \<not> samv71RxSof c (?tw ! a))" ..
    qed
    from Cons.prems(1) have bound: "(i + 1) + length ds < UINT_MAX" by simp
    have rec: "samv71ScanList c ds (i + 1) ?sof =
        (i + 1 + length ?tw,
         (if list_ex (samv71RxSof c) ?tw then i + 1 + samv71PendingStart c ?tw else ?sof),
         UINT_MAX, 0)"
      by (rule Cons.IH [OF bound nr'])
    have step: "samv71ScanList c (d # ds) i sofIndex = samv71ScanList c ds (i + 1) ?sof"
      using own noeof by (auto simp add: Let_def split: if_splits)
    show ?thesis
    proof (cases "samv71RxSof c d")
      case True
      then have "status d AND GMAC_RX_SOF c \<noteq> 0"
        by (simp add: samv71RxSof_def)
      with True show ?thesis
        unfolding step rec tw by simp
    next
      case False
      then have "status d AND GMAC_RX_SOF c = 0"
        by (simp add: samv71RxSof_def)
      with False show ?thesis
        unfolding step rec tw by simp
    qed
  qed
qed

text \<open>The second loop when no end of frame was found: every round only frees an entry.\<close>

lemma samv71_process_step_release:
  "samv71ProcessStep c sofIndex UINT_MAX i (s, len, sz) = (samv71ReleaseStep c s, len, sz)"
  by (simp add: samv71ProcessStep_def samv71ReleaseStep_def samv71RxRelease_def Let_def)

lemma samv71_process_fold_release:
  "fold (samv71ProcessStep c sofIndex UINT_MAX) [0..<j] (s, len, sz) =
     ((samv71ReleaseStep c ^^ j) s, len, sz)"
  by (induction j) (simp_all add: samv71_process_step_release)

lemma samv71_release_steps:
  assumes "samv71_rxBufferIndex s < SAMV71_ETH_RX_BUFFER_COUNT c"
    and "length (samv71_rxBufferDesc s) = SAMV71_ETH_RX_BUFFER_COUNT c"
  shows "j \<le> SAMV71_ETH_RX_BUFFER_COUNT c \<Longrightarrow>
     \<exists>D. (samv71ReleaseStep c ^^ j) s =
           s\<lparr>samv71_rxBufferDesc := D, samv71_rxBufferIndex := samv71RxSlot c s j\<rparr> \<and>
         length D = SAMV71_ETH_RX_BUFFER_COUNT c \<and>
         (\<forall>t < SAMV71_ETH_RX_BUFFER_COUNT c.
            D ! samv71RxSlot c s t =
              (if t < j then samv71RxRelease c (samv71_rxBufferDesc s ! samv71RxSlot c s t)
               else samv71_rxBufferDesc s ! samv71RxSlot c s t))"
proof (induction j)
  case 0
  have "s = s\<lparr>samv71_rxBufferDesc := samv71_rxBufferDesc s,
              samv71_rxBufferIndex := samv71RxSlot c s 0\<rparr>"
    using assms(1) by (simp add: samv71RxSlot_def)
  then show ?case
    using assms(2) by (intro exI [of _ "samv71_rxBufferDesc s"]) simp
next
  case (Suc j)
  let ?n = "SAMV71_ETH_RX_BUFFER_COUNT c"
  from Suc.prems have jn: "j < ?n" by simp
  with Suc.IH obtain D where
    st: "(samv71ReleaseStep c ^^ j) s =
           s\<lparr>samv71_rxBufferDesc := D, samv71_rxBufferIndex := samv71RxSlot c s j\<rparr>"
    and len: "length D = ?n"
    and el: "\<forall>t < ?n. D ! samv71RxSlot c s t =
              (if t < j then samv71RxRelease c (samv71_rxBufferDesc s ! samv71RxSlot c s t)
               else samv71_rxBufferDesc s ! samv71RxSlot c s t)"
    by auto
  let ?r = "samv71RxSlot c s j"
  let ?D = "D[?r := samv71RxRelease c (D ! ?r)]"
  have rn: "?r < ?n"
    using jn by (simp add: samv71RxSlot_def)
  define m where "m = (samv71_rxBufferIndex s + j) mod ?n"
  have m: "m < ?n" "?r = m" "samv71RxSlot c s (Suc j) = (if Suc m = ?n then 0 else Suc m)"
    using jn by (simp_all add: samv71RxSlot_def mod_Suc m_def)
  have nxt: "(if ?r + 1 \<ge> ?n then 0 else ?r + 1) = samv71RxSlot c s (Suc j)"
    using m(1) unfolding m(2,3) by auto
  have step: "(samv71ReleaseStep c ^^ Suc j) s =
      s\<lparr>samv71_rxBufferDesc := ?D, samv71_rxBufferIndex := samv71RxSlot c s (Suc j)\<rparr>"
    using nxt by (simp add: st samv71ReleaseStep_def Let_def)
  have "\<forall>t < ?n. ?D ! samv71RxSlot c s t =
      (if t < Suc j then samv71RxRelease c (samv71_rxBufferDesc s ! samv71RxSlot c s t)
       else samv71_rxBufferDesc s ! samv71RxSlot c s t)"
  proof (intro allI impI)
    fix t
    assume t: "t < ?n"
    show "?D ! samv71RxSlot c s t =
      (if t < Suc j then samv71RxRelease c (samv71_rxBufferDesc s ! samv71RxSlot c s t)
       else samv71_rxBufferDesc s ! samv71RxSlot c s t)"
    proof (cases "t = j")
      case True
      with el jn rn len show ?thesis by simp
    next
      case False
      have "samv71RxSlot c s t \<noteq> ?r"
        using slot_inj [OF assms(1) t jn] False by (auto simp add: samv71RxSlot_def)
      with el t False show ?thesis by auto
    qed
  qed
  with step len show ?case
    by (intro exI [of _ ?D]) simp
qed

lemma samv71RxRelease_hardware: "samv71RxOwnership c (samv71RxRelease c d) = hardware"
proof -
  have "(address d AND NOT (GMAC_RX_OWNERSHIP c)) AND GMAC_RX_OWNERSHIP c = 0"
    by (simp add: word_bw_assocs)
  then show ?thesis
    by (simp add: samv71RxOwnership_def samv71RxRelease_def)
qed

lemma samv71RxScanned_nth:
  assumes "t < length (samv71RxScanned c s)"
  shows "samv71RxScanned c s ! t = samv71_rxBufferDesc s ! samv71RxSlot c s t"
    and "samv71RxOwnership c (samv71_rxBufferDesc s ! samv71RxSlot c s t) = software"
    and "t < SAMV71_ETH_RX_BUFFER_COUNT c"
proof -
  have "length (samv71RxScanned c s) \<le> length (samv71RxWindow c s)"
    unfolding samv71RxScanned_def by (rule length_takeWhile_le)
  with assms show t: "t < SAMV71_ETH_RX_BUFFER_COUNT c"
    by (simp add: samv71RxWindow_def)
  from assms have "samv71RxScanned c s ! t = samv71RxWindow c s ! t"
    unfolding samv71RxScanned_def by (rule takeWhile_nth)
  with t show eq: "samv71RxScanned c s ! t = samv71_rxBufferDesc s ! samv71RxSlot c s t"
    by (simp add: samv71RxWindow_def)
  from assms have "samv71RxScanned c s ! t \<in> set (samv71RxScanned c s)"
    by simp
  then have "samv71RxOwnership c (samv71RxScanned c s ! t) = software"
    unfolding samv71RxScanned_def by (auto dest: set_takeWhileD)
  with eq show "samv71RxOwnership c (samv71_rxBufferDesc s ! samv71RxSlot c s t) = software"
    by simp
qed

text \<open>
  The result of the whole function when the scanned run holds no complete frame, with the
  descriptor list of the new state made explicit.
\<close>

lemma samv71_receive_no_run:
  assumes ok: "samv71_config_ok c" and wf: "samv71_state_ok c s"
    and nr: "\<not> samv71CompleteRun c (samv71RxScanned c s)"
  defines "p \<equiv> samv71PendingStart c (samv71RxScanned c s)"
  shows "\<exists>D. samv71EthReceivePacket c s =
           (ERROR_BUFFER_EMPTY,
            s\<lparr>samv71_rxBufferDesc := D, samv71_rxBufferIndex := samv71RxSlot c s p\<rparr>) \<and>
         length D = SAMV71_ETH_RX_BUFFER_COUNT c \<and>
         (\<forall>t < SAMV71_ETH_RX_BUFFER_COUNT c.
            D ! samv71RxSlot c s t =
              (if t < p then samv71RxRelease c (samv71_rxBufferDesc s ! samv71RxSlot c s t)
               else samv71_rxBufferDesc s ! samv71RxSlot c s t))"
proof -
  let ?n = "SAMV71_ETH_RX_BUFFER_COUNT c"
  let ?tw = "samv71RxScanned c s"
  from ok have n: "?n < UINT_MAX"
    by (simp add: samv71_config_ok_def)
  from wf have ix: "samv71_rxBufferIndex s < ?n" and len: "length (samv71_rxBufferDesc s) = ?n"
    by (simp_all add: samv71_state_ok_def)
  have twn: "length ?tw \<le> ?n"
    using length_takeWhile_le [of "\<lambda>d. samv71RxOwnership c d = software" "samv71RxWindow c s"]
    by (simp add: samv71RxScanned_def samv71RxWindow_def)
  have pn: "p \<le> length ?tw"
    unfolding p_def by (rule samv71PendingStart_le)
  have 1: "samv71ScanLoop c s 0 UINT_MAX = samv71ScanList c (samv71RxWindow c s) 0 UINT_MAX"
    using samv71_scan_loop_list [OF ix, of 0 UINT_MAX] by (simp add: samv71RxWindow_def)
  have cond: "\<forall>b < length ?tw. samv71RxEof c (?tw ! b) \<longrightarrow>
      UINT_MAX = UINT_MAX \<and> (\<forall>a \<le> b. \<not> samv71RxSof c (?tw ! a))"
    using nr by (auto simp add: samv71CompleteRun_def)
  have 2: "samv71ScanList c (samv71RxWindow c s) 0 UINT_MAX =
      (0 + length ?tw, (if list_ex (samv71RxSof c) ?tw then 0 + p else UINT_MAX), UINT_MAX, 0)"
    unfolding p_def samv71RxScanned_def
    by (rule samv71_scan_list_no_run)
      (use n cond in \<open>simp_all add: samv71RxWindow_def samv71RxScanned_def\<close>)
  have j: "(if (if list_ex (samv71RxSof c) ?tw then 0 + p else UINT_MAX) \<noteq> UINT_MAX
            then (if list_ex (samv71RxSof c) ?tw then 0 + p else UINT_MAX)
            else 0 + length ?tw) = p"
  proof (cases "list_ex (samv71RxSof c) ?tw")
    case True
    from pn twn n have "p \<noteq> UINT_MAX" by simp
    with True show ?thesis by simp
  next
    case False
    then show ?thesis
      by (simp add: p_def samv71PendingStart_none)
  qed
  have rec: "samv71EthReceivePacket c s = (ERROR_BUFFER_EMPTY, (samv71ReleaseStep c ^^ p) s)"
    unfolding samv71EthReceivePacket_def 1 2
    by (simp only: prod.case Let_def if_False simp_thms j samv71_process_fold_release) simp
  from pn twn have "p \<le> ?n" by simp
  from samv71_release_steps [OF ix len this] rec show ?thesis
    by auto
qed

text \<open>
  C7. The receive function of the SAMV71 (a frame may span several descriptors). When the
  run of descriptors that the hardware has released, scanned from the receive index, holds
  no start of frame followed by an end of frame, the function returns
  \<^verbatim>\<open>ERROR_BUFFER_EMPTY\<close> and passes nothing to the upper layer. Of the state only the
  descriptor list and the receive index change: the scanned descriptors before the pending
  start of frame (all scanned descriptors when there is no start of frame) are given back to
  the hardware, every other descriptor is left as it was, so that the descriptors of the
  pending fragment stay with the software, and the index stops at the pending start.
\<close>

theorem samv71_receive_incomplete_frame:
  "samv71_config_ok c \<and> samv71_state_ok c s \<and> \<not> samv71CompleteRun c (samv71RxScanned c s) \<longrightarrow>
     fst (samv71EthReceivePacket c s) = ERROR_BUFFER_EMPTY \<and>
     snd (samv71EthReceivePacket c s) =
       s\<lparr>samv71_rxBufferDesc := samv71_rxBufferDesc (snd (samv71EthReceivePacket c s)),
         samv71_rxBufferIndex := samv71RxSlot c s (samv71PendingStart c (samv71RxScanned c s))\<rparr> \<and>
     samv71_processed (snd (samv71EthReceivePacket c s)) = samv71_processed s \<and>
     length (samv71_rxBufferDesc (snd (samv71EthReceivePacket c s))) = SAMV71_ETH_RX_BUFFER_COUNT c \<and>
     (\<forall>t < SAMV71_ETH_RX_BUFFER_COUNT c.
        samv71_rxBufferDesc (snd (samv71EthReceivePacket c s)) ! samv71RxSlot c s t =
          (if t < samv71PendingStart c (samv71RxScanned c s)
           then samv71RxRelease c (samv71_rxBufferDesc s ! samv71RxSlot c s t)
           else samv71_rxBufferDesc s ! samv71RxSlot c s t)) \<and>
     (\<forall>t < samv71PendingStart c (samv71RxScanned c s).
        samv71RxOwnership c (samv71_rxBufferDesc s ! samv71RxSlot c s t) = software \<and>
        samv71RxOwnership c
          (samv71_rxBufferDesc (snd (samv71EthReceivePacket c s)) ! samv71RxSlot c s t) = hardware) \<and>
     (\<forall>t. samv71PendingStart c (samv71RxScanned c s) \<le> t \<and> t < length (samv71RxScanned c s) \<longrightarrow>
        samv71RxOwnership c
          (samv71_rxBufferDesc (snd (samv71EthReceivePacket c s)) ! samv71RxSlot c s t) = software)"
proof (intro impI)
  let ?n = "SAMV71_ETH_RX_BUFFER_COUNT c"
  let ?p = "samv71PendingStart c (samv71RxScanned c s)"
  let ?s' = "snd (samv71EthReceivePacket c s)"
  assume a: "samv71_config_ok c \<and> samv71_state_ok c s \<and> \<not> samv71CompleteRun c (samv71RxScanned c s)"
  then obtain D where
    r: "samv71EthReceivePacket c s =
          (ERROR_BUFFER_EMPTY, s\<lparr>samv71_rxBufferDesc := D, samv71_rxBufferIndex := samv71RxSlot c s ?p\<rparr>)"
    and len: "length D = ?n"
    and el: "\<forall>t < ?n. D ! samv71RxSlot c s t =
              (if t < ?p then samv71RxRelease c (samv71_rxBufferDesc s ! samv71RxSlot c s t)
               else samv71_rxBufferDesc s ! samv71RxSlot c s t)"
    using samv71_receive_no_run [of c s] by blast
  have D: "samv71_rxBufferDesc ?s' = D"
    by (simp add: r)
  have pn: "?p \<le> length (samv71RxScanned c s)"
    by (rule samv71PendingStart_le)
  have before: "\<forall>t < ?p.
        samv71RxOwnership c (samv71_rxBufferDesc s ! samv71RxSlot c s t) = software \<and>
        samv71RxOwnership c (samv71_rxBufferDesc ?s' ! samv71RxSlot c s t) = hardware"
  proof (intro allI impI)
    fix t assume t: "t < ?p"
    with pn have ts: "t < length (samv71RxScanned c s)" by simp
    from samv71RxScanned_nth(2,3) [OF ts] el t
    show "samv71RxOwnership c (samv71_rxBufferDesc s ! samv71RxSlot c s t) = software \<and>
        samv71RxOwnership c (samv71_rxBufferDesc ?s' ! samv71RxSlot c s t) = hardware"
      by (simp add: D samv71RxRelease_hardware)
  qed
  have after: "\<forall>t. ?p \<le> t \<and> t < length (samv71RxScanned c s) \<longrightarrow>
        samv71RxOwnership c (samv71_rxBufferDesc ?s' ! samv71RxSlot c s t) = software"
  proof (intro allI impI)
    fix t assume t: "?p \<le> t \<and> t < length (samv71RxScanned c s)"
    then have ts: "t < length (samv71RxScanned c s)" by simp
    from samv71RxScanned_nth(2,3) [OF ts] el t
    show "samv71RxOwnership c (samv71_rxBufferDesc ?s' ! samv71RxSlot c s t) = software"
      by (simp add: D)
  qed
  show "fst (samv71EthReceivePacket c s) = ERROR_BUFFER_EMPTY \<and>
     ?s' = s\<lparr>samv71_rxBufferDesc := samv71_rxBufferDesc ?s',
              samv71_rxBufferIndex := samv71RxSlot c s ?p\<rparr> \<and>
     samv71_processed ?s' = samv71_processed s \<and>
     length (samv71_rxBufferDesc ?s') = ?n \<and>
     (\<forall>t < ?n. samv71_rxBufferDesc ?s' ! samv71RxSlot c s t =
          (if t < ?p then samv71RxRelease c (samv71_rxBufferDesc s ! samv71RxSlot c s t)
           else samv71_rxBufferDesc s ! samv71RxSlot c s t)) \<and>
     (\<forall>t < ?p.
        samv71RxOwnership c (samv71_rxBufferDesc s ! samv71RxSlot c s t) = software \<and>
        samv71RxOwnership c (samv71_rxBufferDesc ?s' ! samv71RxSlot c s t) = hardware) \<and>
     (\<forall>t. ?p \<le> t \<and> t < length (samv71RxScanned c s) \<longrightarrow>
        samv71RxOwnership c (samv71_rxBufferDesc ?s' ! samv71RxSlot c s t) = software)"
    using before after len el by (simp add: r)
qed

lemma samv71_example_fragment_scanned:
  "samv71RxScanned samv71_example_config samv71_example_fragment_state =
     [\<lparr>address = 0x20401001, status = 0x00000000\<rparr>, \<lparr>address = 0x20401009, status = 0x00004000\<rparr>]"
  by (simp add: samv71RxScanned_def samv71RxWindow_def samv71RxSlot_def samv71RxOwnership_def
      samv71_example_fragment_state_def samv71_blank_state_def samv71_example_config_def
      upt_rec_numeral upt_conv_Cons)

lemma samv71_blank_state_ok:
  "1 \<le> SAMV71_ETH_TX_BUFFER_COUNT c \<Longrightarrow> 1 \<le> SAMV71_ETH_RX_BUFFER_COUNT c \<Longrightarrow>
   samv71_state_ok c (samv71_blank_state c)"
  by (simp add: samv71_state_ok_def samv71_blank_state_def list_all_iff)

theorem samv71_receive_incomplete_frame_witness:
  "samv71_config_ok samv71_example_config \<and>
   samv71_state_ok samv71_example_config samv71_example_fragment_state \<and>
   \<not> samv71CompleteRun samv71_example_config
       (samv71RxScanned samv71_example_config samv71_example_fragment_state) \<and>
   samv71PendingStart samv71_example_config
       (samv71RxScanned samv71_example_config samv71_example_fragment_state) = 1 \<and>
   fst (samv71EthReceivePacket samv71_example_config samv71_example_fragment_state)
     = ERROR_BUFFER_EMPTY \<and>
   samv71_processed (snd (samv71EthReceivePacket samv71_example_config samv71_example_fragment_state))
     = [] \<and>
   samv71_rxBufferIndex (snd (samv71EthReceivePacket samv71_example_config samv71_example_fragment_state))
     = 1 \<and>
   samv71RxOwnership samv71_example_config
     (samv71_rxBufferDesc (snd (samv71EthReceivePacket samv71_example_config samv71_example_fragment_state))
      ! 0) = hardware \<and>
   samv71RxOwnership samv71_example_config
     (samv71_rxBufferDesc (snd (samv71EthReceivePacket samv71_example_config samv71_example_fragment_state))
      ! 1) = software"
proof -
  let ?c = samv71_example_config and ?s = samv71_example_fragment_state
  let ?s' = "snd (samv71EthReceivePacket ?c ?s)"
  have wf: "samv71_state_ok ?c ?s"
    by (simp add: samv71_state_ok_def samv71_example_fragment_state_def samv71_blank_state_def
        samv71_example_config_def list_all_iff)
  have flags: "\<not> samv71RxEof ?c \<lparr>address = 0x20401001, status = 0x00000000\<rparr>"
    "\<not> samv71RxEof ?c \<lparr>address = 0x20401009, status = 0x00004000\<rparr>"
    "\<not> samv71RxSof ?c \<lparr>address = 0x20401001, status = 0x00000000\<rparr>"
    "samv71RxSof ?c \<lparr>address = 0x20401009, status = 0x00004000\<rparr>"
    by (simp_all add: samv71RxEof_def samv71RxSof_def samv71_example_config_def)
  have nr: "\<not> samv71CompleteRun ?c (samv71RxScanned ?c ?s)"
    unfolding samv71CompleteRun_def samv71_example_fragment_scanned
  proof (intro notI, elim exE conjE)
    fix a b :: nat
    let ?ds = "[\<lparr>address = 0x20401001, status = 0x00000000\<rparr>,
                \<lparr>address = 0x20401009 :: uint32_t, status = 0x00004000 :: uint32_t\<rparr>]"
    assume "b < length ?ds" and e: "samv71RxEof ?c (?ds ! b)"
    then have "b = 0 \<or> b = 1" by auto
    with e flags(1,2) show False by auto
  qed
  have p: "samv71PendingStart ?c (samv71RxScanned ?c ?s) = 1"
    unfolding samv71_example_fragment_scanned
    using flags(3,4) by simp
  have sl: "samv71RxSlot ?c ?s 0 = 0" "samv71RxSlot ?c ?s 1 = 1" "SAMV71_ETH_RX_BUFFER_COUNT ?c = 3"
    "samv71_processed ?s = []"
    by (simp_all add: samv71RxSlot_def samv71_example_fragment_state_def samv71_blank_state_def
        samv71_example_config_def)
  note t = samv71_receive_incomplete_frame [of ?c ?s]
  from t samv71_example_config_ok wf nr
  have e: "fst (samv71EthReceivePacket ?c ?s) = ERROR_BUFFER_EMPTY"
    and st: "?s' = ?s\<lparr>samv71_rxBufferDesc := samv71_rxBufferDesc ?s',
        samv71_rxBufferIndex := samv71RxSlot ?c ?s (samv71PendingStart ?c (samv71RxScanned ?c ?s))\<rparr>"
    and pr: "samv71_processed ?s' = samv71_processed ?s"
    and bef: "\<forall>t < samv71PendingStart ?c (samv71RxScanned ?c ?s).
        samv71RxOwnership ?c (samv71_rxBufferDesc ?s ! samv71RxSlot ?c ?s t) = software \<and>
        samv71RxOwnership ?c (samv71_rxBufferDesc ?s' ! samv71RxSlot ?c ?s t) = hardware"
    and aft: "\<forall>t. samv71PendingStart ?c (samv71RxScanned ?c ?s) \<le> t \<and>
        t < length (samv71RxScanned ?c ?s) \<longrightarrow>
        samv71RxOwnership ?c (samv71_rxBufferDesc ?s' ! samv71RxSlot ?c ?s t) = software"
    by blast+
  from st have ix: "samv71_rxBufferIndex ?s' = 1"
    by (metis p sl(2) samv71_state.select_convs(8) samv71_state.surjective samv71_state.update_convs(8))
  from bef [rule_format, of 0] have h0: "samv71RxOwnership ?c (samv71_rxBufferDesc ?s' ! 0) = hardware"
    by (simp add: p sl)
  have lscan: "length (samv71RxScanned ?c ?s) = 2"
    by (simp add: samv71_example_fragment_scanned)
  have sl1: "samv71RxSlot ?c ?s (Suc 0) = Suc 0"
    using sl(2) by simp
  from aft [rule_format, of 1] have h1: "samv71RxOwnership ?c (samv71_rxBufferDesc ?s' ! 1) = software"
    by (simp add: p sl1 lscan)
  from samv71_example_config_ok wf nr p e pr ix h0 h1 show ?thesis
    by (simp add: sl)
qed

section \<open>Termination of the receive loop of the event handlers\<close>



subsection \<open>SAMV71\<close>



text \<open>A round of the second loop that does not copy leaves the byte count as it is.\<close>

lemma samv71_process_fold_nil:
  "fold (samv71ProcessStep c sofIndex eofIndex) [] (s, len, sz) = (s, len, sz)"
  by simp




subsection \<open>i.MX RT1160\<close>







section \<open>Properties of the round trip of a frame\<close>

text \<open>
  The length of the packet when the offset lies inside the buffer, the length field of a
  descriptor, and the length rounded up to a multiple of four.
\<close>

lemma packetLength_eq:
  assumes "offset \<le> length buffer" and "length buffer < 2 ^ 32"
  shows "packetLength buffer offset = length buffer - offset"
proof -
  have "unat ((word_of_nat (length buffer) :: uint32_t) - word_of_nat offset) =
      unat (word_of_nat (length buffer) :: uint32_t) - unat (word_of_nat offset :: uint32_t)"
    using assms by (intro unat_sub) (simp add: word_le_nat_alt unat_of_nat)
  with assms show ?thesis
    by (simp add: packetLength_def netBufferGetLength_def unat_of_nat)
qed

lemma length_field:
  assumes n: "n < 2 ^ k" and k: "k < 32"
  shows "(word_of_nat n :: uint32_t) AND mask k = word_of_nat n"
    and "unat (word_of_nat n :: uint32_t) = n"
proof -
  have "(2 :: nat) ^ k < 2 ^ 32"
    using k by (intro power_strict_increasing) simp_all
  with n have "n < 2 ^ 32" by simp
  then show "unat (word_of_nat n :: uint32_t) = n"
    by (simp add: unat_of_nat)
  show "(word_of_nat n :: uint32_t) AND mask k = word_of_nat n"
    using n by (simp add: take_bit_nat_eq_self flip: take_bit_eq_mask of_nat_take_bit)
qed

lemma and_not_eq_diff: "(w :: uint32_t) AND NOT m = w - (w AND m)"
proof -
  have "(w AND NOT m) AND (w AND m) = 0"
    by (rule bit_eqI) (auto simp add: bit_and_iff bit_not_iff)
  then have "(w AND NOT m) + (w AND m) = (w AND NOT m) OR (w AND m)"
    by (rule disjunctive_add_eq_or)
  also have "\<dots> = w"
    by (rule bit_eqI) (auto simp add: bit_and_iff bit_or_iff bit_not_iff)
  finally show ?thesis
    by (metis add_diff_cancel_right')
qed

lemma roundUp4_ge:
  assumes "n + 3 < 2 ^ 32"
  shows "n \<le> roundUp4 n"
proof -
  define w :: uint32_t where "w = word_of_nat n + 3"
  have w: "unat w = n + 3"
    using assms by (simp add: w_def unat_word_ariths unat_of_nat)
  have "w AND 3 \<le> 3"
    by (rule word_and_le1)
  then have b: "unat (w AND 3) \<le> 3"
    by (simp add: word_le_nat_alt)
  have "w AND 3 \<le> w"
    by (rule word_and_le2)
  then have "unat (w - (w AND 3)) = unat w - unat (w AND 3)"
    by (rule unat_sub)
  moreover have "w AND NOT 3 = w - (w AND 3)"
    by (rule and_not_eq_diff)
  ultimately have "n \<le> unat (w AND NOT 3)"
    using w b by (simp only:)
  then show ?thesis
    by (simp only: roundUp4_def w_def)
qed

text \<open>The first \<open>n\<close> bytes after a copy of at least \<open>n\<close> bytes are the first \<open>n\<close> bytes of the source.\<close>

lemma take_osMemcpy:
  "n \<le> m \<Longrightarrow> n \<le> length src \<Longrightarrow> take n (osMemcpy dest src m) = take n src"
  by (simp add: osMemcpy_def)

lemma take_osMemcpyAt_0:
  "n \<le> m \<Longrightarrow> n \<le> length src \<Longrightarrow> take n (osMemcpyAt dest 0 src m) = take n src"
  by (simp add: osMemcpyAt_def)

lemma netBufferRead_frame:
  "offset \<le> length buffer \<Longrightarrow>
   take (length buffer - offset) (netBufferRead temp buffer offset (length buffer - offset)) =
     drop offset buffer"
  by (simp add: netBufferRead_def osMemcpy_def)

subsection \<open>SAMV71\<close>

lemma samv71_send_frame:
  assumes cfg: "samv71_config_ok c" and wf: "samv71_state_ok c s"
    and own: "samv71TxOwnership c (samv71_txBufferDesc s ! samv71_txBufferIndex s) = software"
    and off: "offset \<le> length buffer" and lb: "length buffer < 2 ^ 32"
    and fit: "length buffer - offset \<le> SAMV71_ETH_TX_BUFFER_SIZE c"
  defines "s1 \<equiv> snd (samv71EthSendPacket c s buffer offset)"
  defines "i \<equiv> samv71_txBufferIndex s"
  shows "fst (samv71EthSendPacket c s buffer offset) = NO_ERROR"
    and "take (length buffer - offset) (samv71_txBuffer s1 ! i) = drop offset buffer"
    and "unat (status (samv71_txBufferDesc s1 ! i) AND GMAC_TX_LENGTH c) = length buffer - offset"
    and "samv71_rxBuffer s1 = samv71_rxBuffer s"
    and "samv71_rxBufferDesc s1 = samv71_rxBufferDesc s"
    and "samv71_rxBufferIndex s1 = samv71_rxBufferIndex s"
    and "samv71_processed s1 = samv71_processed s"
    and "samv71_receiveTemp s1 = samv71_receiveTemp s"
proof -
  let ?L = "length buffer - offset"
  let ?temp = "netBufferRead (samv71_sendTemp s) buffer offset ?L"
  have pl: "packetLength buffer offset = ?L"
    using off lb by (rule packetLength_eq)
  from own have used: "status (samv71_txBufferDesc s ! i) AND GMAC_TX_USED c \<noteq> 0"
    by (simp add: samv71TxOwnership_def i_def split: if_splits)
  from wf have il: "i < length (samv71_txBuffer s)" "i < length (samv71_txBufferDesc s)"
    by (simp_all add: samv71_state_ok_def i_def)
  from cfg obtain k where k: "k < 32" "GMAC_TX_LENGTH c = mask k" "SAMV71_ETH_TX_BUFFER_SIZE c < 2 ^ k"
    by (auto simp add: samv71_config_ok_def)
  from cfg have dis: "GMAC_TX_LAST c AND GMAC_TX_LENGTH c = 0" "GMAC_TX_WRAP c AND GMAC_TX_LENGTH c = 0"
    by (simp_all add: samv71_config_ok_def)
  from fit k(3) have Lk: "?L < 2 ^ k" by simp
  have L3: "?L + 3 < 2 ^ 32"
  proof -
    have "(2 :: nat) ^ k \<le> 2 ^ 31"
      using k(1) by (intro power_increasing) simp_all
    with Lk show ?thesis by simp
  qed
  have ru: "?L \<le> roundUp4 ?L"
    using L3 by (rule roundUp4_ge)
  have lt: "length ?temp = SAMV71_ETH_TX_BUFFER_SIZE c"
    using wf fit off by (simp add: netBufferRead_def osMemcpy_def samv71_state_ok_def)
  have tb: "take ?L (osMemcpy (samv71_txBuffer s ! i) ?temp (roundUp4 ?L)) = drop offset buffer"
    using ru lt fit off by (simp add: take_osMemcpy netBufferRead_frame)
  have st: "unat ((GMAC_TX_LAST c OR (word_of_nat ?L AND GMAC_TX_LENGTH c)) AND GMAC_TX_LENGTH c) = ?L"
    "unat ((GMAC_TX_WRAP c OR GMAC_TX_LAST c OR (word_of_nat ?L AND GMAC_TX_LENGTH c))
       AND GMAC_TX_LENGTH c) = ?L"
    using dis length_field [OF Lk k(1)]
    by (simp_all add: word_ao_dist k(2) word_bw_assocs)
  show "fst (samv71EthSendPacket c s buffer offset) = NO_ERROR"
    using used fit by (simp add: samv71EthSendPacket_def pl Let_def i_def)
  show "take ?L (samv71_txBuffer s1 ! i) = drop offset buffer"
    using used fit il tb by (simp add: s1_def samv71EthSendPacket_def pl Let_def i_def)
  show "unat (status (samv71_txBufferDesc s1 ! i) AND GMAC_TX_LENGTH c) = ?L"
    using used fit il st by (simp add: s1_def samv71EthSendPacket_def pl Let_def i_def)
  show "samv71_rxBuffer s1 = samv71_rxBuffer s"
    and "samv71_rxBufferDesc s1 = samv71_rxBufferDesc s"
    and "samv71_rxBufferIndex s1 = samv71_rxBufferIndex s"
    and "samv71_processed s1 = samv71_processed s"
    and "samv71_receiveTemp s1 = samv71_receiveTemp s"
    using used fit by (simp_all add: s1_def samv71EthSendPacket_def pl Let_def i_def)
qed

text \<open>
  The receive function on the descriptor that the loop-back engine has completed. It passes
  up the first bytes of the transmit buffer: as many as the descriptor declares, and no more
  than a receive buffer holds.
\<close>

lemma samv71_loopback_receive:
  assumes cfg: "samv71_config_ok c"
    and ix: "samv71_rxBufferIndex s < SAMV71_ETH_RX_BUFFER_COUNT c"
    and ld: "length (samv71_rxBufferDesc s) = SAMV71_ETH_RX_BUFFER_COUNT c"
    and lb: "length (samv71_rxBuffer s) = SAMV71_ETH_RX_BUFFER_COUNT c"
    and lr: "length (samv71_rxBuffer s ! samv71_rxBufferIndex s) = SAMV71_ETH_RX_BUFFER_SIZE c"
    and n: "unat (status (samv71_txBufferDesc s ! i) AND GMAC_TX_LENGTH c) = n"
    and n1: "1 \<le> n" and r1: "1 \<le> SAMV71_ETH_RX_BUFFER_SIZE c"
    and hf: "unat ((word_of_nat n :: uint32_t) AND GMAC_RX_LENGTH c) = n"
    and nt: "n \<le> length (samv71_txBuffer s ! i)"
  shows "fst (samv71EthReceivePacket c (samv71LoopbackDma c i s)) = NO_ERROR"
    and "samv71_processed (snd (samv71EthReceivePacket c (samv71LoopbackDma c i s))) =
           samv71_processed s @
             [take (min n (SAMV71_ETH_RX_BUFFER_SIZE c)) (samv71_txBuffer s ! i)]"
proof -
  let ?r = "samv71_rxBufferIndex s"
  let ?s2 = "samv71LoopbackDma c i s"
  let ?m = "min n (SAMV71_ETH_RX_BUFFER_SIZE c)"
  let ?z = "min n (ETH_MAX_FRAME_SIZE c)"
  let ?d = "\<lparr>address = address (samv71_rxBufferDesc s ! ?r) OR GMAC_RX_OWNERSHIP c,
             status = GMAC_RX_SOF c OR GMAC_RX_EOF c OR (word_of_nat n AND GMAC_RX_LENGTH c)\<rparr>"
  let ?b = "osMemcpy (samv71_rxBuffer s ! ?r) (samv71_txBuffer s ! i) ?m"
  from cfg obtain k where k: "k < 32" "GMAC_RX_LENGTH c = mask k" "SAMV71_ETH_RX_BUFFER_SIZE c < 2 ^ k"
    by (auto simp add: samv71_config_ok_def)
  from cfg have flags: "GMAC_RX_OWNERSHIP c \<noteq> 0" "GMAC_RX_SOF c \<noteq> 0" "GMAC_RX_EOF c \<noteq> 0"
    "GMAC_RX_SOF c AND GMAC_RX_LENGTH c = 0" "GMAC_RX_EOF c AND GMAC_RX_LENGTH c = 0"
    and mx: "SAMV71_ETH_RX_BUFFER_SIZE c \<le> ETH_MAX_FRAME_SIZE c"
    and c1: "1 \<le> SAMV71_ETH_RX_BUFFER_COUNT c" "SAMV71_ETH_RX_BUFFER_COUNT c < UINT_MAX"
    by (simp_all add: samv71_config_ok_def)
  from k(3) have mk: "?m < 2 ^ k" by simp
  have m3: "?m + 3 < 2 ^ 32"
  proof -
    have "(2 :: nat) ^ k \<le> 2 ^ 31"
      using k(1) by (intro power_increasing) simp_all
    with mk show ?thesis by simp
  qed
  have ru: "?m \<le> roundUp4 ?m"
    using m3 by (rule roundUp4_ge)
  have mm: "min ?z (SAMV71_ETH_RX_BUFFER_SIZE c) = ?m"
    using mx by simp
  have m1: "0 < ?m"
    using n1 r1 by simp
  have s2: "samv71_rxBufferIndex ?s2 = ?r" "samv71_rxBufferDesc ?s2 ! ?r = ?d"
    "samv71_rxBuffer ?s2 ! ?r = ?b" "samv71_processed ?s2 = samv71_processed s"
    using ix ld lb n lr by (simp_all add: samv71LoopbackDma_def Let_def)
  have own: "address ?d AND GMAC_RX_OWNERSHIP c \<noteq> 0"
    using flags(1) by (simp add: flag_or_and_self)
  have sof: "status ?d AND GMAC_RX_SOF c \<noteq> 0"
  proof -
    have "(GMAC_RX_SOF c OR GMAC_RX_EOF c OR (word_of_nat n AND GMAC_RX_LENGTH c)) AND GMAC_RX_SOF c
        = GMAC_RX_SOF c"
      by (rule bit_eqI) (auto simp add: bit_and_iff bit_or_iff)
    with flags(2) show ?thesis by simp
  qed
  have eof: "status ?d AND GMAC_RX_EOF c \<noteq> 0"
  proof -
    have "(GMAC_RX_SOF c OR GMAC_RX_EOF c OR (word_of_nat n AND GMAC_RX_LENGTH c)) AND GMAC_RX_EOF c
        = GMAC_RX_EOF c"
      by (rule bit_eqI) (auto simp add: bit_and_iff bit_or_iff)
    with flags(3) show ?thesis by simp
  qed
  have len: "unat (status ?d AND GMAC_RX_LENGTH c) = n"
  proof -
    have "status ?d AND GMAC_RX_LENGTH c = word_of_nat n AND GMAC_RX_LENGTH c"
      using flags(4,5) by (simp add: word_ao_dist word_bw_assocs)
    with hf show ?thesis by simp
  qed
  have scan: "samv71ScanLoop c ?s2 0 UINT_MAX = (0, 0, 0, ?z)"
    using c1 ix own sof eof len
    by (subst samv71ScanLoop.simps) (simp add: s2 Let_def UINT_MAX_def)
  have lrb: "?m \<le> length ?b"
    using nt by (simp add: osMemcpy_def)
  have tk: "take ?m (osMemcpyAt (samv71_receiveTemp ?s2) 0 ?b (roundUp4 ?m)) =
      take ?m (samv71_txBuffer s ! i)"
  proof -
    have "take ?m (osMemcpyAt (samv71_receiveTemp ?s2) 0 ?b (roundUp4 ?m)) = take ?m ?b"
      using ru lrb by (rule take_osMemcpyAt_0)
    also have "\<dots> = take ?m (samv71_txBuffer s ! i)"
      using nt by (intro take_osMemcpy) simp_all
    finally show ?thesis .
  qed
  have step: "samv71ProcessStep c 0 0 0 (?s2, 0, ?z) =
      (?s2\<lparr>samv71_receiveTemp := osMemcpyAt (samv71_receiveTemp ?s2) 0 ?b (roundUp4 ?m),
            samv71_rxBufferDesc := (samv71_rxBufferDesc ?s2)[?r := (samv71_rxBufferDesc ?s2 ! ?r)
               \<lparr>address := address (samv71_rxBufferDesc ?s2 ! ?r) AND NOT (GMAC_RX_OWNERSHIP c)\<rparr>],
            samv71_rxBufferIndex := (if ?r + 1 \<ge> SAMV71_ETH_RX_BUFFER_COUNT c then 0 else ?r + 1)\<rparr>,
       ?m, ?z - ?m)"
    by (simp add: samv71ProcessStep_def Let_def UINT_MAX_def s2(1,3) mm)
  have one: "[0..<Suc 0] = [0]" by simp
  have um: "0 \<noteq> UINT_MAX" by (simp add: UINT_MAX_def)
  show "fst (samv71EthReceivePacket c ?s2) = NO_ERROR"
    using m1 um by (simp add: samv71EthReceivePacket_def scan one step)
  show "samv71_processed (snd (samv71EthReceivePacket c ?s2)) =
      samv71_processed s @ [take ?m (samv71_txBuffer s ! i)]"
    using m1 tk um by (simp add: samv71EthReceivePacket_def scan one step s2(4))
qed

text \<open>
  The round trip of every frame that the send function accepts and whose length the length
  field of a receive descriptor can hold: the upper layer gets the first bytes of the frame,
  as many as one receive buffer holds.
\<close>

lemma samv71_round_trip_any_length:
  assumes cfg: "samv71_config_ok c" and wf: "samv71_state_ok c s"
    and own: "samv71TxOwnership c (samv71_txBufferDesc s ! samv71_txBufferIndex s) = software"
    and off: "offset \<le> length buffer" and lb: "length buffer < 2 ^ 32"
    and l1: "1 \<le> length buffer - offset"
    and fit: "length buffer - offset \<le> SAMV71_ETH_TX_BUFFER_SIZE c"
    and r1: "1 \<le> SAMV71_ETH_RX_BUFFER_SIZE c"
    and hf: "unat ((word_of_nat (length buffer - offset) :: uint32_t) AND GMAC_RX_LENGTH c) =
               length buffer - offset"
  shows "fst (samv71RoundTrip c s buffer offset) = NO_ERROR"
    and "fst (snd (samv71RoundTrip c s buffer offset)) = NO_ERROR"
    and "samv71_processed (snd (snd (samv71RoundTrip c s buffer offset))) =
           samv71_processed s @ [take (SAMV71_ETH_RX_BUFFER_SIZE c) (drop offset buffer)]"
proof -
  let ?s1 = "snd (samv71EthSendPacket c s buffer offset)"
  let ?i = "samv71_txBufferIndex s"
  let ?L = "length buffer - offset"
  let ?R = "SAMV71_ETH_RX_BUFFER_SIZE c"
  note snd = samv71_send_frame [OF cfg wf own off lb fit]
  from wf have shape: "samv71_rxBufferIndex ?s1 < SAMV71_ETH_RX_BUFFER_COUNT c"
    "length (samv71_rxBufferDesc ?s1) = SAMV71_ETH_RX_BUFFER_COUNT c"
    "length (samv71_rxBuffer ?s1) = SAMV71_ETH_RX_BUFFER_COUNT c"
    "length (samv71_rxBuffer ?s1 ! samv71_rxBufferIndex ?s1) = ?R"
    by (simp_all add: snd(4-6) samv71_state_ok_def list_all_length)
  have nt: "?L \<le> length (samv71_txBuffer ?s1 ! ?i)"
  proof -
    have "length (take ?L (samv71_txBuffer ?s1 ! ?i)) = ?L"
      using off by (simp only: snd(2)) simp
    then show ?thesis by simp
  qed
  note rcv = samv71_loopback_receive [OF cfg shape snd(3) l1 r1 hf nt]
  have "take (min ?L ?R) (samv71_txBuffer ?s1 ! ?i) = take ?R (take ?L (samv71_txBuffer ?s1 ! ?i))"
    by (simp add: min.commute)
  then have tk: "take (min ?L ?R) (samv71_txBuffer ?s1 ! ?i) = take ?R (drop offset buffer)"
    by (simp only: snd(2))
  have rt: "samv71RoundTrip c s buffer offset =
      (fst (samv71EthSendPacket c s buffer offset),
       samv71EthReceivePacket c (samv71LoopbackDma c ?i ?s1))"
    by (simp add: samv71RoundTrip_def split: prod.splits)
  show "fst (samv71RoundTrip c s buffer offset) = NO_ERROR"
    by (simp add: rt snd(1))
  show "fst (snd (samv71RoundTrip c s buffer offset)) = NO_ERROR"
    by (simp add: rt rcv(1))
  show "samv71_processed (snd (snd (samv71RoundTrip c s buffer offset))) =
      samv71_processed s @ [take ?R (drop offset buffer)]"
    by (simp only: rt snd_conv rcv(2) tk snd(7))
qed


text \<open>A longer frame comes back cut to the size of a receive buffer.\<close>

lemma samv71_round_trip_truncates:
  assumes cfg: "samv71_config_ok c" and wf: "samv71_state_ok c s"
    and own: "samv71TxOwnership c (samv71_txBufferDesc s ! samv71_txBufferIndex s) = software"
    and off: "offset \<le> length buffer" and lb: "length buffer < 2 ^ 32"
    and fit: "length buffer - offset \<le> SAMV71_ETH_TX_BUFFER_SIZE c"
    and r1: "1 \<le> SAMV71_ETH_RX_BUFFER_SIZE c"
    and big: "SAMV71_ETH_RX_BUFFER_SIZE c < length buffer - offset"
    and hf: "unat ((word_of_nat (length buffer - offset) :: uint32_t) AND GMAC_RX_LENGTH c) =
               length buffer - offset"
  shows "fst (samv71RoundTrip c s buffer offset) = NO_ERROR"
    and "fst (snd (samv71RoundTrip c s buffer offset)) = NO_ERROR"
    and "samv71_processed (snd (snd (samv71RoundTrip c s buffer offset))) \<noteq>
           samv71_processed s @ [drop offset buffer]"
proof -
  from r1 big have l1: "1 \<le> length buffer - offset" by simp
  note r = samv71_round_trip_any_length [OF cfg wf own off lb l1 fit r1 hf]
  show "fst (samv71RoundTrip c s buffer offset) = NO_ERROR"
    by (rule r(1))
  show "fst (snd (samv71RoundTrip c s buffer offset)) = NO_ERROR"
    by (rule r(2))
  have "length (take (SAMV71_ETH_RX_BUFFER_SIZE c) (drop offset buffer)) \<noteq>
      length (drop offset buffer)"
    using big by simp
  then have "take (SAMV71_ETH_RX_BUFFER_SIZE c) (drop offset buffer) \<noteq> drop offset buffer"
    by metis
  then show "samv71_processed (snd (snd (samv71RoundTrip c s buffer offset))) \<noteq>
      samv71_processed s @ [drop offset buffer]"
    by (simp add: r(3))
qed

subsection \<open>i.MX RT1160\<close>

lemma and_or_zero:
  "(x :: uint32_t) AND (a OR b) = 0 \<longleftrightarrow> x AND a = 0 \<and> x AND b = 0"
  by (simp add: bit.conj_disj_distrib or_eq_0_iff)

lemma disjoint_bits: "(a :: uint32_t) AND b = 0 \<Longrightarrow> bit a m \<Longrightarrow> bit b m \<Longrightarrow> False"
proof -
  assume "a AND b = 0" and "bit a m" and "bit b m"
  from this(1) have "bit (a AND b) m = bit (0 :: uint32_t) m"
    by simp
  with \<open>bit a m\<close> \<open>bit b m\<close> show False
    by (simp add: bit_and_iff)
qed

lemma masked_word_disjoint:
  assumes "w AND e = 0" and "l AND e = 0" and "d AND e = 0"
  shows "((x AND w) OR l OR (y AND d)) AND e = (0 :: uint32_t)"
proof (rule bit_eqI)
  fix m
  show "bit (((x AND w) OR l OR (y AND d)) AND e) m = bit (0 :: uint32_t) m"
    using assms by (auto simp add: bit_and_iff bit_or_iff dest: disjoint_bits)
qed

lemma mimxrt1160_send_frame:
  assumes cfg: "mimxrt1160_config_ok c" and wf: "mimxrt1160_state_ok c s"
    and own: "mimxrt1160TxOwnership c (mimxrt1160_txBufferDesc s ! mimxrt1160_txBufferIndex s) = software"
    and off: "offset \<le> length buffer" and lb: "length buffer < 2 ^ 32"
    and fit: "length buffer - offset \<le> MIMXRT1160_ETH2_TX_BUFFER_SIZE c"
  defines "s1 \<equiv> snd (mimxrt1160Eth2SendPacket c s buffer offset)"
  defines "i \<equiv> mimxrt1160_txBufferIndex s"
  shows "fst (mimxrt1160Eth2SendPacket c s buffer offset) = NO_ERROR"
    and "take (length buffer - offset) (mimxrt1160_txBuffer s1 ! i) = drop offset buffer"
    and "unat (mimxrt1160_txBufferDesc s1 ! i ! 0 AND ENET_TBD0_DATA_LENGTH c) = length buffer - offset"
    and "mimxrt1160_rxBuffer s1 = mimxrt1160_rxBuffer s"
    and "mimxrt1160_rxBufferDesc s1 = mimxrt1160_rxBufferDesc s"
    and "mimxrt1160_rxBufferIndex s1 = mimxrt1160_rxBufferIndex s"
    and "mimxrt1160_processed s1 = mimxrt1160_processed s"
    and "mimxrt1160_receiveTemp s1 = mimxrt1160_receiveTemp s"
proof -
  let ?L = "length buffer - offset"
  let ?temp = "netBufferRead (mimxrt1160_sendTemp s) buffer offset ?L"
  have pl: "packetLength buffer offset = ?L"
    using off lb by (rule packetLength_eq)
  from own have free: "mimxrt1160_txBufferDesc s ! i ! 0 AND ENET_TBD0_R c = 0"
    by (simp add: mimxrt1160TxOwnership_def i_def split: if_splits)
  from wf have il: "i < length (mimxrt1160_txBuffer s)" "i < length (mimxrt1160_txBufferDesc s)"
    and d8: "length (mimxrt1160_txBufferDesc s ! i) = 8"
    by (simp_all add: mimxrt1160_state_ok_def i_def list_all_length)
  from cfg obtain k where k: "k < 32" "ENET_TBD0_DATA_LENGTH c = mask k"
    "MIMXRT1160_ETH2_TX_BUFFER_SIZE c < 2 ^ k"
    by (auto simp add: mimxrt1160_config_ok_def)
  from cfg have dis: "ENET_TBD0_R c AND ENET_TBD0_DATA_LENGTH c = 0"
    "ENET_TBD0_W c AND ENET_TBD0_DATA_LENGTH c = 0"
    "ENET_TBD0_L c AND ENET_TBD0_DATA_LENGTH c = 0"
    "ENET_TBD0_TC c AND ENET_TBD0_DATA_LENGTH c = 0"
    by (simp_all add: mimxrt1160_config_ok_def)
  from fit k(3) have Lk: "?L < 2 ^ k" by simp
  have L3: "?L + 3 < 2 ^ 32"
  proof -
    have "(2 :: nat) ^ k \<le> 2 ^ 31"
      using k(1) by (intro power_increasing) simp_all
    with Lk show ?thesis by simp
  qed
  have ru: "?L \<le> roundUp4 ?L"
    using L3 by (rule roundUp4_ge)
  have lt: "length ?temp = MIMXRT1160_ETH2_TX_BUFFER_SIZE c"
    using wf fit off by (simp add: netBufferRead_def osMemcpy_def mimxrt1160_state_ok_def)
  have tb: "take ?L (osMemcpy (mimxrt1160_txBuffer s ! i) ?temp (roundUp4 ?L)) = drop offset buffer"
    using ru lt fit off by (simp add: take_osMemcpy netBufferRead_frame)
  have st: "unat ((ENET_TBD0_R c OR ENET_TBD0_L c OR ENET_TBD0_TC c OR
        (word_of_nat ?L AND ENET_TBD0_DATA_LENGTH c)) AND ENET_TBD0_DATA_LENGTH c) = ?L"
    "unat ((ENET_TBD0_R c OR ENET_TBD0_W c OR ENET_TBD0_L c OR ENET_TBD0_TC c OR
        (word_of_nat ?L AND ENET_TBD0_DATA_LENGTH c)) AND ENET_TBD0_DATA_LENGTH c) = ?L"
    using dis length_field [OF Lk k(1)]
    by (simp_all add: word_ao_dist k(2) word_bw_assocs)
  show "fst (mimxrt1160Eth2SendPacket c s buffer offset) = NO_ERROR"
    using free fit by (simp add: mimxrt1160Eth2SendPacket_def pl Let_def i_def)
  show "take ?L (mimxrt1160_txBuffer s1 ! i) = drop offset buffer"
    using free fit il tb by (simp add: s1_def mimxrt1160Eth2SendPacket_def pl Let_def i_def)
  show "unat (mimxrt1160_txBufferDesc s1 ! i ! 0 AND ENET_TBD0_DATA_LENGTH c) = ?L"
    using free fit il d8 st by (simp add: s1_def mimxrt1160Eth2SendPacket_def pl Let_def i_def)
  show "mimxrt1160_rxBuffer s1 = mimxrt1160_rxBuffer s"
    and "mimxrt1160_rxBufferDesc s1 = mimxrt1160_rxBufferDesc s"
    and "mimxrt1160_rxBufferIndex s1 = mimxrt1160_rxBufferIndex s"
    and "mimxrt1160_processed s1 = mimxrt1160_processed s"
    and "mimxrt1160_receiveTemp s1 = mimxrt1160_receiveTemp s"
    using free fit by (simp_all add: s1_def mimxrt1160Eth2SendPacket_def pl Let_def i_def)
qed

lemma mimxrt1160_loopback_receive:
  assumes cfg: "mimxrt1160_config_ok c"
    and ix: "mimxrt1160_rxBufferIndex s < MIMXRT1160_ETH2_RX_BUFFER_COUNT c"
    and ld: "length (mimxrt1160_rxBufferDesc s) = MIMXRT1160_ETH2_RX_BUFFER_COUNT c"
    and d8: "length (mimxrt1160_rxBufferDesc s ! mimxrt1160_rxBufferIndex s) = 8"
    and lb: "length (mimxrt1160_rxBuffer s) = MIMXRT1160_ETH2_RX_BUFFER_COUNT c"
    and lr: "length (mimxrt1160_rxBuffer s ! mimxrt1160_rxBufferIndex s) =
               MIMXRT1160_ETH2_RX_BUFFER_SIZE c"
    and n: "unat (mimxrt1160_txBufferDesc s ! i ! 0 AND ENET_TBD0_DATA_LENGTH c) = n"
    and hf: "unat ((word_of_nat n :: uint32_t) AND ENET_RBD0_DATA_LENGTH c) = n"
    and nt: "n \<le> length (mimxrt1160_txBuffer s ! i)"
  shows "fst (mimxrt1160Eth2ReceivePacket c (mimxrt1160LoopbackDma c i s)) = NO_ERROR"
    and "mimxrt1160_processed (snd (mimxrt1160Eth2ReceivePacket c (mimxrt1160LoopbackDma c i s))) =
           mimxrt1160_processed s @
             [take (min n (MIMXRT1160_ETH2_RX_BUFFER_SIZE c)) (mimxrt1160_txBuffer s ! i)]"
proof -
  let ?r = "mimxrt1160_rxBufferIndex s"
  let ?s2 = "mimxrt1160LoopbackDma c i s"
  let ?m = "min n (MIMXRT1160_ETH2_RX_BUFFER_SIZE c)"
  let ?e = "mimxrt1160_rxBufferDesc s ! ?r"
  let ?v = "(?e ! 0 AND ENET_RBD0_W c) OR ENET_RBD0_L c OR (word_of_nat n AND ENET_RBD0_DATA_LENGTH c)"
  let ?b = "osMemcpy (mimxrt1160_rxBuffer s ! ?r) (mimxrt1160_txBuffer s ! i) ?m"
  let ?err = "ENET_RBD0_LG c OR ENET_RBD0_NO c OR ENET_RBD0_CR c OR ENET_RBD0_OV c OR ENET_RBD0_TR c"
  from cfg obtain k where k: "k < 32" "ENET_RBD0_DATA_LENGTH c = mask k"
    "MIMXRT1160_ETH2_RX_BUFFER_SIZE c < 2 ^ k"
    by (auto simp add: mimxrt1160_config_ok_def)
  from cfg have l0: "ENET_RBD0_L c \<noteq> 0"
    and ew: "ENET_RBD0_E c AND ENET_RBD0_W c = 0"
    and el: "ENET_RBD0_E c AND ENET_RBD0_L c = 0"
    and ed: "ENET_RBD0_E c AND ENET_RBD0_DATA_LENGTH c = 0"
    and wr: "ENET_RBD0_W c AND ?err = 0"
    and wd: "ENET_RBD0_W c AND ENET_RBD0_DATA_LENGTH c = 0"
    and lr': "ENET_RBD0_L c AND ?err = 0"
    and ldl: "ENET_RBD0_L c AND ENET_RBD0_DATA_LENGTH c = 0"
    and rd: "?err AND ENET_RBD0_DATA_LENGTH c = 0"
    by (simp_all add: mimxrt1160_config_ok_def mimxrt1160RxStatusMask_def mimxrt1160RxErrorMask_def
        and_or_zero)
  from k(3) have mk: "?m < 2 ^ k" by simp
  have m3: "?m + 3 < 2 ^ 32"
  proof -
    have "(2 :: nat) ^ k \<le> 2 ^ 31"
      using k(1) by (intro power_increasing) simp_all
    with mk show ?thesis by simp
  qed
  have ru: "?m \<le> roundUp4 ?m"
    using m3 by (rule roundUp4_ge)
  have s2: "mimxrt1160_rxBufferIndex ?s2 = ?r" "mimxrt1160_rxBufferDesc ?s2 ! ?r ! 0 = ?v"
    "mimxrt1160_rxBuffer ?s2 ! ?r = ?b" "mimxrt1160_processed ?s2 = mimxrt1160_processed s"
    using ix ld lb d8 lr by (simp_all add: mimxrt1160LoopbackDma_def Let_def n [symmetric])
  have empty: "?v AND ENET_RBD0_E c = 0"
    using ew [THEN flag_comm] el [THEN flag_comm] ed [THEN flag_comm]
    by (rule masked_word_disjoint)
  have last: "?v AND ENET_RBD0_L c \<noteq> 0"
  proof -
    have "?v AND ENET_RBD0_L c = ENET_RBD0_L c"
      by (rule bit_eqI) (auto simp add: bit_and_iff bit_or_iff)
    with l0 show ?thesis by simp
  qed
  have noerr: "?v AND ?err = 0"
    using wr lr' rd [THEN flag_comm] by (rule masked_word_disjoint)
  have len: "unat (?v AND ENET_RBD0_DATA_LENGTH c) = n"
  proof -
    have "(?e ! 0 AND ENET_RBD0_W c) AND ENET_RBD0_DATA_LENGTH c = 0"
      using wd by (simp only: word_bw_assocs) simp
    then have "?v AND ENET_RBD0_DATA_LENGTH c = word_of_nat n AND ENET_RBD0_DATA_LENGTH c"
      using ldl by (simp add: word_ao_dist word_bw_assocs)
    with hf show ?thesis
      by simp
  qed
  have lrb: "?m \<le> length ?b"
    using nt by (simp add: osMemcpy_def)
  have tk: "take ?m (osMemcpy (mimxrt1160_receiveTemp ?s2) ?b (roundUp4 ?m)) =
      take ?m (mimxrt1160_txBuffer s ! i)"
  proof -
    have "take ?m (osMemcpy (mimxrt1160_receiveTemp ?s2) ?b (roundUp4 ?m)) = take ?m ?b"
      using ru lrb by (rule take_osMemcpy)
    also have "\<dots> = take ?m (mimxrt1160_txBuffer s ! i)"
      using nt by (intro take_osMemcpy) simp_all
    finally show ?thesis .
  qed
  show "fst (mimxrt1160Eth2ReceivePacket c ?s2) = NO_ERROR"
    using empty last noerr
    by (simp add: mimxrt1160Eth2ReceivePacket_def Let_def s2 split: prod.splits)
  show "mimxrt1160_processed (snd (mimxrt1160Eth2ReceivePacket c ?s2)) =
      mimxrt1160_processed s @ [take ?m (mimxrt1160_txBuffer s ! i)]"
    using empty last noerr len tk
    by (simp add: mimxrt1160Eth2ReceivePacket_def Let_def s2 split: prod.splits)
qed

lemma mimxrt1160_round_trip_any_length:
  assumes cfg: "mimxrt1160_config_ok c" and wf: "mimxrt1160_state_ok c s"
    and own: "mimxrt1160TxOwnership c (mimxrt1160_txBufferDesc s ! mimxrt1160_txBufferIndex s) = software"
    and off: "offset \<le> length buffer" and lb: "length buffer < 2 ^ 32"
    and fit: "length buffer - offset \<le> MIMXRT1160_ETH2_TX_BUFFER_SIZE c"
    and hf: "unat ((word_of_nat (length buffer - offset) :: uint32_t) AND ENET_RBD0_DATA_LENGTH c) =
               length buffer - offset"
  shows "fst (mimxrt1160RoundTrip c s buffer offset) = NO_ERROR"
    and "fst (snd (mimxrt1160RoundTrip c s buffer offset)) = NO_ERROR"
    and "mimxrt1160_processed (snd (snd (mimxrt1160RoundTrip c s buffer offset))) =
           mimxrt1160_processed s @ [take (MIMXRT1160_ETH2_RX_BUFFER_SIZE c) (drop offset buffer)]"
proof -
  let ?s1 = "snd (mimxrt1160Eth2SendPacket c s buffer offset)"
  let ?i = "mimxrt1160_txBufferIndex s"
  let ?L = "length buffer - offset"
  let ?R = "MIMXRT1160_ETH2_RX_BUFFER_SIZE c"
  note snd = mimxrt1160_send_frame [OF cfg wf own off lb fit]
  from wf have shape: "mimxrt1160_rxBufferIndex ?s1 < MIMXRT1160_ETH2_RX_BUFFER_COUNT c"
    "length (mimxrt1160_rxBufferDesc ?s1) = MIMXRT1160_ETH2_RX_BUFFER_COUNT c"
    "length (mimxrt1160_rxBufferDesc ?s1 ! mimxrt1160_rxBufferIndex ?s1) = 8"
    "length (mimxrt1160_rxBuffer ?s1) = MIMXRT1160_ETH2_RX_BUFFER_COUNT c"
    "length (mimxrt1160_rxBuffer ?s1 ! mimxrt1160_rxBufferIndex ?s1) = ?R"
    by (simp_all add: snd(4-6) mimxrt1160_state_ok_def list_all_length)
  have nt: "?L \<le> length (mimxrt1160_txBuffer ?s1 ! ?i)"
  proof -
    have "length (take ?L (mimxrt1160_txBuffer ?s1 ! ?i)) = ?L"
      using off by (simp only: snd(2)) simp
    then show ?thesis by simp
  qed
  note rcv = mimxrt1160_loopback_receive [OF cfg shape snd(3) hf nt]
  have "take (min ?L ?R) (mimxrt1160_txBuffer ?s1 ! ?i) =
      take ?R (take ?L (mimxrt1160_txBuffer ?s1 ! ?i))"
    by (simp add: min.commute)
  then have tk: "take (min ?L ?R) (mimxrt1160_txBuffer ?s1 ! ?i) = take ?R (drop offset buffer)"
    by (simp only: snd(2))
  have rt: "mimxrt1160RoundTrip c s buffer offset =
      (fst (mimxrt1160Eth2SendPacket c s buffer offset),
       mimxrt1160Eth2ReceivePacket c (mimxrt1160LoopbackDma c ?i ?s1))"
    by (simp add: mimxrt1160RoundTrip_def split: prod.splits)
  show "fst (mimxrt1160RoundTrip c s buffer offset) = NO_ERROR"
    by (simp add: rt snd(1))
  show "fst (snd (mimxrt1160RoundTrip c s buffer offset)) = NO_ERROR"
    by (simp add: rt rcv(1))
  show "mimxrt1160_processed (snd (snd (mimxrt1160RoundTrip c s buffer offset))) =
      mimxrt1160_processed s @ [take ?R (drop offset buffer)]"
    by (simp only: rt snd_conv rcv(2) tk snd(7))
qed


lemma mimxrt1160_round_trip_truncates:
  assumes cfg: "mimxrt1160_config_ok c" and wf: "mimxrt1160_state_ok c s"
    and own: "mimxrt1160TxOwnership c (mimxrt1160_txBufferDesc s ! mimxrt1160_txBufferIndex s) = software"
    and off: "offset \<le> length buffer" and lb: "length buffer < 2 ^ 32"
    and fit: "length buffer - offset \<le> MIMXRT1160_ETH2_TX_BUFFER_SIZE c"
    and big: "MIMXRT1160_ETH2_RX_BUFFER_SIZE c < length buffer - offset"
    and hf: "unat ((word_of_nat (length buffer - offset) :: uint32_t) AND ENET_RBD0_DATA_LENGTH c) =
               length buffer - offset"
  shows "fst (mimxrt1160RoundTrip c s buffer offset) = NO_ERROR"
    and "fst (snd (mimxrt1160RoundTrip c s buffer offset)) = NO_ERROR"
    and "mimxrt1160_processed (snd (snd (mimxrt1160RoundTrip c s buffer offset))) \<noteq>
           mimxrt1160_processed s @ [drop offset buffer]"
proof -
  note r = mimxrt1160_round_trip_any_length [OF cfg wf own off lb fit hf]
  show "fst (mimxrt1160RoundTrip c s buffer offset) = NO_ERROR"
    by (rule r(1))
  show "fst (snd (mimxrt1160RoundTrip c s buffer offset)) = NO_ERROR"
    by (rule r(2))
  have "length (take (MIMXRT1160_ETH2_RX_BUFFER_SIZE c) (drop offset buffer)) \<noteq>
      length (drop offset buffer)"
    using big by simp
  then have "take (MIMXRT1160_ETH2_RX_BUFFER_SIZE c) (drop offset buffer) \<noteq> drop offset buffer"
    by metis
  then show "mimxrt1160_processed (snd (snd (mimxrt1160RoundTrip c s buffer offset))) \<noteq>
      mimxrt1160_processed s @ [drop offset buffer]"
    by (simp add: r(3))
qed



text \<open>
  The receive function of the i.MX RT1160 does the same with a receive buffer of 8 bytes:
  it copies no more than \<^verbatim>\<open>MIMXRT1160_ETH2_RX_BUFFER_SIZE\<close> bytes.
\<close>

lemma mimxrt1160_example_small_rx_config_ok:
  "mimxrt1160_config_ok mimxrt1160_example_small_rx_config"
proof -
  have "(0xFFFF :: uint32_t) = mask 16"
    by (simp add: mask_eq_exp_minus_1)
  then show ?thesis
    unfolding mimxrt1160_config_ok_def mimxrt1160_example_small_rx_config_def
      mimxrt1160_example_config_def mimxrt1160RxStatusMask_def mimxrt1160RxErrorMask_def
    apply simp
    apply (intro conjI)
     apply (rule exI [of _ 16], simp)
    apply (rule exI [of _ 16], simp)
    done
qed

lemma mimxrt1160_round_trip_truncates_example:
  "fst (mimxrt1160RoundTrip mimxrt1160_example_small_rx_config
          (mimxrt1160Eth2InitBufferDesc mimxrt1160_example_small_rx_config
             (mimxrt1160_blank_state mimxrt1160_example_small_rx_config))
          [1, 2, 3, 4, 5, 6, 7, 8, 9] 0) = NO_ERROR \<and>
   fst (snd (mimxrt1160RoundTrip mimxrt1160_example_small_rx_config
          (mimxrt1160Eth2InitBufferDesc mimxrt1160_example_small_rx_config
             (mimxrt1160_blank_state mimxrt1160_example_small_rx_config))
          [1, 2, 3, 4, 5, 6, 7, 8, 9] 0)) = NO_ERROR \<and>
   mimxrt1160_processed (snd (snd (mimxrt1160RoundTrip mimxrt1160_example_small_rx_config
          (mimxrt1160Eth2InitBufferDesc mimxrt1160_example_small_rx_config
             (mimxrt1160_blank_state mimxrt1160_example_small_rx_config))
          [1, 2, 3, 4, 5, 6, 7, 8, 9] 0))) = [[1, 2, 3, 4, 5, 6, 7, 8]]"
proof -
  let ?c = mimxrt1160_example_small_rx_config
  let ?s = "mimxrt1160Eth2InitBufferDesc ?c (mimxrt1160_blank_state ?c)"
  have wf: "mimxrt1160_state_ok ?c ?s"
    by code_simp
  have own: "mimxrt1160TxOwnership ?c (mimxrt1160_txBufferDesc ?s ! mimxrt1160_txBufferIndex ?s) = software"
    by code_simp
  have pr: "mimxrt1160_processed ?s = []"
    by (simp add: mimxrt1160Eth2InitBufferDesc_def mimxrt1160_blank_state_def Let_def)
  have sz: "MIMXRT1160_ETH2_TX_BUFFER_SIZE ?c = 16" "MIMXRT1160_ETH2_RX_BUFFER_SIZE ?c = 8"
    and fl: "ENET_RBD0_DATA_LENGTH ?c = 0xFFFF"
    by (simp_all add: mimxrt1160_example_small_rx_config_def mimxrt1160_example_config_def)
  have hf: "unat ((word_of_nat (length [1, 2, 3, 4, 5, 6, 7, 8, 9 :: uint8_t] - 0) :: uint32_t)
      AND ENET_RBD0_DATA_LENGTH ?c) = length [1, 2, 3, 4, 5, 6, 7, 8, 9 :: uint8_t] - 0"
    by (simp add: fl)
  note r = mimxrt1160_round_trip_any_length [of ?c ?s 0 "[1, 2, 3, 4, 5, 6, 7, 8, 9]",
      OF mimxrt1160_example_small_rx_config_ok wf own _ _ _ hf]
  have e1: "fst (mimxrt1160RoundTrip ?c ?s [1, 2, 3, 4, 5, 6, 7, 8, 9] 0) = NO_ERROR"
    by (rule r(1)) (simp_all add: sz)
  have e2: "fst (snd (mimxrt1160RoundTrip ?c ?s [1, 2, 3, 4, 5, 6, 7, 8, 9] 0)) = NO_ERROR"
    by (rule r(2)) (simp_all add: sz)
  have "mimxrt1160_processed (snd (snd (mimxrt1160RoundTrip ?c ?s [1, 2, 3, 4, 5, 6, 7, 8, 9] 0))) =
      mimxrt1160_processed ?s @
        [take (MIMXRT1160_ETH2_RX_BUFFER_SIZE ?c) (drop 0 [1, 2, 3, 4, 5, 6, 7, 8, 9])]"
    by (rule r(3)) (simp_all add: sz)
  then have p: "mimxrt1160_processed (snd (snd (mimxrt1160RoundTrip ?c ?s [1, 2, 3, 4, 5, 6, 7, 8, 9] 0))) =
      [[1, 2, 3, 4, 5, 6, 7, 8]]"
    by (simp add: pr sz)
  from e1 e2 p show ?thesis
    by (intro conjI)
qed


end
